(* ===== verification/PF_Prelude.thy ===== *)
theory PF_Prelude
  imports Main "HOL-Library.Word" "HOL-Library.AList" "HOL-Library.Multiset"
begin

text \<open>
  Shared vocabulary of the development: the machine integers of the C++ sources,
  decimal printing (\<^verbatim>\<open>std::to_string\<close>), association lists as the model of
  \<^verbatim>\<open>std::map\<close> and \<^verbatim>\<open>std::unordered_map\<close>, and the generic lemmas about them
  that the component theories use.

  \<^item> Unsigned integers keep their width (\<^typ>\<open>64 word\<close> and so on) and wrap.
  \<^item> Signed integers (\<^verbatim>\<open>int\<close>, \<^verbatim>\<open>std::int64_t\<close>) are \<^typ>\<open>int\<close>: signed overflow is
    undefined in C++, so on every defined execution the mathematical value is the
    value of the program. Codecs convert at the exact width.
  \<^item> A map is an association list. A new key goes to the end and an existing key
    keeps its place, which is one admissible iteration order of the C++ containers.
\<close>

unbundle bit_operations_syntax

subsection \<open>Machine integers\<close>

type_synonym u8 = "8 word"
type_synonym u16 = "16 word"
type_synonym u32 = "32 word"
type_synonym u64 = "64 word"

text \<open>A signed 64-bit count of nanoseconds (\<^verbatim>\<open>clock.hpp\<close>).\<close>
type_synonym Nanoseconds = int

subsection \<open>Collections of facts\<close>

named_theorems alist_simps "effect of the association-list operations on lookups and keys"
named_theorems word_nat "unsigned words read as natural numbers"

subsection \<open>Decimal printing\<close>

definition digit_char :: "nat \<Rightarrow> char" where
  "digit_char d = char_of (48 + d)"

fun to_string_nat :: "nat \<Rightarrow> string" where
  "to_string_nat n =
     (if n < 10 then [digit_char n] else to_string_nat (n div 10) @ [digit_char (n mod 10)])"

declare to_string_nat.simps [simp del]

definition to_string_u64 :: "u64 \<Rightarrow> string" where
  "to_string_u64 w = to_string_nat (unat w)"

definition to_string_u32 :: "u32 \<Rightarrow> string" where
  "to_string_u32 w = to_string_nat (unat w)"

definition to_string_int :: "int \<Rightarrow> string" where
  "to_string_int i = (if i < 0 then CHR ''-'' # to_string_nat (nat (- i)) else to_string_nat (nat i))"

text \<open>Reading the digits back; the inverse used to show that printing is injective.\<close>
definition of_digits :: "string \<Rightarrow> nat" where
  "of_digits s = foldl (\<lambda>n c. 10 * n + (of_char c - 48)) 0 s"

lemma of_digits_snoc [simp]: "of_digits (s @ [c]) = 10 * of_digits s + (of_char c - 48)"
  by (simp add: of_digits_def)

lemma of_char_digit_char [simp]: "d < 10 \<Longrightarrow> (of_char (digit_char d) :: nat) = 48 + d"
  by (simp add: digit_char_def)

lemma of_digits_to_string_nat [simp]: "of_digits (to_string_nat n) = n"
proof (induction n rule: to_string_nat.induct)
  case (1 n)
  show ?case
  proof (cases "n < 10")
    case True
    then show ?thesis by (simp add: to_string_nat.simps [of n] of_digits_def)
  next
    case False
    with 1 show ?thesis by (simp add: to_string_nat.simps [of n])
  qed
qed

lemma to_string_nat_inject [simp]: "to_string_nat m = to_string_nat n \<longleftrightarrow> m = n"
  by (metis of_digits_to_string_nat)

lemma to_string_nat_digits: "c \<in> set (to_string_nat n) \<Longrightarrow> 48 \<le> (of_char c :: nat) \<and> (of_char c :: nat) < 58"
proof (induction n rule: to_string_nat.induct)
  case (1 n)
  then show ?case
    by (cases "n < 10") (auto simp: to_string_nat.simps [of n])
qed

lemma to_string_u64_inject [simp]: "to_string_u64 a = to_string_u64 b \<longleftrightarrow> a = b"
  by (simp add: to_string_u64_def word_unat_eq_iff)

lemma to_string_u32_inject [simp]: "to_string_u32 a = to_string_u32 b \<longleftrightarrow> a = b"
  by (simp add: to_string_u32_def word_unat_eq_iff)

subsection \<open>Words as natural numbers\<close>

lemma unat_plus_fits [word_nat]:
  fixes a b :: "'a::len word"
  assumes "unat a + unat b < 2 ^ LENGTH('a)"
  shows "unat (a + b) = unat a + unat b"
  using assms by (simp add: unat_word_ariths)

lemma unat_minus_le [word_nat]:
  fixes a b :: "'a::len word"
  assumes "b \<le> a"
  shows "unat (a - b) = unat a - unat b"
  using assms by (simp add: unat_sub)

lemma unat_Suc_fits:
  fixes a :: "'a::len word"
  assumes "Suc (unat a) < 2 ^ LENGTH('a)"
  shows "unat (a + 1) = Suc (unat a)"
  using assms by (simp add: unat_word_ariths)

lemma plus_one_nonzero:
  fixes a :: "'a::len word"
  assumes "Suc (unat a) < 2 ^ LENGTH('a)"
  shows "a + 1 \<noteq> 0"
  using unat_Suc_fits [OF assms] by auto

lemma of_nat_unat_id: "of_nat (unat w) = w" for w :: "'a::len word"
  by simp

lemma unat_lt_64: "unat (w :: u64) < 18446744073709551616"
  using unsigned_less [of w] by simp

lemma unat_lt_32: "unat (w :: u32) < 4294967296"
  using unsigned_less [of w] by simp

text \<open>A natural number bounded by a word is represented exactly.\<close>
lemma unat_of_nat_le: "n \<le> unat (w :: u64) \<Longrightarrow> unat (of_nat n :: u64) = n"
  using unat_lt_64 [of w] by (simp add: unat_of_nat)

lemma unat_of_nat_64: "n < 18446744073709551616 \<Longrightarrow> unat (of_nat n :: u64) = n"
  by (simp add: unat_of_nat)

subsection \<open>Association lists\<close>

type_synonym ('k, 'v) alist = "('k \<times> 'v) list"

abbreviation keys :: "('k, 'v) alist \<Rightarrow> 'k list" where
  "keys m \<equiv> map fst m"

text \<open>\<^verbatim>\<open>it = m.find(k); if (it != m.end()) f(it->second);\<close>\<close>
definition modify :: "'k \<Rightarrow> ('v \<Rightarrow> 'v) \<Rightarrow> ('k, 'v) alist \<Rightarrow> ('k, 'v) alist" where
  "modify k f m = (case map_of m k of None \<Rightarrow> m | Some v \<Rightarrow> AList.update k (f v) m)"

text \<open>\<^verbatim>\<open>m[k]\<close> as a value: a missing entry reads as the default.\<close>
definition lookup_default :: "'v \<Rightarrow> ('k, 'v) alist \<Rightarrow> 'k \<Rightarrow> 'v" where
  "lookup_default d m k = (case map_of m k of None \<Rightarrow> d | Some v \<Rightarrow> v)"

text \<open>\<^verbatim>\<open>f(m[k])\<close> as a statement: a missing entry is created first.\<close>
definition modify_default :: "'v \<Rightarrow> 'k \<Rightarrow> ('v \<Rightarrow> 'v) \<Rightarrow> ('k, 'v) alist \<Rightarrow> ('k, 'v) alist" where
  "modify_default d k f m = AList.update k (f (lookup_default d m k)) m"

lemmas map_of_update [alist_simps] = AList.update_conv
lemmas keys_update [alist_simps] = AList.update_keys
lemmas map_of_delete [alist_simps] = AList.delete_conv

lemma map_of_modify [alist_simps]:
  "map_of (modify k f m) k' = (if k' = k then map_option f (map_of m k) else map_of m k')"
  by (auto simp: modify_def AList.update_conv split: option.splits)

lemma keys_modify [alist_simps]: "keys (modify k f m) = keys m"
  by (auto simp: modify_def AList.update_keys dom_map_of_conv_image_fst [symmetric] split: option.splits)

lemma map_of_modify_default [alist_simps]:
  "map_of (modify_default d k f m) k' = (if k' = k then Some (f (lookup_default d m k)) else map_of m k')"
  by (simp add: modify_default_def AList.update_conv)

lemma distinct_keys_delete [alist_simps]: "distinct (keys m) \<Longrightarrow> distinct (keys (AList.delete k m))"
  by (simp add: AList.distinct_delete)

lemma map_of_keys: "map_of m k = Some v \<Longrightarrow> k \<in> set (keys m)"
  by (metis dom_map_of_conv_image_fst domI list.set_map)

lemma map_of_keys_ex: "k \<in> set (keys m) \<Longrightarrow> \<exists>v. map_of m k = Some v"
  by (metis list.set_map map_of_eq_None_iff not_Some_eq)

lemma map_of_distinct_mem: "distinct (keys m) \<Longrightarrow> (k, v) \<in> set m \<longleftrightarrow> map_of m k = Some v"
  by (metis map_of_SomeD map_of_is_SomeI)

subsection \<open>Sums over the entries of a map\<close>

definition asum :: "('k \<Rightarrow> 'v \<Rightarrow> nat) \<Rightarrow> ('k, 'v) alist \<Rightarrow> nat" where
  "asum f m = sum_list (map (\<lambda>(k, v). f k v) m)"

lemma asum_Nil [simp]: "asum f [] = 0"
  by (simp add: asum_def)

lemma asum_Cons [simp]: "asum f ((k, v) # m) = f k v + asum f m"
  by (simp add: asum_def)

lemma asum_append [simp]: "asum f (m @ m') = asum f m + asum f m'"
  by (simp add: asum_def)

lemma asum_update_new: "map_of m k = None \<Longrightarrow> asum f (AList.update k v m) = asum f m + f k v"
  by (induction m) (auto split: if_splits)

lemma asum_update_old:
  "map_of m k = Some v0 \<Longrightarrow> asum f (AList.update k v m) + f k v0 = asum f m + f k v"
  by (induction m) (auto split: if_splits)

lemma asum_update_same:
  "map_of m k = Some v0 \<Longrightarrow> f k v = f k v0 \<Longrightarrow> asum f (AList.update k v m) = asum f m"
  using asum_update_old [of m k v0 f v] by simp

lemma asum_member_le: "map_of m k = Some v \<Longrightarrow> f k v \<le> asum f m"
  by (induction m) (auto split: if_splits)

lemma asum_cong:
  "(\<And>k v. (k, v) \<in> set m \<Longrightarrow> f k v = g k v) \<Longrightarrow> asum f m = asum g m"
  by (induction m) auto

lemma asum_zero: "(\<And>k v. (k, v) \<in> set m \<Longrightarrow> f k v = 0) \<Longrightarrow> asum f m = 0"
  by (induction m) auto

lemma asum_le_length: "(\<And>k v. f k v \<le> 1) \<Longrightarrow> asum f m \<le> length m"
proof (induction m)
  case (Cons p m)
  then have "f (fst p) (snd p) \<le> 1" and "asum f m \<le> length m" by auto
  then show ?case by (cases p) simp
qed simp

subsection \<open>Sorting by a strict comparison\<close>

text \<open>
  \<^verbatim>\<open>std::sort\<close> with a comparison object: the model inserts each element before the
  first one it is smaller than. For a strict total order the sorted permutation is
  unique, so any correct sort returns this list.
\<close>

fun insert_by :: "('a \<Rightarrow> 'a \<Rightarrow> bool) \<Rightarrow> 'a \<Rightarrow> 'a list \<Rightarrow> 'a list" where
  "insert_by lt x [] = [x]"
| "insert_by lt x (y # ys) = (if lt x y then x # y # ys else y # insert_by lt x ys)"

fun sort_by :: "('a \<Rightarrow> 'a \<Rightarrow> bool) \<Rightarrow> 'a list \<Rightarrow> 'a list" where
  "sort_by lt [] = []"
| "sort_by lt (x # xs) = insert_by lt x (sort_by lt xs)"

lemma mset_insert_by [simp]: "mset (insert_by lt x ys) = add_mset x (mset ys)"
  by (induction ys) auto

lemma mset_sort_by [simp]: "mset (sort_by lt xs) = mset xs"
  by (induction xs) auto

lemma set_insert_by [simp]: "set (insert_by lt x ys) = insert x (set ys)"
  by (induction ys) auto

lemma set_sort_by [simp]: "set (sort_by lt xs) = set xs"
  by (metis mset_sort_by set_mset_mset)

lemma length_sort_by [simp]: "length (sort_by lt xs) = length xs"
  by (metis mset_sort_by size_mset)

lemma distinct_sort_by [simp]: "distinct (sort_by lt xs) = distinct xs"
  by (metis mset_sort_by mset_eq_imp_distinct_iff)

text \<open>
  The contract of a comparison object on the elements it is used on
  (the \<^emph>\<open>strict weak ordering\<close> requirement of \<^verbatim>\<open>std::sort\<close>, here total).
\<close>

locale strict_order =
  fixes lt :: "'a \<Rightarrow> 'a \<Rightarrow> bool" and dom_of :: "'a set"
  assumes lt_irrefl: "x \<in> dom_of \<Longrightarrow> \<not> lt x x"
    and lt_trans: "x \<in> dom_of \<Longrightarrow> y \<in> dom_of \<Longrightarrow> z \<in> dom_of \<Longrightarrow> lt x y \<Longrightarrow> lt y z \<Longrightarrow> lt x z"
    and lt_total: "x \<in> dom_of \<Longrightarrow> y \<in> dom_of \<Longrightarrow> x \<noteq> y \<Longrightarrow> lt x y \<or> lt y x"
begin

lemma lt_asym: "x \<in> dom_of \<Longrightarrow> y \<in> dom_of \<Longrightarrow> lt x y \<Longrightarrow> \<not> lt y x"
  using lt_irrefl lt_trans by blast

lemma sorted_insert_by:
  "x \<in> dom_of \<Longrightarrow> set ys \<subseteq> dom_of \<Longrightarrow> x \<notin> set ys \<Longrightarrow> sorted_wrt lt ys \<Longrightarrow> sorted_wrt lt (insert_by lt x ys)"
proof (induction ys)
  case (Cons y ys)
  show ?case
  proof (cases "lt x y")
    case True
    with Cons.prems show ?thesis
      by simp (meson lt_trans subsetD)
  next
    case False
    with Cons.prems have "lt y x"
      using lt_total by (metis list.set_intros(1) subsetD)
    with False Cons show ?thesis by auto
  qed
qed simp

lemma sorted_sort_by: "set xs \<subseteq> dom_of \<Longrightarrow> distinct xs \<Longrightarrow> sorted_wrt lt (sort_by lt xs)"
  by (induction xs) (simp_all add: sorted_insert_by)

lemma sorted_unique:
  "sorted_wrt lt xs \<Longrightarrow> sorted_wrt lt ys \<Longrightarrow> mset xs = mset ys \<Longrightarrow> set xs \<subseteq> dom_of \<Longrightarrow> xs = ys"
proof (induction xs arbitrary: ys)
  case (Cons x xs)
  from Cons.prems(3) obtain y ys' where ys: "ys = y # ys'"
    by (cases ys) auto
  have same: "set ys = insert x (set xs)"
    using Cons.prems(3) by (metis list.simps(15) set_mset_mset)
  have "x = y"
  proof (rule ccontr)
    assume "x \<noteq> y"
    with same ys Cons.prems(1) have "lt x y" by auto
    moreover from \<open>x \<noteq> y\<close> same ys Cons.prems(2) have "lt y x" by auto
    moreover have "x \<in> dom_of" "y \<in> dom_of"
      using same ys Cons.prems(4) by auto
    ultimately show False
      using lt_asym by blast
  qed
  moreover have "xs = ys'"
    using Cons ys \<open>x = y\<close> by auto
  ultimately show ?case using ys by simp
qed simp

text \<open>The order of the input does not matter.\<close>
lemma sort_by_perm:
  assumes "mset xs = mset ys" "distinct xs" "set xs \<subseteq> dom_of"
  shows "sort_by lt xs = sort_by lt ys"
proof (rule sorted_unique)
  have dist: "distinct ys" and sub: "set ys \<subseteq> dom_of"
    using assms by (auto dest: mset_eq_imp_distinct_iff mset_eq_setD)
  show "sorted_wrt lt (sort_by lt xs)" using assms by (intro sorted_sort_by) auto
  show "sorted_wrt lt (sort_by lt ys)" using dist sub by (rule sorted_sort_by [rotated])
  show "mset (sort_by lt xs) = mset (sort_by lt ys)" using assms by simp
  show "set (sort_by lt xs) \<subseteq> dom_of" using assms by simp
qed

end

end
