(* ===== verification/PF_Types.thy ===== *)
theory PF_Types
  imports PF_Prelude
begin

text \<open>
  The value types of \<^verbatim>\<open>types.hpp\<close> and \<^verbatim>\<open>result.hpp\<close>: strongly typed identities,
  the scoped enumerations with their printed names, model and vocabulary keys, error
  codes and results.

  A C++ enumeration with a fixed underlying type can hold any value of that type, and
  the decoders do build such values (\<^verbatim>\<open>static_cast<Lifecycle>(u8)\<close>). Each datatype
  therefore has one constructor per enumerator and a last one, \<open>_other\<close>, for a value
  that no enumerator names; it prints as the \<^verbatim>\<open>default\<close> branch of \<^verbatim>\<open>to_string\<close>.
\<close>

subsection \<open>Strong identities\<close>

datatype 'tag StrongId = StrongId (id_value: u64)

instantiation StrongId :: (type) linorder
begin

definition less_eq_StrongId :: "'a StrongId \<Rightarrow> 'a StrongId \<Rightarrow> bool" where
  "less_eq_StrongId a b = (id_value a \<le> id_value b)"

definition less_StrongId :: "'a StrongId \<Rightarrow> 'a StrongId \<Rightarrow> bool" where
  "less_StrongId a b = (id_value a < id_value b)"

instance
  by standard (auto simp: less_eq_StrongId_def less_StrongId_def intro: StrongId.expand)

end

definition nil_id :: "'tag StrongId" where
  "nil_id = StrongId 0"

declare nil_id_def [code_unfold]

definition is_nil :: "'tag StrongId \<Rightarrow> bool" where
  "is_nil i = (id_value i = 0)"

lemma is_nil_iff [simp]: "is_nil i \<longleftrightarrow> i = nil_id"
  by (cases i) (simp add: is_nil_def nil_id_def)

lemma id_value_nil_id [simp]: "id_value nil_id = 0"
  by (simp add: nil_id_def)

lemma StrongId_eq_nil [simp]: "StrongId v = nil_id \<longleftrightarrow> v = 0" "nil_id = StrongId v \<longleftrightarrow> v = 0"
  by (auto simp: nil_id_def)

datatype RequestIdTag = RequestIdTag
datatype AttemptIdTag = AttemptIdTag
datatype TenantIdTag = TenantIdTag
datatype WorkerIdTag = WorkerIdTag
datatype WorkerBootIdTag = WorkerBootIdTag
datatype EpochTag = EpochTag
datatype AdapterIdTag = AdapterIdTag
datatype DeviceIdTag = DeviceIdTag
datatype GroupIdTag = GroupIdTag
datatype GenerationTag = GenerationTag

type_synonym RequestId = "RequestIdTag StrongId"
type_synonym AttemptId = "AttemptIdTag StrongId"
type_synonym TenantId = "TenantIdTag StrongId"
type_synonym WorkerId = "WorkerIdTag StrongId"
type_synonym WorkerBootId = "WorkerBootIdTag StrongId"
type_synonym Epoch = "EpochTag StrongId"
type_synonym AdapterId = "AdapterIdTag StrongId"
type_synonym DeviceId = "DeviceIdTag StrongId"
type_synonym GroupId = "GroupIdTag StrongId"
type_synonym Generation = "GenerationTag StrongId"

subsection \<open>Model and vocabulary keys\<close>

record ModelKey =
  model_name :: string
  model_revision :: string

record VocabSpec =
  tokenizer :: string
  vocab_size :: u64

definition kBackendCpu :: string where "kBackendCpu = ''cpu''"
definition kBackendCuda :: string where "kBackendCuda = ''cuda''"
definition kBackendAny :: string where "kBackendAny = ''*''"

subsection \<open>Enumerations\<close>

text \<open>
  What the codecs rely on: converting an enumerator to its integer and back is the
  identity, and converting any integer to the enumeration and back is the identity.
\<close>

locale enum_code =
  fixes code_of :: "'e \<Rightarrow> int" and of_code :: "int \<Rightarrow> 'e" and named :: "'e \<Rightarrow> bool"
  assumes of_code_code: "named e \<Longrightarrow> of_code (code_of e) = e"
    and code_of_code: "code_of (of_code n) = n"
begin

lemma code_inject: "named a \<Longrightarrow> named b \<Longrightarrow> code_of a = code_of b \<Longrightarrow> a = b"
  by (metis of_code_code)

text \<open>One byte carries the value exactly when the code is a byte value.\<close>
lemma byte_roundtrip:
  assumes "named e" "0 \<le> code_of e" "code_of e < 256"
  shows "of_code (uint (word_of_int (code_of e) :: u8)) = e"
  using assms by (simp add: uint_word_of_int of_code_code)

text \<open>Every byte that is read is written back unchanged.\<close>
lemma byte_rewrite: "(word_of_int (code_of (of_code (uint b))) :: u8) = b"
  by (simp add: code_of_code)

end

datatype NumericMode =
    NM_fp32
  | NM_fp16
  | NM_bf16
  | NM_fp8
  | NM_int8
  | NM_mixed
  | NM_other int

primrec to_string_NumericMode :: "NumericMode \<Rightarrow> string" where
  "to_string_NumericMode NM_fp32 = ''fp32''"
| "to_string_NumericMode NM_fp16 = ''fp16''"
| "to_string_NumericMode NM_bf16 = ''bf16''"
| "to_string_NumericMode NM_fp8 = ''fp8''"
| "to_string_NumericMode NM_int8 = ''int8''"
| "to_string_NumericMode NM_mixed = ''mixed''"
| "to_string_NumericMode (NM_other _) = ''unknown''"

primrec NumericMode_code :: "NumericMode \<Rightarrow> int" where
  "NumericMode_code NM_fp32 = 0"
| "NumericMode_code NM_fp16 = 1"
| "NumericMode_code NM_bf16 = 2"
| "NumericMode_code NM_fp8 = 3"
| "NumericMode_code NM_int8 = 4"
| "NumericMode_code NM_mixed = 5"
| "NumericMode_code (NM_other n) = n"

definition NumericMode_of_code :: "int \<Rightarrow> NumericMode" where
  "NumericMode_of_code n =
     (if n = 0 then NM_fp32
      else if n = 1 then NM_fp16
      else if n = 2 then NM_bf16
      else if n = 3 then NM_fp8
      else if n = 4 then NM_int8
      else if n = 5 then NM_mixed
      else NM_other n)"

primrec NumericMode_named :: "NumericMode \<Rightarrow> bool" where
  "NumericMode_named NM_fp32 = True"
| "NumericMode_named NM_fp16 = True"
| "NumericMode_named NM_bf16 = True"
| "NumericMode_named NM_fp8 = True"
| "NumericMode_named NM_int8 = True"
| "NumericMode_named NM_mixed = True"
| "NumericMode_named (NM_other _) = False"

interpretation nm: enum_code NumericMode_code NumericMode_of_code NumericMode_named
proof
  show "NumericMode_named e \<Longrightarrow> NumericMode_of_code (NumericMode_code e) = e" for e
    by (cases e) (simp_all add: NumericMode_of_code_def)
  show "NumericMode_code (NumericMode_of_code n) = n" for n
    by (simp add: NumericMode_of_code_def)
qed

datatype LatencyClass =
    LAT_best_effort
  | LAT_standard
  | LAT_latency_sensitive
  | LAT_interactive
  | LAT_real_time
  | LAT_other int

primrec to_string_LatencyClass :: "LatencyClass \<Rightarrow> string" where
  "to_string_LatencyClass LAT_best_effort = ''best_effort''"
| "to_string_LatencyClass LAT_standard = ''standard''"
| "to_string_LatencyClass LAT_latency_sensitive = ''latency_sensitive''"
| "to_string_LatencyClass LAT_interactive = ''interactive''"
| "to_string_LatencyClass LAT_real_time = ''real_time''"
| "to_string_LatencyClass (LAT_other _) = ''unknown''"

primrec LatencyClass_code :: "LatencyClass \<Rightarrow> int" where
  "LatencyClass_code LAT_best_effort = 0"
| "LatencyClass_code LAT_standard = 1"
| "LatencyClass_code LAT_latency_sensitive = 2"
| "LatencyClass_code LAT_interactive = 3"
| "LatencyClass_code LAT_real_time = 4"
| "LatencyClass_code (LAT_other n) = n"

definition LatencyClass_of_code :: "int \<Rightarrow> LatencyClass" where
  "LatencyClass_of_code n =
     (if n = 0 then LAT_best_effort
      else if n = 1 then LAT_standard
      else if n = 2 then LAT_latency_sensitive
      else if n = 3 then LAT_interactive
      else if n = 4 then LAT_real_time
      else LAT_other n)"

primrec LatencyClass_named :: "LatencyClass \<Rightarrow> bool" where
  "LatencyClass_named LAT_best_effort = True"
| "LatencyClass_named LAT_standard = True"
| "LatencyClass_named LAT_latency_sensitive = True"
| "LatencyClass_named LAT_interactive = True"
| "LatencyClass_named LAT_real_time = True"
| "LatencyClass_named (LAT_other _) = False"

interpretation latc: enum_code LatencyClass_code LatencyClass_of_code LatencyClass_named
proof
  show "LatencyClass_named e \<Longrightarrow> LatencyClass_of_code (LatencyClass_code e) = e" for e
    by (cases e) (simp_all add: LatencyClass_of_code_def)
  show "LatencyClass_code (LatencyClass_of_code n) = n" for n
    by (simp add: LatencyClass_of_code_def)
qed

datatype InputLayout =
    IL_seq_major
  | IL_batch_major
  | IL_packed
  | IL_block
  | IL_other int

primrec to_string_InputLayout :: "InputLayout \<Rightarrow> string" where
  "to_string_InputLayout IL_seq_major = ''seq_major''"
| "to_string_InputLayout IL_batch_major = ''batch_major''"
| "to_string_InputLayout IL_packed = ''packed''"
| "to_string_InputLayout IL_block = ''block''"
| "to_string_InputLayout (IL_other _) = ''unknown''"

primrec InputLayout_code :: "InputLayout \<Rightarrow> int" where
  "InputLayout_code IL_seq_major = 0"
| "InputLayout_code IL_batch_major = 1"
| "InputLayout_code IL_packed = 2"
| "InputLayout_code IL_block = 3"
| "InputLayout_code (IL_other n) = n"

definition InputLayout_of_code :: "int \<Rightarrow> InputLayout" where
  "InputLayout_of_code n =
     (if n = 0 then IL_seq_major
      else if n = 1 then IL_batch_major
      else if n = 2 then IL_packed
      else if n = 3 then IL_block
      else IL_other n)"

primrec InputLayout_named :: "InputLayout \<Rightarrow> bool" where
  "InputLayout_named IL_seq_major = True"
| "InputLayout_named IL_batch_major = True"
| "InputLayout_named IL_packed = True"
| "InputLayout_named IL_block = True"
| "InputLayout_named (IL_other _) = False"

interpretation ilay: enum_code InputLayout_code InputLayout_of_code InputLayout_named
proof
  show "InputLayout_named e \<Longrightarrow> InputLayout_of_code (InputLayout_code e) = e" for e
    by (cases e) (simp_all add: InputLayout_of_code_def)
  show "InputLayout_code (InputLayout_of_code n) = n" for n
    by (simp add: InputLayout_of_code_def)
qed

datatype WorkKind =
    WK_full_prompt
  | WK_partial
  | WK_chunked
  | WK_continuation
  | WK_reused_suffix
  | WK_retried
  | WK_cancelled
  | WK_deadline_expired
  | WK_split
  | WK_merged
  | WK_worker_recovered
  | WK_stale_rejected
  | WK_other int

primrec to_string_WorkKind :: "WorkKind \<Rightarrow> string" where
  "to_string_WorkKind WK_full_prompt = ''full_prompt''"
| "to_string_WorkKind WK_partial = ''partial''"
| "to_string_WorkKind WK_chunked = ''chunked''"
| "to_string_WorkKind WK_continuation = ''continuation''"
| "to_string_WorkKind WK_reused_suffix = ''reused_suffix''"
| "to_string_WorkKind WK_retried = ''retried''"
| "to_string_WorkKind WK_cancelled = ''cancelled''"
| "to_string_WorkKind WK_deadline_expired = ''deadline_expired''"
| "to_string_WorkKind WK_split = ''split''"
| "to_string_WorkKind WK_merged = ''merged''"
| "to_string_WorkKind WK_worker_recovered = ''worker_recovered''"
| "to_string_WorkKind WK_stale_rejected = ''stale_rejected''"
| "to_string_WorkKind (WK_other _) = ''unknown''"

primrec WorkKind_code :: "WorkKind \<Rightarrow> int" where
  "WorkKind_code WK_full_prompt = 0"
| "WorkKind_code WK_partial = 1"
| "WorkKind_code WK_chunked = 2"
| "WorkKind_code WK_continuation = 3"
| "WorkKind_code WK_reused_suffix = 4"
| "WorkKind_code WK_retried = 5"
| "WorkKind_code WK_cancelled = 6"
| "WorkKind_code WK_deadline_expired = 7"
| "WorkKind_code WK_split = 8"
| "WorkKind_code WK_merged = 9"
| "WorkKind_code WK_worker_recovered = 10"
| "WorkKind_code WK_stale_rejected = 11"
| "WorkKind_code (WK_other n) = n"

definition WorkKind_of_code :: "int \<Rightarrow> WorkKind" where
  "WorkKind_of_code n =
     (if n = 0 then WK_full_prompt
      else if n = 1 then WK_partial
      else if n = 2 then WK_chunked
      else if n = 3 then WK_continuation
      else if n = 4 then WK_reused_suffix
      else if n = 5 then WK_retried
      else if n = 6 then WK_cancelled
      else if n = 7 then WK_deadline_expired
      else if n = 8 then WK_split
      else if n = 9 then WK_merged
      else if n = 10 then WK_worker_recovered
      else if n = 11 then WK_stale_rejected
      else WK_other n)"

primrec WorkKind_named :: "WorkKind \<Rightarrow> bool" where
  "WorkKind_named WK_full_prompt = True"
| "WorkKind_named WK_partial = True"
| "WorkKind_named WK_chunked = True"
| "WorkKind_named WK_continuation = True"
| "WorkKind_named WK_reused_suffix = True"
| "WorkKind_named WK_retried = True"
| "WorkKind_named WK_cancelled = True"
| "WorkKind_named WK_deadline_expired = True"
| "WorkKind_named WK_split = True"
| "WorkKind_named WK_merged = True"
| "WorkKind_named WK_worker_recovered = True"
| "WorkKind_named WK_stale_rejected = True"
| "WorkKind_named (WK_other _) = False"

interpretation wkind: enum_code WorkKind_code WorkKind_of_code WorkKind_named
proof
  show "WorkKind_named e \<Longrightarrow> WorkKind_of_code (WorkKind_code e) = e" for e
    by (cases e) (simp_all add: WorkKind_of_code_def)
  show "WorkKind_code (WorkKind_of_code n) = n" for n
    by (simp add: WorkKind_of_code_def)
qed

datatype AdapterRelation =
    AR_none
  | AR_same_base
  | AR_base_adapter
  | AR_distinct
  | AR_other int

primrec to_string_AdapterRelation :: "AdapterRelation \<Rightarrow> string" where
  "to_string_AdapterRelation AR_none = ''none''"
| "to_string_AdapterRelation AR_same_base = ''same_base''"
| "to_string_AdapterRelation AR_base_adapter = ''base_adapter''"
| "to_string_AdapterRelation AR_distinct = ''distinct''"
| "to_string_AdapterRelation (AR_other _) = ''unknown''"

primrec AdapterRelation_code :: "AdapterRelation \<Rightarrow> int" where
  "AdapterRelation_code AR_none = 0"
| "AdapterRelation_code AR_same_base = 1"
| "AdapterRelation_code AR_base_adapter = 2"
| "AdapterRelation_code AR_distinct = 3"
| "AdapterRelation_code (AR_other n) = n"

definition AdapterRelation_of_code :: "int \<Rightarrow> AdapterRelation" where
  "AdapterRelation_of_code n =
     (if n = 0 then AR_none
      else if n = 1 then AR_same_base
      else if n = 2 then AR_base_adapter
      else if n = 3 then AR_distinct
      else AR_other n)"

primrec AdapterRelation_named :: "AdapterRelation \<Rightarrow> bool" where
  "AdapterRelation_named AR_none = True"
| "AdapterRelation_named AR_same_base = True"
| "AdapterRelation_named AR_base_adapter = True"
| "AdapterRelation_named AR_distinct = True"
| "AdapterRelation_named (AR_other _) = False"

interpretation arel: enum_code AdapterRelation_code AdapterRelation_of_code AdapterRelation_named
proof
  show "AdapterRelation_named e \<Longrightarrow> AdapterRelation_of_code (AdapterRelation_code e) = e" for e
    by (cases e) (simp_all add: AdapterRelation_of_code_def)
  show "AdapterRelation_code (AdapterRelation_of_code n) = n" for n
    by (simp add: AdapterRelation_of_code_def)
qed

datatype Lifecycle =
    LC_submitted
  | LC_admitted
  | LC_queued
  | LC_formed
  | LC_reserved
  | LC_dispatched
  | LC_running
  | LC_awaiting_retry
  | LC_completed
  | LC_failed_non_retryable
  | LC_cancelled
  | LC_expired
  | LC_rejected
  | LC_other int

primrec to_string_Lifecycle :: "Lifecycle \<Rightarrow> string" where
  "to_string_Lifecycle LC_submitted = ''submitted''"
| "to_string_Lifecycle LC_admitted = ''admitted''"
| "to_string_Lifecycle LC_queued = ''queued''"
| "to_string_Lifecycle LC_formed = ''formed''"
| "to_string_Lifecycle LC_reserved = ''reserved''"
| "to_string_Lifecycle LC_dispatched = ''dispatched''"
| "to_string_Lifecycle LC_running = ''running''"
| "to_string_Lifecycle LC_awaiting_retry = ''awaiting_retry''"
| "to_string_Lifecycle LC_completed = ''completed''"
| "to_string_Lifecycle LC_failed_non_retryable = ''failed_non_retryable''"
| "to_string_Lifecycle LC_cancelled = ''cancelled''"
| "to_string_Lifecycle LC_expired = ''expired''"
| "to_string_Lifecycle LC_rejected = ''rejected''"
| "to_string_Lifecycle (LC_other _) = ''unknown''"

primrec Lifecycle_code :: "Lifecycle \<Rightarrow> int" where
  "Lifecycle_code LC_submitted = 0"
| "Lifecycle_code LC_admitted = 1"
| "Lifecycle_code LC_queued = 2"
| "Lifecycle_code LC_formed = 3"
| "Lifecycle_code LC_reserved = 4"
| "Lifecycle_code LC_dispatched = 5"
| "Lifecycle_code LC_running = 6"
| "Lifecycle_code LC_awaiting_retry = 7"
| "Lifecycle_code LC_completed = 8"
| "Lifecycle_code LC_failed_non_retryable = 9"
| "Lifecycle_code LC_cancelled = 10"
| "Lifecycle_code LC_expired = 11"
| "Lifecycle_code LC_rejected = 12"
| "Lifecycle_code (LC_other n) = n"

definition Lifecycle_of_code :: "int \<Rightarrow> Lifecycle" where
  "Lifecycle_of_code n =
     (if n = 0 then LC_submitted
      else if n = 1 then LC_admitted
      else if n = 2 then LC_queued
      else if n = 3 then LC_formed
      else if n = 4 then LC_reserved
      else if n = 5 then LC_dispatched
      else if n = 6 then LC_running
      else if n = 7 then LC_awaiting_retry
      else if n = 8 then LC_completed
      else if n = 9 then LC_failed_non_retryable
      else if n = 10 then LC_cancelled
      else if n = 11 then LC_expired
      else if n = 12 then LC_rejected
      else LC_other n)"

primrec Lifecycle_named :: "Lifecycle \<Rightarrow> bool" where
  "Lifecycle_named LC_submitted = True"
| "Lifecycle_named LC_admitted = True"
| "Lifecycle_named LC_queued = True"
| "Lifecycle_named LC_formed = True"
| "Lifecycle_named LC_reserved = True"
| "Lifecycle_named LC_dispatched = True"
| "Lifecycle_named LC_running = True"
| "Lifecycle_named LC_awaiting_retry = True"
| "Lifecycle_named LC_completed = True"
| "Lifecycle_named LC_failed_non_retryable = True"
| "Lifecycle_named LC_cancelled = True"
| "Lifecycle_named LC_expired = True"
| "Lifecycle_named LC_rejected = True"
| "Lifecycle_named (LC_other _) = False"

interpretation lcyc: enum_code Lifecycle_code Lifecycle_of_code Lifecycle_named
proof
  show "Lifecycle_named e \<Longrightarrow> Lifecycle_of_code (Lifecycle_code e) = e" for e
    by (cases e) (simp_all add: Lifecycle_of_code_def)
  show "Lifecycle_code (Lifecycle_of_code n) = n" for n
    by (simp add: Lifecycle_of_code_def)
qed

datatype MemberOutcome =
    MO_success
  | MO_needs_next_chunk
  | MO_retryable_failure
  | MO_non_retryable_failure
  | MO_cancelled
  | MO_expired
  | MO_stale_rejected
  | MO_other int

primrec to_string_MemberOutcome :: "MemberOutcome \<Rightarrow> string" where
  "to_string_MemberOutcome MO_success = ''success''"
| "to_string_MemberOutcome MO_needs_next_chunk = ''needs_next_chunk''"
| "to_string_MemberOutcome MO_retryable_failure = ''retryable_failure''"
| "to_string_MemberOutcome MO_non_retryable_failure = ''non_retryable_failure''"
| "to_string_MemberOutcome MO_cancelled = ''cancelled''"
| "to_string_MemberOutcome MO_expired = ''expired''"
| "to_string_MemberOutcome MO_stale_rejected = ''stale_rejected''"
| "to_string_MemberOutcome (MO_other _) = ''unknown''"

primrec MemberOutcome_code :: "MemberOutcome \<Rightarrow> int" where
  "MemberOutcome_code MO_success = 0"
| "MemberOutcome_code MO_needs_next_chunk = 1"
| "MemberOutcome_code MO_retryable_failure = 2"
| "MemberOutcome_code MO_non_retryable_failure = 3"
| "MemberOutcome_code MO_cancelled = 4"
| "MemberOutcome_code MO_expired = 5"
| "MemberOutcome_code MO_stale_rejected = 6"
| "MemberOutcome_code (MO_other n) = n"

definition MemberOutcome_of_code :: "int \<Rightarrow> MemberOutcome" where
  "MemberOutcome_of_code n =
     (if n = 0 then MO_success
      else if n = 1 then MO_needs_next_chunk
      else if n = 2 then MO_retryable_failure
      else if n = 3 then MO_non_retryable_failure
      else if n = 4 then MO_cancelled
      else if n = 5 then MO_expired
      else if n = 6 then MO_stale_rejected
      else MO_other n)"

primrec MemberOutcome_named :: "MemberOutcome \<Rightarrow> bool" where
  "MemberOutcome_named MO_success = True"
| "MemberOutcome_named MO_needs_next_chunk = True"
| "MemberOutcome_named MO_retryable_failure = True"
| "MemberOutcome_named MO_non_retryable_failure = True"
| "MemberOutcome_named MO_cancelled = True"
| "MemberOutcome_named MO_expired = True"
| "MemberOutcome_named MO_stale_rejected = True"
| "MemberOutcome_named (MO_other _) = False"

interpretation mout: enum_code MemberOutcome_code MemberOutcome_of_code MemberOutcome_named
proof
  show "MemberOutcome_named e \<Longrightarrow> MemberOutcome_of_code (MemberOutcome_code e) = e" for e
    by (cases e) (simp_all add: MemberOutcome_of_code_def)
  show "MemberOutcome_code (MemberOutcome_of_code n) = n" for n
    by (simp add: MemberOutcome_of_code_def)
qed

datatype WorkerState =
    WS_unknown
  | WS_registered
  | WS_ready
  | WS_busy
  | WS_lost
  | WS_retired
  | WS_other int

primrec to_string_WorkerState :: "WorkerState \<Rightarrow> string" where
  "to_string_WorkerState WS_unknown = ''unknown''"
| "to_string_WorkerState WS_registered = ''registered''"
| "to_string_WorkerState WS_ready = ''ready''"
| "to_string_WorkerState WS_busy = ''busy''"
| "to_string_WorkerState WS_lost = ''lost''"
| "to_string_WorkerState WS_retired = ''retired''"
| "to_string_WorkerState (WS_other _) = ''unknown''"

primrec WorkerState_code :: "WorkerState \<Rightarrow> int" where
  "WorkerState_code WS_unknown = 0"
| "WorkerState_code WS_registered = 1"
| "WorkerState_code WS_ready = 2"
| "WorkerState_code WS_busy = 3"
| "WorkerState_code WS_lost = 4"
| "WorkerState_code WS_retired = 5"
| "WorkerState_code (WS_other n) = n"

definition WorkerState_of_code :: "int \<Rightarrow> WorkerState" where
  "WorkerState_of_code n =
     (if n = 0 then WS_unknown
      else if n = 1 then WS_registered
      else if n = 2 then WS_ready
      else if n = 3 then WS_busy
      else if n = 4 then WS_lost
      else if n = 5 then WS_retired
      else WS_other n)"

primrec WorkerState_named :: "WorkerState \<Rightarrow> bool" where
  "WorkerState_named WS_unknown = True"
| "WorkerState_named WS_registered = True"
| "WorkerState_named WS_ready = True"
| "WorkerState_named WS_busy = True"
| "WorkerState_named WS_lost = True"
| "WorkerState_named WS_retired = True"
| "WorkerState_named (WS_other _) = False"

interpretation wstate: enum_code WorkerState_code WorkerState_of_code WorkerState_named
proof
  show "WorkerState_named e \<Longrightarrow> WorkerState_of_code (WorkerState_code e) = e" for e
    by (cases e) (simp_all add: WorkerState_of_code_def)
  show "WorkerState_code (WorkerState_of_code n) = n" for n
    by (simp add: WorkerState_of_code_def)
qed

subsection \<open>Error codes and results\<close>

datatype ErrorCode =
    EC_ok
  | EC_invalid_argument
  | EC_out_of_range
  | EC_not_found
  | EC_already_exists
  | EC_illegal_state
  | EC_precondition_failed
  | EC_capacity_exceeded
  | EC_not_implemented
  | EC_unsupported
  | EC_overflow
  | EC_rejected
  | EC_admission_rejected_terminal
  | EC_deadline_expired
  | EC_deadline_impossible
  | EC_memory_unavailable
  | EC_no_compatible_worker
  | EC_no_capacity
  | EC_backpressure
  | EC_queued_delay_exceeded
  | EC_unknown_request
  | EC_unknown_attempt
  | EC_unknown_tenant
  | EC_unknown_model
  | EC_duplicate_request
  | EC_invalid_reusable_prefix
  | EC_stale_epoch
  | EC_stale_worker
  | EC_stale_attempt
  | EC_stale_generation
  | EC_duplicate_completion
  | EC_terminal_cancelled
  | EC_superseded_retry
  | EC_retryable_failure
  | EC_non_retryable_failure
  | EC_member_failed
  | EC_executor_failure
  | EC_kernel_failure
  | EC_device_failure
  | EC_cuda_unavailable
  | EC_cuda_error
  | EC_corrupt_state
  | EC_checksum_mismatch
  | EC_truncation
  | EC_unknown_version
  | EC_malformed_frame
  | EC_oversized_frame
  | EC_protocol_violation
  | EC_io_failure
  | EC_service_unavailable
  | EC_already_dispatching
  | EC_max_code
  | EC_other int

primrec to_string_ErrorCode :: "ErrorCode \<Rightarrow> string" where
  "to_string_ErrorCode EC_ok = ''ok''"
| "to_string_ErrorCode EC_invalid_argument = ''invalid_argument''"
| "to_string_ErrorCode EC_out_of_range = ''out_of_range''"
| "to_string_ErrorCode EC_not_found = ''not_found''"
| "to_string_ErrorCode EC_already_exists = ''already_exists''"
| "to_string_ErrorCode EC_illegal_state = ''illegal_state''"
| "to_string_ErrorCode EC_precondition_failed = ''precondition_failed''"
| "to_string_ErrorCode EC_capacity_exceeded = ''capacity_exceeded''"
| "to_string_ErrorCode EC_not_implemented = ''not_implemented''"
| "to_string_ErrorCode EC_unsupported = ''unsupported''"
| "to_string_ErrorCode EC_overflow = ''overflow''"
| "to_string_ErrorCode EC_rejected = ''rejected''"
| "to_string_ErrorCode EC_admission_rejected_terminal = ''admission_rejected_terminal''"
| "to_string_ErrorCode EC_deadline_expired = ''deadline_expired''"
| "to_string_ErrorCode EC_deadline_impossible = ''deadline_impossible''"
| "to_string_ErrorCode EC_memory_unavailable = ''memory_unavailable''"
| "to_string_ErrorCode EC_no_compatible_worker = ''no_compatible_worker''"
| "to_string_ErrorCode EC_no_capacity = ''no_capacity''"
| "to_string_ErrorCode EC_backpressure = ''backpressure''"
| "to_string_ErrorCode EC_queued_delay_exceeded = ''queued_delay_exceeded''"
| "to_string_ErrorCode EC_unknown_request = ''unknown_request''"
| "to_string_ErrorCode EC_unknown_attempt = ''unknown_attempt''"
| "to_string_ErrorCode EC_unknown_tenant = ''unknown_tenant''"
| "to_string_ErrorCode EC_unknown_model = ''unknown_model''"
| "to_string_ErrorCode EC_duplicate_request = ''duplicate_request''"
| "to_string_ErrorCode EC_invalid_reusable_prefix = ''invalid_reusable_prefix''"
| "to_string_ErrorCode EC_stale_epoch = ''stale_epoch''"
| "to_string_ErrorCode EC_stale_worker = ''stale_worker''"
| "to_string_ErrorCode EC_stale_attempt = ''stale_attempt''"
| "to_string_ErrorCode EC_stale_generation = ''stale_generation''"
| "to_string_ErrorCode EC_duplicate_completion = ''duplicate_completion''"
| "to_string_ErrorCode EC_terminal_cancelled = ''terminal_cancelled''"
| "to_string_ErrorCode EC_superseded_retry = ''superseded_retry''"
| "to_string_ErrorCode EC_retryable_failure = ''retryable_failure''"
| "to_string_ErrorCode EC_non_retryable_failure = ''non_retryable_failure''"
| "to_string_ErrorCode EC_member_failed = ''member_failed''"
| "to_string_ErrorCode EC_executor_failure = ''executor_failure''"
| "to_string_ErrorCode EC_kernel_failure = ''kernel_failure''"
| "to_string_ErrorCode EC_device_failure = ''device_failure''"
| "to_string_ErrorCode EC_cuda_unavailable = ''cuda_unavailable''"
| "to_string_ErrorCode EC_cuda_error = ''cuda_error''"
| "to_string_ErrorCode EC_corrupt_state = ''corrupt_state''"
| "to_string_ErrorCode EC_checksum_mismatch = ''checksum_mismatch''"
| "to_string_ErrorCode EC_truncation = ''truncation''"
| "to_string_ErrorCode EC_unknown_version = ''unknown_version''"
| "to_string_ErrorCode EC_malformed_frame = ''malformed_frame''"
| "to_string_ErrorCode EC_oversized_frame = ''oversized_frame''"
| "to_string_ErrorCode EC_protocol_violation = ''protocol_violation''"
| "to_string_ErrorCode EC_io_failure = ''io_failure''"
| "to_string_ErrorCode EC_service_unavailable = ''service_unavailable''"
| "to_string_ErrorCode EC_already_dispatching = ''already_dispatching''"
| "to_string_ErrorCode EC_max_code = ''unknown_error''"
| "to_string_ErrorCode (EC_other _) = ''unknown_error''"

primrec ErrorCode_code :: "ErrorCode \<Rightarrow> int" where
  "ErrorCode_code EC_ok = 0"
| "ErrorCode_code EC_invalid_argument = 100"
| "ErrorCode_code EC_out_of_range = 101"
| "ErrorCode_code EC_not_found = 102"
| "ErrorCode_code EC_already_exists = 103"
| "ErrorCode_code EC_illegal_state = 104"
| "ErrorCode_code EC_precondition_failed = 105"
| "ErrorCode_code EC_capacity_exceeded = 106"
| "ErrorCode_code EC_not_implemented = 107"
| "ErrorCode_code EC_unsupported = 108"
| "ErrorCode_code EC_overflow = 109"
| "ErrorCode_code EC_rejected = 200"
| "ErrorCode_code EC_admission_rejected_terminal = 201"
| "ErrorCode_code EC_deadline_expired = 202"
| "ErrorCode_code EC_deadline_impossible = 203"
| "ErrorCode_code EC_memory_unavailable = 204"
| "ErrorCode_code EC_no_compatible_worker = 205"
| "ErrorCode_code EC_no_capacity = 206"
| "ErrorCode_code EC_backpressure = 207"
| "ErrorCode_code EC_queued_delay_exceeded = 208"
| "ErrorCode_code EC_unknown_request = 300"
| "ErrorCode_code EC_unknown_attempt = 301"
| "ErrorCode_code EC_unknown_tenant = 302"
| "ErrorCode_code EC_unknown_model = 303"
| "ErrorCode_code EC_duplicate_request = 304"
| "ErrorCode_code EC_invalid_reusable_prefix = 305"
| "ErrorCode_code EC_stale_epoch = 306"
| "ErrorCode_code EC_stale_worker = 307"
| "ErrorCode_code EC_stale_attempt = 308"
| "ErrorCode_code EC_stale_generation = 309"
| "ErrorCode_code EC_duplicate_completion = 310"
| "ErrorCode_code EC_terminal_cancelled = 311"
| "ErrorCode_code EC_superseded_retry = 312"
| "ErrorCode_code EC_retryable_failure = 400"
| "ErrorCode_code EC_non_retryable_failure = 401"
| "ErrorCode_code EC_member_failed = 402"
| "ErrorCode_code EC_executor_failure = 403"
| "ErrorCode_code EC_kernel_failure = 404"
| "ErrorCode_code EC_device_failure = 405"
| "ErrorCode_code EC_cuda_unavailable = 406"
| "ErrorCode_code EC_cuda_error = 407"
| "ErrorCode_code EC_corrupt_state = 500"
| "ErrorCode_code EC_checksum_mismatch = 501"
| "ErrorCode_code EC_truncation = 502"
| "ErrorCode_code EC_unknown_version = 503"
| "ErrorCode_code EC_malformed_frame = 504"
| "ErrorCode_code EC_oversized_frame = 505"
| "ErrorCode_code EC_protocol_violation = 506"
| "ErrorCode_code EC_io_failure = 507"
| "ErrorCode_code EC_service_unavailable = 600"
| "ErrorCode_code EC_already_dispatching = 601"
| "ErrorCode_code EC_max_code = 700"
| "ErrorCode_code (EC_other n) = n"

definition ErrorCode_of_code :: "int \<Rightarrow> ErrorCode" where
  "ErrorCode_of_code n =
     (if n = 0 then EC_ok
      else if n = 100 then EC_invalid_argument
      else if n = 101 then EC_out_of_range
      else if n = 102 then EC_not_found
      else if n = 103 then EC_already_exists
      else if n = 104 then EC_illegal_state
      else if n = 105 then EC_precondition_failed
      else if n = 106 then EC_capacity_exceeded
      else if n = 107 then EC_not_implemented
      else if n = 108 then EC_unsupported
      else if n = 109 then EC_overflow
      else if n = 200 then EC_rejected
      else if n = 201 then EC_admission_rejected_terminal
      else if n = 202 then EC_deadline_expired
      else if n = 203 then EC_deadline_impossible
      else if n = 204 then EC_memory_unavailable
      else if n = 205 then EC_no_compatible_worker
      else if n = 206 then EC_no_capacity
      else if n = 207 then EC_backpressure
      else if n = 208 then EC_queued_delay_exceeded
      else if n = 300 then EC_unknown_request
      else if n = 301 then EC_unknown_attempt
      else if n = 302 then EC_unknown_tenant
      else if n = 303 then EC_unknown_model
      else if n = 304 then EC_duplicate_request
      else if n = 305 then EC_invalid_reusable_prefix
      else if n = 306 then EC_stale_epoch
      else if n = 307 then EC_stale_worker
      else if n = 308 then EC_stale_attempt
      else if n = 309 then EC_stale_generation
      else if n = 310 then EC_duplicate_completion
      else if n = 311 then EC_terminal_cancelled
      else if n = 312 then EC_superseded_retry
      else if n = 400 then EC_retryable_failure
      else if n = 401 then EC_non_retryable_failure
      else if n = 402 then EC_member_failed
      else if n = 403 then EC_executor_failure
      else if n = 404 then EC_kernel_failure
      else if n = 405 then EC_device_failure
      else if n = 406 then EC_cuda_unavailable
      else if n = 407 then EC_cuda_error
      else if n = 500 then EC_corrupt_state
      else if n = 501 then EC_checksum_mismatch
      else if n = 502 then EC_truncation
      else if n = 503 then EC_unknown_version
      else if n = 504 then EC_malformed_frame
      else if n = 505 then EC_oversized_frame
      else if n = 506 then EC_protocol_violation
      else if n = 507 then EC_io_failure
      else if n = 600 then EC_service_unavailable
      else if n = 601 then EC_already_dispatching
      else if n = 700 then EC_max_code
      else EC_other n)"

primrec ErrorCode_named :: "ErrorCode \<Rightarrow> bool" where
  "ErrorCode_named EC_ok = True"
| "ErrorCode_named EC_invalid_argument = True"
| "ErrorCode_named EC_out_of_range = True"
| "ErrorCode_named EC_not_found = True"
| "ErrorCode_named EC_already_exists = True"
| "ErrorCode_named EC_illegal_state = True"
| "ErrorCode_named EC_precondition_failed = True"
| "ErrorCode_named EC_capacity_exceeded = True"
| "ErrorCode_named EC_not_implemented = True"
| "ErrorCode_named EC_unsupported = True"
| "ErrorCode_named EC_overflow = True"
| "ErrorCode_named EC_rejected = True"
| "ErrorCode_named EC_admission_rejected_terminal = True"
| "ErrorCode_named EC_deadline_expired = True"
| "ErrorCode_named EC_deadline_impossible = True"
| "ErrorCode_named EC_memory_unavailable = True"
| "ErrorCode_named EC_no_compatible_worker = True"
| "ErrorCode_named EC_no_capacity = True"
| "ErrorCode_named EC_backpressure = True"
| "ErrorCode_named EC_queued_delay_exceeded = True"
| "ErrorCode_named EC_unknown_request = True"
| "ErrorCode_named EC_unknown_attempt = True"
| "ErrorCode_named EC_unknown_tenant = True"
| "ErrorCode_named EC_unknown_model = True"
| "ErrorCode_named EC_duplicate_request = True"
| "ErrorCode_named EC_invalid_reusable_prefix = True"
| "ErrorCode_named EC_stale_epoch = True"
| "ErrorCode_named EC_stale_worker = True"
| "ErrorCode_named EC_stale_attempt = True"
| "ErrorCode_named EC_stale_generation = True"
| "ErrorCode_named EC_duplicate_completion = True"
| "ErrorCode_named EC_terminal_cancelled = True"
| "ErrorCode_named EC_superseded_retry = True"
| "ErrorCode_named EC_retryable_failure = True"
| "ErrorCode_named EC_non_retryable_failure = True"
| "ErrorCode_named EC_member_failed = True"
| "ErrorCode_named EC_executor_failure = True"
| "ErrorCode_named EC_kernel_failure = True"
| "ErrorCode_named EC_device_failure = True"
| "ErrorCode_named EC_cuda_unavailable = True"
| "ErrorCode_named EC_cuda_error = True"
| "ErrorCode_named EC_corrupt_state = True"
| "ErrorCode_named EC_checksum_mismatch = True"
| "ErrorCode_named EC_truncation = True"
| "ErrorCode_named EC_unknown_version = True"
| "ErrorCode_named EC_malformed_frame = True"
| "ErrorCode_named EC_oversized_frame = True"
| "ErrorCode_named EC_protocol_violation = True"
| "ErrorCode_named EC_io_failure = True"
| "ErrorCode_named EC_service_unavailable = True"
| "ErrorCode_named EC_already_dispatching = True"
| "ErrorCode_named EC_max_code = True"
| "ErrorCode_named (EC_other _) = False"

interpretation ecode: enum_code ErrorCode_code ErrorCode_of_code ErrorCode_named
proof
  show "ErrorCode_named e \<Longrightarrow> ErrorCode_of_code (ErrorCode_code e) = e" for e
    by (cases e) (simp_all add: ErrorCode_of_code_def)
  show "ErrorCode_code (ErrorCode_of_code n) = n" for n
    by (simp add: ErrorCode_of_code_def)
qed

record ErrorInfo =
  err_code :: ErrorCode
  err_message :: string

definition mk_error :: "ErrorCode \<Rightarrow> string \<Rightarrow> ErrorInfo" where
  "mk_error c m = \<lparr>err_code = c, err_message = m\<rparr>"

text \<open>\<^verbatim>\<open>Result<T>\<close>: \<^term>\<open>Inl\<close> an error, \<^term>\<open>Inr\<close> a value.\<close>
type_synonym 'a Result = "ErrorInfo + 'a"

definition res_err :: "ErrorCode \<Rightarrow> string \<Rightarrow> 'a Result" where
  "res_err c m = Inl (mk_error c m)"

definition res_ok :: "'a \<Rightarrow> 'a Result" where
  "res_ok v = Inr v"

definition is_ok :: "'a Result \<Rightarrow> bool" where
  "is_ok r = (case r of Inl _ \<Rightarrow> False | Inr _ \<Rightarrow> True)"

text \<open>The code of a result: \<^term>\<open>EC_ok\<close> exactly for a value.\<close>
definition res_code :: "'a Result \<Rightarrow> ErrorCode" where
  "res_code r = (case r of Inl e \<Rightarrow> err_code e | Inr _ \<Rightarrow> EC_ok)"

lemma mk_error_sel [simp]: "err_code (mk_error c m) = c" "err_message (mk_error c m) = m"
  by (simp_all add: mk_error_def)

lemma is_ok_simps [simp]: "is_ok (res_ok v)" "\<not> is_ok (res_err c m)" "is_ok (Inr v)" "\<not> is_ok (Inl e)"
  by (simp_all add: is_ok_def res_ok_def res_err_def)

lemma res_code_simps [simp]: "res_code (res_ok v) = EC_ok" "res_code (res_err c m) = c"
  by (simp_all add: res_code_def res_ok_def res_err_def)

lemma res_case [simp]: "case_sum f g (res_ok v) = g v" "case_sum f g (res_err c m) = f (mk_error c m)"
  by (simp_all add: res_ok_def res_err_def)

lemma res_eq_simps [simp]: "res_ok a = res_ok b \<longleftrightarrow> a = b" "res_err c m \<noteq> res_ok v" "res_ok v \<noteq> res_err c m"
  by (auto simp: res_ok_def res_err_def)

end
