(* ===== verification/PF_Float.thy ===== *)
theory PF_Float
  imports Complex_Main PF_Prelude "HOL-Library.Log_Nat"
begin

text \<open>
  Floating point as the sources use it. A \<^verbatim>\<open>double\<close> is its 64-bit pattern (binary64,
  round to nearest, ties to even), so that copying it through the byte codecs is the
  identity and comparisons see NaN, infinities and signed zeros. A \<^verbatim>\<open>long double\<close> is
  used by the chunk planner only, for products and quotients of 64-bit integers; its
  precision depends on the platform (53 bits on MSVC, 64 on x86 with GCC or Clang), so
  it is a parameter, and its exponent range is never left by such operands.

  Converting a floating point value to \<^verbatim>\<open>std::uint64_t\<close> truncates; a value outside the
  range of the type has no defined result in C++, and the model returns what the
  platform parameter says, so a theorem holds whatever the platform does there.
\<close>

type_synonym f64 = "64 word"

record platform =
  ld_prec :: nat
  ld_cast_oob :: "rat \<Rightarrow> u64"
  f64_cast_oob :: "f64 \<Rightarrow> u64"

subsection \<open>Rounding\<close>

definition pow2 :: "int \<Rightarrow> rat" where
  "pow2 e = (if 0 \<le> e then 2 ^ nat e else 1 / 2 ^ nat (- e))"

definition flog2 :: "rat \<Rightarrow> int" where
  "flog2 q =
     (let (a, b) = quotient_of q;
          e = int (floorlog 2 (nat a)) - int (floorlog 2 (nat b))
      in if pow2 e \<le> q then e else e - 1)"

definition round_half_even :: "rat \<Rightarrow> int" where
  "round_half_even q =
     (let f = \<lfloor>q\<rfloor>; d = q - of_int f
      in if d < 1 / 2 then f else if 1 / 2 < d then f + 1 else if even f then f else f + 1)"

definition ld_round :: "nat \<Rightarrow> rat \<Rightarrow> rat" where
  "ld_round p q =
     (if q \<le> 0 then 0
      else let u = pow2 (flog2 q - int p + 1) in of_int (round_half_even (q / u)) * u)"

definition f64_of_rat :: "rat \<Rightarrow> f64" where
  "f64_of_rat q =
     (if q = 0 then 0
      else let a = \<bar>q\<bar>;
               e = max (flog2 a) (-1022);
               m = round_half_even (a / pow2 (e - 52));
               bits = (e + 1022) * 2 ^ 52 + m;
               mag = min bits (2047 * 2 ^ 52)
           in word_of_int (if q < 0 then mag + 2 ^ 63 else mag))"

subsection \<open>Long double arithmetic on unsigned integers\<close>

definition ld_of_u64 :: "platform \<Rightarrow> u64 \<Rightarrow> rat" where
  "ld_of_u64 pf w = ld_round (ld_prec pf) (of_nat (unat w))"

definition ld_div :: "platform \<Rightarrow> rat \<Rightarrow> rat \<Rightarrow> rat" where
  "ld_div pf a b = ld_round (ld_prec pf) (a / b)"

definition ld_mul :: "platform \<Rightarrow> rat \<Rightarrow> rat \<Rightarrow> rat" where
  "ld_mul pf a b = ld_round (ld_prec pf) (a * b)"

definition ld_to_u64 :: "platform \<Rightarrow> rat \<Rightarrow> u64" where
  "ld_to_u64 pf q = (if 0 \<le> q \<and> q < 2 ^ 64 then word_of_int \<lfloor>q\<rfloor> else ld_cast_oob pf q)"

subsection \<open>Double precision\<close>

definition f64_sign :: "f64 \<Rightarrow> bool" where
  "f64_sign x = bit x 63"

definition f64_exp :: "f64 \<Rightarrow> int" where
  "f64_exp x = uint (take_bit 11 (drop_bit 52 x))"

definition f64_man :: "f64 \<Rightarrow> int" where
  "f64_man x = uint (take_bit 52 x)"

definition f64_is_nan :: "f64 \<Rightarrow> bool" where
  "f64_is_nan x = (f64_exp x = 2047 \<and> f64_man x \<noteq> 0)"

definition f64_is_inf :: "f64 \<Rightarrow> bool" where
  "f64_is_inf x = (f64_exp x = 2047 \<and> f64_man x = 0)"

text \<open>The value of a finite pattern.\<close>
definition f64_val :: "f64 \<Rightarrow> rat" where
  "f64_val x =
     (let v = (if f64_exp x = 0 then of_int (f64_man x) * pow2 (-1074)
               else of_int (2 ^ 52 + f64_man x) * pow2 (f64_exp x - 1075))
      in if f64_sign x then - v else v)"

definition f64_zero :: f64 where "f64_zero = 0"
definition f64_one :: f64 where "f64_one = 0x3FF0000000000000"
definition f64_nan :: f64 where "f64_nan = 0x7FF8000000000000"

definition f64_inf :: "bool \<Rightarrow> f64" where
  "f64_inf neg = (if neg then 0xFFF0000000000000 else 0x7FF0000000000000)"

definition f64_signed_zero :: "bool \<Rightarrow> f64" where
  "f64_signed_zero neg = (if neg then 0x8000000000000000 else 0)"

text \<open>Position of a pattern that is not NaN in the numeric order: infinities outside, values inside.\<close>
definition f64_rank :: "f64 \<Rightarrow> int \<times> rat" where
  "f64_rank x =
     (if f64_is_inf x then (if f64_sign x then (-1, 0) else (1, 0)) else (0, f64_val x))"

definition f64_lt :: "f64 \<Rightarrow> f64 \<Rightarrow> bool" where
  "f64_lt a b =
     (\<not> f64_is_nan a \<and> \<not> f64_is_nan b \<and>
      (fst (f64_rank a) < fst (f64_rank b) \<or>
       fst (f64_rank a) = fst (f64_rank b) \<and> snd (f64_rank a) < snd (f64_rank b)))"

definition f64_eq :: "f64 \<Rightarrow> f64 \<Rightarrow> bool" where
  "f64_eq a b = (\<not> f64_is_nan a \<and> \<not> f64_is_nan b \<and> f64_rank a = f64_rank b)"

definition f64_le :: "f64 \<Rightarrow> f64 \<Rightarrow> bool" where
  "f64_le a b = (f64_lt a b \<or> f64_eq a b)"

definition f64_of_u64 :: "u64 \<Rightarrow> f64" where
  "f64_of_u64 w = f64_of_rat (of_nat (unat w))"

definition f64_add :: "f64 \<Rightarrow> f64 \<Rightarrow> f64" where
  "f64_add a b =
     (if f64_is_nan a \<or> f64_is_nan b then f64_nan
      else if f64_is_inf a then (if f64_is_inf b \<and> f64_sign a \<noteq> f64_sign b then f64_nan else a)
      else if f64_is_inf b then b
      else let q = f64_val a + f64_val b
           in if q = 0 then f64_signed_zero (f64_sign a \<and> f64_sign b) else f64_of_rat q)"

definition f64_mul :: "f64 \<Rightarrow> f64 \<Rightarrow> f64" where
  "f64_mul a b =
     (let neg = (f64_sign a \<noteq> f64_sign b)
      in if f64_is_nan a \<or> f64_is_nan b then f64_nan
         else if f64_is_inf a \<or> f64_is_inf b
         then (if f64_rank a = (0, 0) \<or> f64_rank b = (0, 0) then f64_nan else f64_inf neg)
         else let q = f64_val a * f64_val b
              in if q = 0 then f64_signed_zero neg else f64_of_rat q)"

definition f64_div :: "f64 \<Rightarrow> f64 \<Rightarrow> f64" where
  "f64_div a b =
     (let neg = (f64_sign a \<noteq> f64_sign b)
      in if f64_is_nan a \<or> f64_is_nan b then f64_nan
         else if f64_is_inf a then (if f64_is_inf b then f64_nan else f64_inf neg)
         else if f64_is_inf b then f64_signed_zero neg
         else if f64_val b = 0 then (if f64_val a = 0 then f64_nan else f64_inf neg)
         else if f64_val a = 0 then f64_signed_zero neg
         else f64_of_rat (f64_val a / f64_val b))"

definition f64_to_u64 :: "platform \<Rightarrow> f64 \<Rightarrow> u64" where
  "f64_to_u64 pf x =
     (if \<not> f64_is_nan x \<and> \<not> f64_is_inf x \<and> -1 < f64_val x \<and> f64_val x < 2 ^ 64
      then word_of_int (if 0 \<le> f64_val x then \<lfloor>f64_val x\<rfloor> else 0)
      else f64_cast_oob pf x)"

subsection \<open>The numeric order\<close>

lemma f64_lt_irrefl [simp]: "\<not> f64_lt a a"
  by (simp add: f64_lt_def)

lemma f64_lt_trans: "f64_lt a b \<Longrightarrow> f64_lt b c \<Longrightarrow> f64_lt a c"
  by (auto simp: f64_lt_def)

lemma f64_lt_total:
  "\<not> f64_is_nan a \<Longrightarrow> \<not> f64_is_nan b \<Longrightarrow> \<not> f64_eq a b \<Longrightarrow> f64_lt a b \<or> f64_lt b a"
  by (auto simp: f64_lt_def f64_eq_def prod_eq_iff)

lemma f64_lt_eq_trans: "f64_lt a b \<Longrightarrow> f64_eq b c \<Longrightarrow> f64_lt a c"
  by (simp add: f64_lt_def f64_eq_def)

lemma f64_eq_lt_trans: "f64_eq a b \<Longrightarrow> f64_lt b c \<Longrightarrow> f64_lt a c"
  by (simp add: f64_lt_def f64_eq_def)

lemma f64_eq_refl: "\<not> f64_is_nan a \<Longrightarrow> f64_eq a a"
  by (simp add: f64_eq_def)

lemma f64_eq_sym: "f64_eq a b \<Longrightarrow> f64_eq b a"
  by (simp add: f64_eq_def)

lemma f64_eq_trans: "f64_eq a b \<Longrightarrow> f64_eq b c \<Longrightarrow> f64_eq a c"
  by (simp add: f64_eq_def)

lemma f64_lt_not_eq: "f64_lt a b \<Longrightarrow> \<not> f64_eq a b"
  by (auto simp: f64_lt_def f64_eq_def)

subsection \<open>Constants\<close>

lemma f64_fields_zero [simp]: "f64_exp 0 = 0" "f64_man 0 = 0" "\<not> f64_sign 0"
  by (simp_all add: f64_exp_def f64_man_def f64_sign_def)

lemma f64_fields_one [simp]: "f64_exp f64_one = 1023" "f64_man f64_one = 0" "\<not> f64_sign f64_one"
  by (simp_all add: f64_exp_def f64_man_def f64_sign_def f64_one_def)

lemma f64_val_zero [simp]: "f64_val 0 = 0"
  by (simp add: f64_val_def)

lemma f64_val_one [simp]: "f64_val f64_one = 1"
  by (simp add: f64_val_def pow2_def)

lemma f64_class_consts [simp]:
  "\<not> f64_is_nan 0" "\<not> f64_is_inf 0" "\<not> f64_is_nan f64_one" "\<not> f64_is_inf f64_one"
  by (simp_all add: f64_is_nan_def f64_is_inf_def)

lemma f64_rank_consts [simp]: "f64_rank 0 = (0, 0)" "f64_rank f64_one = (0, 1)"
  by (simp_all add: f64_rank_def)

lemma f64_one_positive [simp]: "f64_lt f64_zero f64_one" "\<not> f64_eq f64_one f64_zero" "\<not> f64_le f64_one f64_zero"
  by (simp_all add: f64_zero_def f64_lt_def f64_eq_def f64_le_def)

lemma f64_zero_div_one [simp]: "f64_div f64_zero f64_one = f64_zero"
  by (simp add: f64_div_def f64_zero_def f64_signed_zero_def)

end
