(* ===== verification/PF_Request.thy ===== *)
theory PF_Request
  imports PF_Types PF_Float
begin

text \<open>
  \<^verbatim>\<open>request.hpp\<close> and \<^verbatim>\<open>policy.hpp\<close>: the prefill request with its reusable-prefix
  metadata, chunks and plans, request and chunk validation, and the scheduler
  configuration. Field names carry a prefix per struct (\<open>ch_\<close> for a chunk, \<open>pl_\<close> for a
  plan, \<open>cf_\<close> for the configuration), since record fields share one name space.
\<close>

subsection \<open>Requests\<close>

record ReusablePrefixMetadata =
  prefix_token_count :: u64
  prefix_fingerprint :: string
  prefix_validated :: bool

record InputShape =
  seq_len :: u64
  hidden_dim :: u64
  num_heads :: u64
  head_dim :: u64

record PrefillRequest =
  request_id :: RequestId
  tenant_id :: TenantId
  req_model :: ModelKey
  adapter_id :: AdapterId
  adapter_relation :: AdapterRelation
  req_vocab :: VocabSpec
  prompt_token_count :: u64
  reusable_prefix :: ReusablePrefixMetadata
  input_shape :: InputShape
  input_layout :: InputLayout
  numeric_mode :: NumericMode
  req_backend :: string
  req_device :: DeviceId
  device_match :: string
  latency_class :: LatencyClass
  deadline :: "Nanoseconds option"
  priority :: int
  tenant_weight :: f64
  arrival_time :: Nanoseconds
  max_queue_delay :: "Nanoseconds option"
  memory_estimate_bytes :: u64
  compute_estimate :: u64
  max_retries :: int
  requester :: string

text \<open>The member initialisers of the struct.\<close>
definition default_request :: PrefillRequest where
  "default_request = \<lparr>
     request_id = nil_id, tenant_id = nil_id,
     req_model = \<lparr>model_name = '''', model_revision = ''''\<rparr>,
     adapter_id = nil_id, adapter_relation = AR_none,
     req_vocab = \<lparr>tokenizer = '''', vocab_size = 0\<rparr>,
     prompt_token_count = 0,
     reusable_prefix = \<lparr>prefix_token_count = 0, prefix_fingerprint = '''', prefix_validated = False\<rparr>,
     input_shape = \<lparr>seq_len = 0, hidden_dim = 0, num_heads = 0, head_dim = 0\<rparr>,
     input_layout = IL_seq_major, numeric_mode = NM_fp32,
     req_backend = kBackendAny, req_device = nil_id, device_match = '''',
     latency_class = LAT_standard, deadline = None, priority = 0,
     tenant_weight = f64_one, arrival_time = 0, max_queue_delay = None,
     memory_estimate_bytes = 0, compute_estimate = 0, max_retries = 2, requester = ''''\<rparr>"

definition remaining_prefill_tokens :: "PrefillRequest \<Rightarrow> u64" where
  "remaining_prefill_tokens r =
     (if prompt_token_count r \<le> prefix_token_count (reusable_prefix r) then 0
      else prompt_token_count r - prefix_token_count (reusable_prefix r))"

definition has_valid_reusable_prefix :: "PrefillRequest \<Rightarrow> bool" where
  "has_valid_reusable_prefix r =
     (prefix_validated (reusable_prefix r) \<and> 0 < prefix_token_count (reusable_prefix r))"

definition validate_request :: "PrefillRequest \<Rightarrow> ErrorInfo" where
  "validate_request r =
     (if is_nil (request_id r) then mk_error EC_invalid_argument ''request_id is nil''
      else if is_nil (tenant_id r) then mk_error EC_invalid_argument ''tenant_id is nil''
      else if prompt_token_count r = 0
      then mk_error EC_invalid_argument ''prompt_token_count must be > 0''
      else if prompt_token_count r < prefix_token_count (reusable_prefix r)
      then mk_error EC_invalid_reusable_prefix ''reusable prefix exceeds prompt length''
      else if prefix_validated (reusable_prefix r) \<and> prefix_token_count (reusable_prefix r) = 0
      then mk_error EC_invalid_reusable_prefix ''validated reusable prefix has zero tokens''
      else if f64_le (tenant_weight r) f64_zero
      then mk_error EC_invalid_argument ''tenant_weight must be > 0''
      else if max_retries r < 0 then mk_error EC_invalid_argument ''max_retries must be >= 0''
      else if (case deadline r of None \<Rightarrow> False | Some d \<Rightarrow> d < arrival_time r)
      then mk_error EC_deadline_impossible ''deadline before arrival''
      else if (case max_queue_delay r of None \<Rightarrow> False | Some q \<Rightarrow> q < 0)
      then mk_error EC_invalid_argument ''max_queue_delay must be >= 0''
      else mk_error EC_ok '''')"

text \<open>\<^verbatim>\<open>PrefillRequest::operator==\<close>: equality of the identifying fields only.\<close>
definition request_equal :: "PrefillRequest \<Rightarrow> PrefillRequest \<Rightarrow> bool" where
  "request_equal a b =
     (if request_id a \<noteq> request_id b \<or> tenant_id a \<noteq> tenant_id b \<or> req_model a \<noteq> req_model b then False
      else if prompt_token_count a \<noteq> prompt_token_count b then False
      else if prefix_token_count (reusable_prefix a) \<noteq> prefix_token_count (reusable_prefix b) then False
      else if numeric_mode a \<noteq> numeric_mode b then False
      else True)"

subsection \<open>Chunks and plans\<close>

record PrefillChunk =
  ch_request_id :: RequestId
  ch_attempt_id :: AttemptId
  ch_group_id :: GroupId
  ch_token_start :: u64
  ch_token_count :: u64
  ch_chunk_index :: u32
  ch_generation :: Generation
  ch_parent_generation :: Generation
  ch_work_kind :: WorkKind
  ch_memory_estimate_bytes :: u64
  ch_compute_estimate :: u64
  ch_deadline :: "Nanoseconds option"

definition validate_chunk :: "PrefillChunk \<Rightarrow> PrefillRequest \<Rightarrow> ErrorInfo" where
  "validate_chunk c r =
     (if ch_request_id c \<noteq> request_id r then mk_error EC_invalid_argument ''chunk request_id mismatch''
      else if ch_token_count c = 0 then mk_error EC_invalid_argument ''chunk token_count must be > 0''
      else if remaining_prefill_tokens r < ch_token_start c + ch_token_count c
      then mk_error EC_out_of_range ''chunk exceeds remaining prefill extent''
      else mk_error EC_ok '''')"

record PrefillPlan =
  pl_request :: PrefillRequest
  pl_chunks :: "PrefillChunk list"
  pl_total_chunk_tokens :: u64
  pl_total_chunk_count :: u32

definition covered_tokens :: "PrefillPlan \<Rightarrow> u64" where
  "covered_tokens p = remaining_prefill_tokens (pl_request p)"

subsection \<open>Configuration\<close>

record SchedulerConfig =
  cf_max_tokens_per_chunk :: u64
  cf_max_work_per_chunk :: u64
  cf_max_memory_per_chunk :: u64
  cf_max_prefill_budget_per_cycle :: u64
  cf_preemption_enabled :: bool
  cf_max_requests_per_group :: u32
  cf_max_tokens_per_group :: u64
  cf_max_compute_per_group :: u64
  cf_max_memory_per_group :: u64
  cf_max_pack_wait_ns :: Nanoseconds
  cf_min_preferred_occupancy :: u32
  cf_gather_for_occupancy :: bool
  cf_device_memory_bytes :: u64
  cf_memory_headroom_bytes :: u64
  cf_memory_headroom_fraction :: f64
  cf_enforce_memory_headroom :: bool
  cf_max_admitted_requests :: u64
  cf_per_tenant_outstanding_limit :: u64
  cf_per_tenant_admitted_token_limit :: u64
  cf_max_queued_requests :: u64
  cf_reject_on_memory_pressure :: bool
  cf_aging_rate :: f64
  cf_service_by_tokens :: bool
  cf_fairness_quantum :: f64
  cf_deadline_slack_ns :: Nanoseconds
  cf_drop_expired :: bool
  cf_default_max_retries :: int
  cf_deterministic_tie_break :: bool
  cf_track_service_accounting :: bool

text \<open>The initialisers of the struct: \<^verbatim>\<open>0.05\<close> and \<^verbatim>\<open>0.001\<close> as the nearest doubles.\<close>
definition default_config :: SchedulerConfig where
  "default_config = \<lparr>
     cf_max_tokens_per_chunk = 4096,
     cf_max_work_per_chunk = 2 ^ 40,
     cf_max_memory_per_chunk = 512 * 2 ^ 20,
     cf_max_prefill_budget_per_cycle = 2 ^ 40,
     cf_preemption_enabled = True,
     cf_max_requests_per_group = 16,
     cf_max_tokens_per_group = 8192,
     cf_max_compute_per_group = 2 ^ 42,
     cf_max_memory_per_group = 2 ^ 30,
     cf_max_pack_wait_ns = 4000000,
     cf_min_preferred_occupancy = 1,
     cf_gather_for_occupancy = True,
     cf_device_memory_bytes = 8 * 2 ^ 30,
     cf_memory_headroom_bytes = 256 * 2 ^ 20,
     cf_memory_headroom_fraction = 0x3FA999999999999A,
     cf_enforce_memory_headroom = True,
     cf_max_admitted_requests = 100000,
     cf_per_tenant_outstanding_limit = 10000,
     cf_per_tenant_admitted_token_limit = 2 ^ 34,
     cf_max_queued_requests = 100000,
     cf_reject_on_memory_pressure = True,
     cf_aging_rate = 0x3F50624DD2F1A9FC,
     cf_service_by_tokens = True,
     cf_fairness_quantum = f64_one,
     cf_deadline_slack_ns = 1000000,
     cf_drop_expired = True,
     cf_default_max_retries = 2,
     cf_deterministic_tie_break = True,
     cf_track_service_accounting = True\<rparr>"

definition usable_memory_bytes :: "platform \<Rightarrow> SchedulerConfig \<Rightarrow> u64" where
  "usable_memory_bytes pf c =
     (let frac = f64_to_u64 pf (f64_mul (f64_of_u64 (cf_device_memory_bytes c)) (cf_memory_headroom_fraction c));
          headroom = (if cf_memory_headroom_bytes c < frac then frac else cf_memory_headroom_bytes c)
      in if headroom < cf_device_memory_bytes c then cf_device_memory_bytes c - headroom else 0)"

subsection \<open>Facts about validated requests\<close>

lemma remaining_le_prompt: "remaining_prefill_tokens r \<le> prompt_token_count r"
  by (auto simp: remaining_prefill_tokens_def word_le_nat_alt unat_sub split: if_splits)

lemma validate_request_ok_iff:
  "err_code (validate_request r) = EC_ok \<longleftrightarrow>
     request_id r \<noteq> nil_id \<and> tenant_id r \<noteq> nil_id \<and> prompt_token_count r \<noteq> 0 \<and>
     prefix_token_count (reusable_prefix r) \<le> prompt_token_count r \<and>
     (prefix_validated (reusable_prefix r) \<longrightarrow> prefix_token_count (reusable_prefix r) \<noteq> 0) \<and>
     \<not> f64_le (tenant_weight r) f64_zero \<and> 0 \<le> max_retries r \<and>
     (\<forall>d. deadline r = Some d \<longrightarrow> arrival_time r \<le> d) \<and>
     (\<forall>q. max_queue_delay r = Some q \<longrightarrow> 0 \<le> q)"
  by (auto simp: validate_request_def not_less split: option.splits)

text \<open>For a validated request the remaining work and the reusable prefix add up to the prompt.\<close>
lemma remaining_plus_prefix:
  assumes "err_code (validate_request r) = EC_ok"
  shows "unat (remaining_prefill_tokens r) + unat (prefix_token_count (reusable_prefix r))
       = unat (prompt_token_count r)"
proof -
  have "prefix_token_count (reusable_prefix r) \<le> prompt_token_count r"
    using assms by (simp add: validate_request_ok_iff)
  then show ?thesis
    by (auto simp: remaining_prefill_tokens_def unat_sub word_le_nat_alt)
qed

end
