(* ===== verification/PF_Chunking.thy ===== *)
theory PF_Chunking
  imports PF_Request
begin

text \<open>
  \<^verbatim>\<open>chunking.cpp\<close>: the deterministic chunk planner. \<open>effective_chunk_token_count\<close> sizes
  the chunks of a request and \<open>plan\<close> cuts the remaining prefill into them.
\<close>

subsection \<open>Sizing\<close>

text \<open>\<^verbatim>\<open>static_cast<uint64_t>(long double(limit) / long double(estimate) * long double(remaining))\<close>\<close>
definition scaled_limit :: "platform \<Rightarrow> u64 \<Rightarrow> u64 \<Rightarrow> u64 \<Rightarrow> u64" where
  "scaled_limit pf limit estimate remaining =
     ld_to_u64 pf (ld_mul pf (ld_div pf (ld_of_u64 pf limit) (ld_of_u64 pf estimate)) (ld_of_u64 pf remaining))"

text \<open>One bound of the chunk size: the same code for the compute and for the memory estimate.\<close>
definition bound_chunk :: "platform \<Rightarrow> u64 \<Rightarrow> u64 \<Rightarrow> u64 \<Rightarrow> u64 \<Rightarrow> u64" where
  "bound_chunk pf limit estimate remaining chunk =
     (if 0 < estimate
      then let lim = scaled_limit pf limit estimate remaining;
               lim' = (if remaining < lim then remaining else lim)
           in if lim' < chunk then lim' else chunk
      else chunk)"

definition effective_chunk_token_count :: "platform \<Rightarrow> SchedulerConfig \<Rightarrow> PrefillRequest \<Rightarrow> u64" where
  "effective_chunk_token_count pf c r =
     (let remaining = remaining_prefill_tokens r
      in if remaining = 0 then 0
         else let chunk0 = cf_max_tokens_per_chunk c;
                  chunk1 = (if chunk0 = 0 then 1 else chunk0);
                  chunk2 = bound_chunk pf (cf_max_work_per_chunk c) (compute_estimate r) remaining chunk1;
                  chunk3 = bound_chunk pf (cf_max_memory_per_chunk c) (memory_estimate_bytes r) remaining chunk2;
                  chunk4 = (if chunk3 = 0 then 1 else chunk3);
                  chunk5 = (if remaining < chunk4 then remaining else chunk4);
                  chunk6 = (if chunk5 = 0 then 1 else chunk5)
              in chunk6)"

subsection \<open>Planning\<close>

text \<open>\<^verbatim>\<open>static_cast<uint64_t>((long double(n) / long double(remaining)) * long double(estimate))\<close>, capped.\<close>
definition proportional :: "platform \<Rightarrow> u64 \<Rightarrow> u64 \<Rightarrow> u64 \<Rightarrow> u64 \<Rightarrow> u64" where
  "proportional pf n remaining estimate cap =
     (if 0 < estimate
      then let v = ld_to_u64 pf (ld_mul pf (ld_div pf (ld_of_u64 pf n) (ld_of_u64 pf remaining)) (ld_of_u64 pf estimate))
           in if cap < v then cap else v
      else 0)"

definition mk_chunk ::
  "platform \<Rightarrow> SchedulerConfig \<Rightarrow> PrefillRequest \<Rightarrow> AttemptId \<Rightarrow> Generation \<Rightarrow> u64 \<Rightarrow> u32 \<Rightarrow> u64 \<Rightarrow> PrefillChunk" where
  "mk_chunk pf c r attempt seed offset idx n =
     (let remaining = remaining_prefill_tokens r
      in \<lparr>ch_request_id = request_id r,
          ch_attempt_id = attempt,
          ch_group_id = nil_id,
          ch_token_start = offset,
          ch_token_count = n,
          ch_chunk_index = idx,
          ch_generation = StrongId (id_value seed + ucast idx + 1),
          ch_parent_generation = StrongId (id_value seed),
          ch_work_kind = (if has_valid_reusable_prefix r then WK_reused_suffix
                          else if remaining \<le> offset + n \<and> idx = 0 then WK_full_prompt
                          else WK_chunked),
          ch_memory_estimate_bytes = proportional pf n remaining (memory_estimate_bytes r) (cf_max_memory_per_chunk c),
          ch_compute_estimate = proportional pf n remaining (compute_estimate r) (cf_max_work_per_chunk c),
          ch_deadline = deadline r\<rparr>)"

lemma bound_chunk_le: "bound_chunk pf limit estimate remaining chunk \<le> chunk"
  by (auto simp: bound_chunk_def Let_def order.strict_implies_order)

lemma effective_chunk_pos:
  "remaining_prefill_tokens r \<noteq> 0 \<Longrightarrow> 0 < effective_chunk_token_count pf c r"
  by (simp add: effective_chunk_token_count_def Let_def word_gt_0)

text \<open>
  The \<^verbatim>\<open>while (offset < remaining)\<close> loop. It ends because the chunk size of a request
  with remaining work is positive.
\<close>

function plan_loop ::
  "platform \<Rightarrow> SchedulerConfig \<Rightarrow> PrefillRequest \<Rightarrow> AttemptId \<Rightarrow> Generation \<Rightarrow> u64 \<Rightarrow> u32 \<Rightarrow> PrefillPlan \<Rightarrow> PrefillPlan" where
  "plan_loop pf c r attempt seed offset idx p =
     (let remaining = remaining_prefill_tokens r;
          chunk_size = effective_chunk_token_count pf c r
      in if offset < remaining
         then let n = (if chunk_size < remaining - offset then chunk_size else remaining - offset)
              in plan_loop pf c r attempt seed (offset + n) (idx + 1)
                   (p\<lparr>pl_chunks := pl_chunks p @ [mk_chunk pf c r attempt seed offset idx n],
                      pl_total_chunk_tokens := pl_total_chunk_tokens p + n\<rparr>)
         else p)"
  by pat_completeness auto

lemma plan_step_bounds:
  fixes offset remaining size :: u64
  assumes "offset < remaining" "0 < size"
  defines "n \<equiv> (if size < remaining - offset then size else remaining - offset)"
  shows "0 < unat n" "unat (offset + n) = unat offset + unat n" "unat offset + unat n \<le> unat remaining"
proof -
  have diff: "unat (remaining - offset) = unat remaining - unat offset"
    using assms(1) by (simp add: unat_sub order.strict_implies_order)
  have lt: "unat offset < unat remaining"
    using assms(1) by (simp add: word_less_nat_alt)
  have pos: "0 < unat size" using assms(2) by (simp add: word_less_nat_alt)
  show "0 < unat n"
    using diff lt pos by (auto simp: n_def)
  show le: "unat offset + unat n \<le> unat remaining"
    using diff lt by (auto simp: n_def word_less_nat_alt split: if_splits)
  then show "unat (offset + n) = unat offset + unat n"
    using unat_lt_64 [of remaining] by (intro unat_plus_fits) simp
qed

termination plan_loop
proof (relation "measure (\<lambda>(pf, c, r, a, g, offset, idx, p). unat (remaining_prefill_tokens r) - unat offset)", goal_cases)
  case 1
  show ?case by simp
next
  case (2 pf c r attempt seed offset idx p remaining chunk_size n)
  then have "0 < chunk_size"
    using effective_chunk_pos [of r pf c] by (cases "remaining_prefill_tokens r = 0") auto
  from plan_step_bounds [OF 2(3) this] 2 show ?case by auto
qed

declare plan_loop.simps [simp del]

definition empty_plan :: "PrefillRequest \<Rightarrow> PrefillPlan" where
  "empty_plan r = \<lparr>pl_request = r, pl_chunks = [], pl_total_chunk_tokens = 0, pl_total_chunk_count = 0\<rparr>"

definition plan :: "platform \<Rightarrow> SchedulerConfig \<Rightarrow> PrefillRequest \<Rightarrow> AttemptId \<Rightarrow> Generation \<Rightarrow> PrefillPlan" where
  "plan pf c r attempt seed =
     (if remaining_prefill_tokens r = 0 then empty_plan r
      else let p = plan_loop pf c r attempt seed 0 0 (empty_plan r)
           in p\<lparr>pl_total_chunk_count := of_nat (length (pl_chunks p))\<rparr>)"

subsection \<open>The closed form of a plan\<close>

text \<open>
  The reference: with chunk size \<open>size\<close>, chunk number \<open>i\<close> starts at \<open>i * size\<close> and
  holds \<open>size\<close> tokens, the last one what is left.
\<close>

definition chunk_at ::
  "platform \<Rightarrow> SchedulerConfig \<Rightarrow> PrefillRequest \<Rightarrow> AttemptId \<Rightarrow> Generation \<Rightarrow> nat \<Rightarrow> PrefillChunk" where
  "chunk_at pf c r attempt seed i =
     (let size = unat (effective_chunk_token_count pf c r); rem = unat (remaining_prefill_tokens r)
      in mk_chunk pf c r attempt seed (of_nat (i * size)) (of_nat i) (of_nat (min size (rem - i * size))))"

definition chunk_count :: "platform \<Rightarrow> SchedulerConfig \<Rightarrow> PrefillRequest \<Rightarrow> nat" where
  "chunk_count pf c r =
     (let size = unat (effective_chunk_token_count pf c r); rem = unat (remaining_prefill_tokens r)
      in (rem + size - 1) div size)"

lemma mk_chunk_sel [simp]:
  "ch_request_id (mk_chunk pf c r a g offset idx n) = request_id r"
  "ch_attempt_id (mk_chunk pf c r a g offset idx n) = a"
  "ch_token_start (mk_chunk pf c r a g offset idx n) = offset"
  "ch_token_count (mk_chunk pf c r a g offset idx n) = n"
  "ch_chunk_index (mk_chunk pf c r a g offset idx n) = idx"
  "ch_deadline (mk_chunk pf c r a g offset idx n) = deadline r"
  by (simp_all add: mk_chunk_def Let_def)

lemma less_ceil_div:
  fixes rem size :: nat
  assumes "0 < size"
  shows "i < (rem + size - 1) div size \<longleftrightarrow> i * size < rem"
proof
  assume "i < (rem + size - 1) div size"
  then have "Suc i * size \<le> rem + size - 1"
    using assms by (metis Suc_leI div_times_less_eq_dividend le_trans mult_le_mono1)
  with assms show "i * size < rem" by simp
next
  assume "i * size < rem"
  then have "Suc i * size \<le> rem + size - 1" by simp
  then have "Suc i \<le> (rem + size - 1) div size"
    using assms by (metis div_le_mono nonzero_mult_div_cancel_right not_gr_zero)
  then show "i < (rem + size - 1) div size" by simp
qed

text \<open>The loop position after \<open>i\<close> chunks.\<close>
definition chunk_offset :: "platform \<Rightarrow> SchedulerConfig \<Rightarrow> PrefillRequest \<Rightarrow> nat \<Rightarrow> nat" where
  "chunk_offset pf c r i =
     min (i * unat (effective_chunk_token_count pf c r)) (unat (remaining_prefill_tokens r))"

lemma chunk_count_iff:
  assumes "remaining_prefill_tokens r \<noteq> 0"
  shows "i < chunk_count pf c r \<longleftrightarrow> i * unat (effective_chunk_token_count pf c r) < unat (remaining_prefill_tokens r)"
proof -
  have "0 < unat (effective_chunk_token_count pf c r)"
    using effective_chunk_pos [OF assms, of pf c] by (simp add: word_less_nat_alt)
  then show ?thesis
    unfolding chunk_count_def Let_def by (rule less_ceil_div)
qed

lemma unat_chunk_offset [simp]: "unat (of_nat (chunk_offset pf c r i) :: u64) = chunk_offset pf c r i"
  using unat_lt_64 [of "remaining_prefill_tokens r"] by (simp add: chunk_offset_def unat_of_nat)

lemma chunk_offset_0 [simp]: "chunk_offset pf c r 0 = 0"
  by (simp add: chunk_offset_def)

lemma chunk_at_eq:
  assumes "i * unat (effective_chunk_token_count pf c r) < unat (remaining_prefill_tokens r)"
  shows "chunk_at pf c r a g i =
    mk_chunk pf c r a g (of_nat (chunk_offset pf c r i)) (of_nat i)
      (of_nat (chunk_offset pf c r (Suc i) - chunk_offset pf c r i))"
  using assms by (auto simp: chunk_at_def chunk_offset_def Let_def min_def algebra_simps)

lemma plan_loop_stop:
  assumes "remaining_prefill_tokens r \<noteq> 0" "chunk_count pf c r \<le> i"
  shows "plan_loop pf c r a g (of_nat (chunk_offset pf c r i)) idx p = p"
proof -
  have "\<not> i * unat (effective_chunk_token_count pf c r) < unat (remaining_prefill_tokens r)"
    using assms chunk_count_iff [OF assms(1), of i pf c] by simp
  then have "(of_nat (chunk_offset pf c r i) :: u64) = remaining_prefill_tokens r"
    by (simp add: chunk_offset_def min_def)
  then show ?thesis by (simp add: plan_loop.simps [of pf c r a g _ idx p])
qed

lemma plan_loop_step:
  assumes "remaining_prefill_tokens r \<noteq> 0" "i < chunk_count pf c r"
  shows "plan_loop pf c r a g (of_nat (chunk_offset pf c r i)) (of_nat i) p =
    plan_loop pf c r a g (of_nat (chunk_offset pf c r (Suc i))) (of_nat (Suc i))
      (p\<lparr>pl_chunks := pl_chunks p @ [chunk_at pf c r a g i],
         pl_total_chunk_tokens := pl_total_chunk_tokens p
           + of_nat (chunk_offset pf c r (Suc i) - chunk_offset pf c r i)\<rparr>)"
proof -
  let ?rem = "remaining_prefill_tokens r" and ?sz = "effective_chunk_token_count pf c r"
  define off :: u64 where "off = of_nat (chunk_offset pf c r i)"
  define n where "n = (if ?sz < ?rem - off then ?sz else ?rem - off)"
  have lt: "i * unat ?sz < unat ?rem" using assms chunk_count_iff by blast
  have off: "unat off = i * unat ?sz"
    unfolding off_def unat_chunk_offset using lt by (simp add: chunk_offset_def)
  have less: "off < ?rem" using lt unfolding word_less_nat_alt off .
  then have diff: "unat (?rem - off) = unat ?rem - i * unat ?sz"
    using off by (simp add: unat_sub order.strict_implies_order)
  have "unat n = chunk_offset pf c r (Suc i) - chunk_offset pf c r i"
    using diff lt by (auto simp: n_def word_less_nat_alt chunk_offset_def min_def)
  then have n: "n = of_nat (chunk_offset pf c r (Suc i) - chunk_offset pf c r i)"
    by (metis of_nat_unat_id)
  have "chunk_offset pf c r i \<le> chunk_offset pf c r (Suc i)"
    by (simp add: chunk_offset_def min_le_iff_disj)
  then have next_off: "off + n = of_nat (chunk_offset pf c r (Suc i))"
    unfolding n off_def by (metis le_add_diff_inverse of_nat_add)
  have ch: "mk_chunk pf c r a g off (of_nat i) n = chunk_at pf c r a g i"
    unfolding chunk_at_eq [OF lt] n off_def ..
  show ?thesis
    unfolding off_def [symmetric] n [symmetric] next_off [symmetric] ch [symmetric]
    using less by (subst plan_loop.simps) (simp add: Let_def n_def [symmetric] add.commute)
qed

lemma plan_loop_closed:
  assumes work: "remaining_prefill_tokens r \<noteq> 0"
  shows "plan_loop pf c r a g (of_nat (chunk_offset pf c r i)) (of_nat i) p =
    p\<lparr>pl_chunks := pl_chunks p @ map (chunk_at pf c r a g) [i..<chunk_count pf c r],
      pl_total_chunk_tokens := pl_total_chunk_tokens p
        + of_nat (unat (remaining_prefill_tokens r) - chunk_offset pf c r i)\<rparr>"
proof (induction "chunk_count pf c r - i" arbitrary: i p)
  case 0
  then have "\<not> i < chunk_count pf c r" by simp
  then have "chunk_offset pf c r i = unat (remaining_prefill_tokens r)"
    using chunk_count_iff [OF work, of i pf c] by (simp add: chunk_offset_def min_def)
  with 0 show ?case using plan_loop_stop [OF work, of pf c i a g "of_nat i" p] by simp
next
  case (Suc k)
  then have i: "i < chunk_count pf c r" and k: "k = chunk_count pf c r - Suc i" by auto
  have mono: "chunk_offset pf c r i \<le> chunk_offset pf c r (Suc i)"
    "chunk_offset pf c r (Suc i) \<le> unat (remaining_prefill_tokens r)"
    by (auto simp: chunk_offset_def min_le_iff_disj)
  then have tot: "(of_nat (chunk_offset pf c r (Suc i) - chunk_offset pf c r i) :: u64)
      + of_nat (unat (remaining_prefill_tokens r) - chunk_offset pf c r (Suc i))
      = of_nat (unat (remaining_prefill_tokens r) - chunk_offset pf c r i)"
    by (simp flip: of_nat_add)
  show ?case
    unfolding plan_loop_step [OF work i] Suc(1) [OF k]
    using i tot by (simp add: upt_conv_Cons add.assoc)
qed

lemma plan_closed:
  assumes "remaining_prefill_tokens r \<noteq> 0"
  shows "plan pf c r a g =
    \<lparr>pl_request = r, pl_chunks = map (chunk_at pf c r a g) [0..<chunk_count pf c r],
     pl_total_chunk_tokens = remaining_prefill_tokens r,
     pl_total_chunk_count = of_nat (chunk_count pf c r)\<rparr>"
  using plan_loop_closed [OF assms, of pf c a g 0 "empty_plan r"] assms
  by (simp add: plan_def empty_plan_def Let_def)

lemma plan_no_work [simp]: "remaining_prefill_tokens r = 0 \<Longrightarrow> plan pf c r a g = empty_plan r"
  by (simp add: plan_def)

lemma plan_request [simp]: "pl_request (plan pf c r a g) = r"
  by (cases "remaining_prefill_tokens r = 0") (simp_all add: plan_closed empty_plan_def)

lemma length_plan:
  "length (pl_chunks (plan pf c r a g)) = (if remaining_prefill_tokens r = 0 then 0 else chunk_count pf c r)"
  by (simp add: plan_closed empty_plan_def)

lemma plan_nonempty: "remaining_prefill_tokens r \<noteq> 0 \<Longrightarrow> pl_chunks (plan pf c r a g) \<noteq> []"
  using chunk_count_iff [of r 0 pf c] length_plan [of pf c r a g] by (auto simp: unat_gt_0)

lemma plan_nth:
  assumes "i < length (pl_chunks (plan pf c r a g))"
  shows "pl_chunks (plan pf c r a g) ! i =
      mk_chunk pf c r a g (of_nat (chunk_offset pf c r i)) (of_nat i)
        (of_nat (chunk_offset pf c r (Suc i) - chunk_offset pf c r i))"
    and "chunk_offset pf c r i < chunk_offset pf c r (Suc i)"
    and "chunk_offset pf c r (Suc i) \<le> unat (remaining_prefill_tokens r)"
    and "chunk_offset pf c r (Suc i) - chunk_offset pf c r i \<le> unat (effective_chunk_token_count pf c r)"
proof -
  have work: "remaining_prefill_tokens r \<noteq> 0" and i: "i < chunk_count pf c r"
    using assms by (auto simp: length_plan split: if_splits)
  have lt: "i * unat (effective_chunk_token_count pf c r) < unat (remaining_prefill_tokens r)"
    using i chunk_count_iff [OF work] by simp
  show "pl_chunks (plan pf c r a g) ! i =
      mk_chunk pf c r a g (of_nat (chunk_offset pf c r i)) (of_nat i)
        (of_nat (chunk_offset pf c r (Suc i) - chunk_offset pf c r i))"
    using i by (simp add: plan_closed [OF work] chunk_at_eq [OF lt])
  have "0 < unat (effective_chunk_token_count pf c r)"
    using effective_chunk_pos [OF work, of pf c] by (simp add: word_less_nat_alt)
  with lt show "chunk_offset pf c r i < chunk_offset pf c r (Suc i)"
    by (simp add: chunk_offset_def)
  show "chunk_offset pf c r (Suc i) \<le> unat (remaining_prefill_tokens r)"
    "chunk_offset pf c r (Suc i) - chunk_offset pf c r i \<le> unat (effective_chunk_token_count pf c r)"
    by (auto simp: chunk_offset_def min_def)
qed

lemma unat_chunk_size:
  "unat (of_nat (chunk_offset pf c r (Suc i) - chunk_offset pf c r i) :: u64)
     = chunk_offset pf c r (Suc i) - chunk_offset pf c r i"
proof (rule unat_of_nat_le)
  show "chunk_offset pf c r (Suc i) - chunk_offset pf c r i \<le> unat (remaining_prefill_tokens r)"
    using min.cobounded2 by (simp add: chunk_offset_def le_diff_conv trans_le_add1)
qed

lemma chunk_offset_end:
  assumes "remaining_prefill_tokens r \<noteq> 0"
  shows "chunk_offset pf c r (chunk_count pf c r) = unat (remaining_prefill_tokens r)"
  using chunk_count_iff [OF assms, of "chunk_count pf c r" pf c] by (simp add: chunk_offset_def min_def)

text \<open>Start and length of the chunks of a plan, as natural numbers.\<close>
lemma plan_chunk_range:
  assumes "i < length (pl_chunks (plan pf c r a g))"
  shows "unat (ch_token_start (pl_chunks (plan pf c r a g) ! i)) = chunk_offset pf c r i"
    and "unat (ch_token_count (pl_chunks (plan pf c r a g) ! i))
           = chunk_offset pf c r (Suc i) - chunk_offset pf c r i"
  by (simp_all only: plan_nth(1) [OF assms] mk_chunk_sel unat_chunk_offset unat_chunk_size)

subsection \<open>Correctness of plans\<close>

text \<open>
  The specification of a plan: consecutive, non-empty chunks that start at \<open>s\<close> and end
  exactly at \<open>e\<close>.
\<close>
fun chunks_tile :: "nat \<Rightarrow> PrefillChunk list \<Rightarrow> nat \<Rightarrow> bool" where
  "chunks_tile s [] e = (s = e)"
| "chunks_tile s (ch # chs) e =
     (unat (ch_token_start ch) = s \<and> 0 < unat (ch_token_count ch) \<and>
      chunks_tile (s + unat (ch_token_count ch)) chs e)"

lemma chunks_tile_drop:
  assumes "remaining_prefill_tokens r \<noteq> 0" "i \<le> chunk_count pf c r"
  shows "chunks_tile (chunk_offset pf c r i) (drop i (pl_chunks (plan pf c r a g))) (unat (remaining_prefill_tokens r))"
  using assms(2)
proof (induction "chunk_count pf c r - i" arbitrary: i)
  case 0
  with assms(1) chunk_offset_end [OF assms(1), of pf c] show ?case by (auto simp: length_plan)
next
  case (Suc k)
  then have i: "i < length (pl_chunks (plan pf c r a g))" using assms(1) by (simp add: length_plan)
  have tl: "chunks_tile (chunk_offset pf c r (Suc i)) (drop (Suc i) (pl_chunks (plan pf c r a g)))
          (unat (remaining_prefill_tokens r))"
    using Suc by (intro Suc(1)) auto
  have "chunk_offset pf c r i + (chunk_offset pf c r (Suc i) - chunk_offset pf c r i) = chunk_offset pf c r (Suc i)"
    using plan_nth(2) [OF i] by simp
  with tl plan_nth(2) [OF i] show ?case
    unfolding Cons_nth_drop_Suc [OF i, symmetric] chunks_tile.simps plan_chunk_range [OF i] by simp
qed

lemma effective_chunk_le:
  assumes "remaining_prefill_tokens r \<noteq> 0"
  shows "unat (effective_chunk_token_count pf c r) \<le> max 1 (unat (cf_max_tokens_per_chunk c))"
proof -
  let ?rem = "remaining_prefill_tokens r"
  define b where "b = bound_chunk pf (cf_max_memory_per_chunk c) (memory_estimate_bytes r) ?rem
    (bound_chunk pf (cf_max_work_per_chunk c) (compute_estimate r) ?rem
      (if cf_max_tokens_per_chunk c = 0 then 1 else cf_max_tokens_per_chunk c))"
  have "b \<le> (if cf_max_tokens_per_chunk c = 0 then 1 else cf_max_tokens_per_chunk c)"
    unfolding b_def by (rule order_trans [OF bound_chunk_le bound_chunk_le])
  then have "unat b \<le> max 1 (unat (cf_max_tokens_per_chunk c))"
    by (auto simp: word_le_nat_alt split: if_splits)
  moreover have "effective_chunk_token_count pf c r
      = (if b = 0 then 1 else if ?rem < b then ?rem else b) \<or> effective_chunk_token_count pf c r = 1"
    using assms by (simp add: effective_chunk_token_count_def Let_def b_def [symmetric])
  ultimately show ?thesis
    by (auto simp: word_less_nat_alt split: if_splits)
qed

lemma proportional_le: "proportional pf n rem est cap \<le> cap"
  by (auto simp: proportional_def Let_def not_less)

lemma mk_chunk_estimates [simp]:
  "ch_memory_estimate_bytes (mk_chunk pf c r a g offset idx n)
     = proportional pf n (remaining_prefill_tokens r) (memory_estimate_bytes r) (cf_max_memory_per_chunk c)"
  "ch_compute_estimate (mk_chunk pf c r a g offset idx n)
     = proportional pf n (remaining_prefill_tokens r) (compute_estimate r) (cf_max_work_per_chunk c)"
  by (simp_all add: mk_chunk_def Let_def)

lemma plan_chunk_valid:
  assumes i: "i < length (pl_chunks (plan pf c r a g))"
  shows "err_code (validate_chunk (pl_chunks (plan pf c r a g) ! i) r) = EC_ok"
proof -
  let ?ch = "pl_chunks (plan pf c r a g) ! i"
  have n: "0 < unat (ch_token_count ?ch)"
    and le: "unat (ch_token_start ?ch) + unat (ch_token_count ?ch) \<le> unat (remaining_prefill_tokens r)"
    using plan_nth(2,3) [OF i] by (simp_all add: plan_chunk_range [OF i])
  then have "unat (ch_token_start ?ch + ch_token_count ?ch) \<le> unat (remaining_prefill_tokens r)"
    using unat_lt_64 [of "remaining_prefill_tokens r"] by (simp add: unat_plus_fits)
  moreover have "ch_request_id ?ch = request_id r" by (simp add: plan_nth(1) [OF i])
  ultimately show ?thesis
    using n by (auto simp: validate_chunk_def word_less_nat_alt)
qed


text \<open>
  (C25) Every chunk of a plan passes \<open>PrefillChunk::validate\<close>, belongs to the attempt it
  was planned for, holds at most \<open>max_tokens_per_chunk\<close> tokens (one token when that limit
  is zero), and carries compute and memory estimates within the per-chunk limits.
\<close>
theorem plan_chunks_within_limits:
  assumes "ch \<in> set (pl_chunks (plan pf c r a g))"
  shows "err_code (validate_chunk ch r) = EC_ok \<and> ch_attempt_id ch = a \<and>
    unat (ch_token_count ch) \<le> max 1 (unat (cf_max_tokens_per_chunk c)) \<and>
    ch_compute_estimate ch \<le> cf_max_work_per_chunk c \<and>
    ch_memory_estimate_bytes ch \<le> cf_max_memory_per_chunk c"
proof -
  from assms obtain i where i: "i < length (pl_chunks (plan pf c r a g))"
    and ch: "ch = pl_chunks (plan pf c r a g) ! i"
    by (auto simp: in_set_conv_nth)
  have work: "remaining_prefill_tokens r \<noteq> 0" using i by (auto simp: length_plan split: if_splits)
  have "unat (ch_token_count ch) \<le> max 1 (unat (cf_max_tokens_per_chunk c))"
    using plan_nth(4) [OF i] effective_chunk_le [OF work, of pf c]
    by (simp add: ch plan_chunk_range [OF i])
  then show ?thesis
    using plan_chunk_valid [OF i] by (simp add: ch plan_nth(1) [OF i] proportional_le)
qed

text \<open>A request of 10 tokens planned with at most 4 tokens per chunk.\<close>
definition sample_platform :: platform where
  "sample_platform = \<lparr>ld_prec = 64, ld_cast_oob = (\<lambda>_. 0), f64_cast_oob = (\<lambda>_. 0)\<rparr>"

definition sample_config :: SchedulerConfig where
  "sample_config = default_config\<lparr>cf_max_tokens_per_chunk := 4\<rparr>"

definition sample_request :: PrefillRequest where
  "sample_request = default_request\<lparr>request_id := StrongId 7, tenant_id := StrongId 3,
     prompt_token_count := 10, memory_estimate_bytes := 160, compute_estimate := 10\<rparr>"

theorem plan_chunks_within_limits_witness:
  "\<exists>ch. ch \<in> set (pl_chunks (plan sample_platform sample_config sample_request (StrongId 1) nil_id)) \<and>
     ch_attempt_id ch = StrongId 1 \<and> unat (ch_token_count ch) \<le> 4"
proof -
  have "remaining_prefill_tokens sample_request \<noteq> 0"
    by (simp add: remaining_prefill_tokens_def sample_request_def default_request_def)
  then obtain ch where "ch \<in> set (pl_chunks (plan sample_platform sample_config sample_request (StrongId 1) nil_id))"
    using plan_nonempty by (metis list.set_intros(1) neq_Nil_conv)
  with plan_chunks_within_limits [OF this] show ?thesis
    by (intro exI [of _ ch]) (simp add: sample_config_def)
qed

text \<open>
  (C26) The planning loop computes the arithmetic reference: with chunk size \<open>s\<close> and
  remaining work \<open>n\<close> it returns \<open>ceil (n / s)\<close> chunks, chunk \<open>i\<close> covering the tokens from
  \<open>i * s\<close> up to \<open>min ((i + 1) * s) n\<close>. In particular planning is deterministic.
\<close>
theorem plan_equals_reference:
  assumes "remaining_prefill_tokens r \<noteq> 0"
  shows "pl_chunks (plan pf c r a g) = map (chunk_at pf c r a g) [0..<chunk_count pf c r]"
  using plan_closed [OF assms] by simp

theorem plan_equals_reference_witness:
  "remaining_prefill_tokens sample_request \<noteq> 0 \<and>
   length (pl_chunks (plan sample_platform sample_config sample_request nil_id nil_id))
     = chunk_count sample_platform sample_config sample_request"
proof -
  have w: "remaining_prefill_tokens sample_request \<noteq> 0"
    by (simp add: remaining_prefill_tokens_def sample_request_def default_request_def)
  show ?thesis using w plan_equals_reference [OF w] by simp
qed

end
