(* ===== verification/PF_Memory.thy ===== *)
theory PF_Memory
  imports PF_Types
begin

text \<open>
  \<^verbatim>\<open>memory.hpp\<close>: the memory governor. Its state is a byte counter \<^verbatim>\<open>reserved_\<close> beside a
  table of reservation records; the invariant ties the two together, and the abstract
  view of the governor is its \<^emph>\<open>ledger\<close>, the finite map from active reservations to
  their sizes. Every method locks the governor's mutex for its whole body, so each is
  one atomic step.
\<close>

datatype ReservationIdTag = ReservationIdTag
type_synonym ReservationId = "ReservationIdTag StrongId"

datatype ReservationKind = RK_queued | RK_planned | RK_reserved | RK_dispatched | RK_running

primrec to_string_ReservationKind :: "ReservationKind \<Rightarrow> string" where
  "to_string_ReservationKind RK_queued = ''queued''"
| "to_string_ReservationKind RK_planned = ''planned''"
| "to_string_ReservationKind RK_reserved = ''reserved''"
| "to_string_ReservationKind RK_dispatched = ''dispatched''"
| "to_string_ReservationKind RK_running = ''running''"

record ReservationRecord =
  rr_id :: ReservationId
  rr_request_id :: RequestId
  rr_bytes :: u64
  rr_kind :: ReservationKind
  rr_active :: bool

record MemoryGovernor =
  mg_max_bytes :: u64
  mg_headroom :: u64
  mg_reserved :: u64
  mg_double_releases :: u64
  mg_underlying_flags :: u64
  mg_records :: "(ReservationId, ReservationRecord) alist"

subsection \<open>Operations\<close>

definition mk_governor :: "u64 \<Rightarrow> u64 \<Rightarrow> MemoryGovernor" where
  "mk_governor max_bytes headroom = \<lparr>mg_max_bytes = max_bytes, mg_headroom = headroom, mg_reserved = 0,
     mg_double_releases = 0, mg_underlying_flags = 0, mg_records = []\<rparr>"

definition set_capacity :: "u64 \<Rightarrow> MemoryGovernor \<Rightarrow> MemoryGovernor" where
  "set_capacity bytes g =
     (let newmax = (if bytes < mg_headroom g then mg_headroom g else bytes) in g\<lparr>mg_max_bytes := newmax\<rparr>)"

definition budget :: "MemoryGovernor \<Rightarrow> u64" where
  "budget g = (if mg_headroom g < mg_max_bytes g then mg_max_bytes g - mg_headroom g else 0)"

definition available_bytes :: "MemoryGovernor \<Rightarrow> u64" where
  "available_bytes g = (if budget g < mg_reserved g then 0 else budget g - mg_reserved g)"

definition can_reserve :: "u64 \<Rightarrow> MemoryGovernor \<Rightarrow> bool" where
  "can_reserve bytes g = (if budget g < mg_reserved g then False else bytes \<le> budget g - mg_reserved g)"

definition is_active :: "ReservationId \<Rightarrow> MemoryGovernor \<Rightarrow> bool" where
  "is_active i g = (case map_of (mg_records g) i of None \<Rightarrow> False | Some r \<Rightarrow> rr_active r)"

definition reserve ::
  "ReservationId \<Rightarrow> RequestId \<Rightarrow> u64 \<Rightarrow> ReservationKind \<Rightarrow> MemoryGovernor \<Rightarrow> unit Result \<times> MemoryGovernor" where
  "reserve i req bytes kind g =
     (if is_active i g then (res_err EC_duplicate_request ''reservation id already active'', g)
      else if bytes = 0
      then (res_ok (), g\<lparr>mg_records := AList.update i
              \<lparr>rr_id = i, rr_request_id = req, rr_bytes = 0, rr_kind = kind, rr_active = True\<rparr> (mg_records g)\<rparr>)
      else if budget g < mg_reserved g \<or> budget g - mg_reserved g < bytes
      then (res_err EC_memory_unavailable ''insufficient memory budget'', g)
      else (res_ok (), g\<lparr>mg_reserved := mg_reserved g + bytes,
              mg_records := AList.update i
                \<lparr>rr_id = i, rr_request_id = req, rr_bytes = bytes, rr_kind = kind, rr_active = True\<rparr> (mg_records g)\<rparr>))"

definition transition :: "ReservationId \<Rightarrow> ReservationKind \<Rightarrow> MemoryGovernor \<Rightarrow> unit Result \<times> MemoryGovernor" where
  "transition i kind g =
     (case map_of (mg_records g) i of
        None \<Rightarrow> (res_err EC_illegal_state ''reservation not active'', g)
      | Some r \<Rightarrow>
          if \<not> rr_active r then (res_err EC_illegal_state ''reservation not active'', g)
          else (res_ok (), g\<lparr>mg_records := AList.update i (r\<lparr>rr_kind := kind\<rparr>) (mg_records g)\<rparr>))"

definition release :: "ReservationId \<Rightarrow> MemoryGovernor \<Rightarrow> unit Result \<times> MemoryGovernor" where
  "release i g =
     (case map_of (mg_records g) i of
        None \<Rightarrow> (res_ok (), g\<lparr>mg_double_releases := mg_double_releases g + 1\<rparr>)
      | Some r \<Rightarrow>
          if \<not> rr_active r then (res_ok (), g\<lparr>mg_double_releases := mg_double_releases g + 1\<rparr>)
          else let g1 = (if 0 < rr_bytes r
                         then if mg_reserved g < rr_bytes r
                              then g\<lparr>mg_underlying_flags := mg_underlying_flags g OR 1, mg_reserved := 0\<rparr>
                              else g\<lparr>mg_reserved := mg_reserved g - rr_bytes r\<rparr>
                         else g)
               in (res_ok (), g1\<lparr>mg_records :=
                     AList.update i (r\<lparr>rr_active := False, rr_bytes := 0\<rparr>) (mg_records g1)\<rparr>))"

definition active_reservation_count :: "MemoryGovernor \<Rightarrow> u64" where
  "active_reservation_count g = of_nat (length (filter (\<lambda>(k, r). rr_active r) (mg_records g)))"

definition underflow_happened :: "MemoryGovernor \<Rightarrow> bool" where
  "underflow_happened g = (mg_underlying_flags g AND 1 \<noteq> 0)"

subsection \<open>The ledger and the invariant\<close>

definition ledger :: "MemoryGovernor \<Rightarrow> ReservationId \<Rightarrow> nat option" where
  "ledger g i = (case map_of (mg_records g) i of
                   None \<Rightarrow> None | Some r \<Rightarrow> if rr_active r then Some (unat (rr_bytes r)) else None)"

definition active_bytes :: "MemoryGovernor \<Rightarrow> nat" where
  "active_bytes g = asum (\<lambda>_ r. if rr_active r then unat (rr_bytes r) else 0) (mg_records g)"

definition gov_inv :: "MemoryGovernor \<Rightarrow> bool" where
  "gov_inv g =
     (distinct (keys (mg_records g)) \<and>
      unat (mg_reserved g) = active_bytes g \<and>
      mg_reserved g \<le> budget g \<and>
      \<not> underflow_happened g)"

lemma is_active_ledger: "is_active i g \<longleftrightarrow> ledger g i \<noteq> None"
  by (simp add: is_active_def ledger_def split: option.splits)

lemma gov_inv_mk: "gov_inv (mk_governor m h)"
  by (simp add: gov_inv_def mk_governor_def active_bytes_def underflow_happened_def)

lemma budget_upd [simp]:
  "budget (g\<lparr>mg_reserved := a\<rparr>) = budget g" "budget (g\<lparr>mg_double_releases := a\<rparr>) = budget g"
  "budget (g\<lparr>mg_underlying_flags := a\<rparr>) = budget g" "budget (g\<lparr>mg_records := rs\<rparr>) = budget g"
  by (simp_all add: budget_def)

lemma active_bytes_upd [simp]:
  "active_bytes (g\<lparr>mg_reserved := a\<rparr>) = active_bytes g" "active_bytes (g\<lparr>mg_double_releases := a\<rparr>) = active_bytes g"
  "active_bytes (g\<lparr>mg_underlying_flags := a\<rparr>) = active_bytes g"
  "active_bytes (g\<lparr>mg_reserved := a, mg_records := rs\<rparr>) = active_bytes (g\<lparr>mg_records := rs\<rparr>)"
  by (simp_all add: active_bytes_def)

lemma underflow_upd [simp]:
  "underflow_happened (g\<lparr>mg_reserved := a\<rparr>) = underflow_happened g"
  "underflow_happened (g\<lparr>mg_double_releases := a\<rparr>) = underflow_happened g"
  "underflow_happened (g\<lparr>mg_records := rs\<rparr>) = underflow_happened g"
  by (simp_all add: underflow_happened_def)

lemma reserve_budget [simp]: "budget (snd (reserve i q b k g)) = budget g"
  by (simp add: reserve_def)

lemma release_budget [simp]: "budget (snd (release i g)) = budget g"
  by (simp add: release_def Let_def split: option.splits)

lemma active_bytes_update:
  assumes "\<not> is_active i g"
  shows "active_bytes (g\<lparr>mg_records := AList.update i r (mg_records g)\<rparr>)
       = active_bytes g + (if rr_active r then unat (rr_bytes r) else 0)"
proof (cases "map_of (mg_records g) i")
  case None
  then show ?thesis by (simp add: active_bytes_def asum_update_new)
next
  case (Some r0)
  with assms have "\<not> rr_active r0" by (simp add: is_active_def)
  with asum_update_old [OF Some, of "\<lambda>_ r. if rr_active r then unat (rr_bytes r) else 0" r]
  show ?thesis by (simp add: active_bytes_def)
qed

lemma reserve_room:
  fixes res bud b :: u64
  assumes "\<not> bud < res" "\<not> bud - res < b"
  shows "unat (res + b) = unat res + unat b" "res + b \<le> bud"
proof -
  have "unat (bud - res) = unat bud - unat res"
    using assms(1) by (simp add: unat_sub not_less)
  then have le: "unat res + unat b \<le> unat bud"
    using assms by (auto simp: word_less_nat_alt)
  then show "unat (res + b) = unat res + unat b"
    using unat_lt_64 [of bud] by (simp add: unat_plus_fits)
  with le show "res + b \<le> bud" by (simp add: word_le_nat_alt)
qed

lemma reserve_inv: "gov_inv g \<Longrightarrow> gov_inv (snd (reserve i q b k g))"
proof -
  assume inv: "gov_inv g"
  show ?thesis
  proof (cases "is_active i g \<or> b = 0 \<or> budget g < mg_reserved g \<or> budget g - mg_reserved g < b")
    case True
    with inv show ?thesis
      by (auto simp: gov_inv_def reserve_def AList.distinct_update active_bytes_update)
  next
    case False
    then have room: "unat (mg_reserved g + b) = unat (mg_reserved g) + unat b" "mg_reserved g + b \<le> budget g"
      by (auto intro: reserve_room)
    from False inv room show ?thesis
      by (auto simp: gov_inv_def reserve_def AList.distinct_update active_bytes_update)
  qed
qed

lemma ledger_reserve:
  "ledger (snd (reserve i q b k g)) =
     (if is_ok (fst (reserve i q b k g)) then (ledger g)(i \<mapsto> unat b) else ledger g)"
  by (auto simp: reserve_def ledger_def fun_eq_iff alist_simps)

lemma reserve_ok_iff:
  assumes "gov_inv g"
  shows "is_ok (fst (reserve i q b k g)) \<longleftrightarrow>
     ledger g i = None \<and> active_bytes g + unat b \<le> unat (budget g)"
proof -
  have le: "mg_reserved g \<le> budget g" and ab: "active_bytes g = unat (mg_reserved g)"
    using assms by (auto simp: gov_inv_def)
  then have "unat (budget g - mg_reserved g) = unat (budget g) - unat (mg_reserved g)"
    by (simp add: unat_sub)
  with le ab show ?thesis
    by (auto simp: reserve_def is_active_ledger word_less_nat_alt word_le_nat_alt)
qed

lemma release_active_bytes:
  assumes "map_of (mg_records g) i = Some r" "rr_active r"
  shows "active_bytes (g\<lparr>mg_records := AList.update i (r\<lparr>rr_active := False, rr_bytes := 0\<rparr>) (mg_records g)\<rparr>)
           = active_bytes g - unat (rr_bytes r)"
    and "unat (rr_bytes r) \<le> active_bytes g"
  using asum_update_old [OF assms(1), of "\<lambda>_ r. if rr_active r then unat (rr_bytes r) else 0"
      "r\<lparr>rr_active := False, rr_bytes := 0\<rparr>"]
    asum_member_le [OF assms(1), of "\<lambda>_ r. if rr_active r then unat (rr_bytes r) else 0"] assms(2)
  by (auto simp: active_bytes_def)

lemma release_inv:
  assumes "gov_inv g"
  shows "gov_inv (snd (release i g))"
proof (cases "is_active i g")
  case False
  then have "snd (release i g) = g\<lparr>mg_double_releases := mg_double_releases g + 1\<rparr>"
    by (cases "map_of (mg_records g) i") (simp_all add: release_def is_active_def)
  with assms show ?thesis
    by (simp add: gov_inv_def)
next
  case True
  then obtain r where r: "map_of (mg_records g) i = Some r" "rr_active r"
    by (auto simp: is_active_def split: option.splits)
  have b: "rr_bytes r \<le> mg_reserved g"
    using release_active_bytes(2) [OF r] assms by (simp add: gov_inv_def word_le_nat_alt)
  then have "unat (mg_reserved g - rr_bytes r) = unat (mg_reserved g) - unat (rr_bytes r)"
    by (simp add: unat_sub)
  moreover have "mg_reserved g - rr_bytes r \<le> budget g"
    using b assms calculation unfolding gov_inv_def word_le_nat_alt by linarith
  ultimately show ?thesis
    using assms b r release_active_bytes [OF r]
    by (auto simp: gov_inv_def release_def Let_def AList.distinct_update not_less word_gt_0)
qed

lemma ledger_release: "ledger (snd (release i g)) = (ledger g)(i := None)"
  by (auto simp: release_def ledger_def Let_def fun_eq_iff alist_simps split: option.splits)

lemma release_ok [simp]: "is_ok (fst (release i g))"
  by (simp add: release_def Let_def split: option.splits)

subsection \<open>The interface the scheduler uses\<close>

text \<open>
  What a client of the governor relies on: reservations and releases keep the governor
  consistent, a granted reservation is a new entry of the ledger and a refused one
  changes nothing, and a release removes exactly its own entry.
\<close>

locale reservation_ledger =
  fixes reserve_op :: "ReservationId \<Rightarrow> RequestId \<Rightarrow> u64 \<Rightarrow> ReservationKind \<Rightarrow> 'g \<Rightarrow> unit Result \<times> 'g"
    and release_op :: "ReservationId \<Rightarrow> 'g \<Rightarrow> unit Result \<times> 'g"
    and holds :: "'g \<Rightarrow> ReservationId \<Rightarrow> nat option"
    and good :: "'g \<Rightarrow> bool"
  assumes reserve_good: "good g \<Longrightarrow> good (snd (reserve_op i q b k g))"
    and release_good: "good g \<Longrightarrow> good (snd (release_op i g))"
    and reserve_holds: "holds (snd (reserve_op i q b k g)) =
          (if is_ok (fst (reserve_op i q b k g)) then (holds g)(i \<mapsto> unat b) else holds g)"
    and reserve_fresh: "is_ok (fst (reserve_op i q b k g)) \<Longrightarrow> holds g i = None"
    and release_holds: "holds (snd (release_op i g)) = (holds g)(i := None)"
begin

lemma release_list_good: "good g \<Longrightarrow> good (fold (\<lambda>i g. snd (release_op i g)) is g)"
  by (induction "is" arbitrary: g) (auto intro: release_good)

lemma release_list_holds:
  "holds (fold (\<lambda>i g. snd (release_op i g)) is g) = (\<lambda>i. if i \<in> set is then None else holds g i)"
  by (induction "is" arbitrary: g) (auto simp: release_holds fun_eq_iff)

text \<open>Releasing what was reserved restores the ledger, in whatever order.\<close>
lemma reserve_release_inverse:
  "is_ok (fst (reserve_op i q b k g)) \<Longrightarrow>
   holds (snd (release_op i (snd (reserve_op i q b k g)))) = holds g"
  using reserve_fresh [of i q b k g] by (auto simp: reserve_holds release_holds fun_eq_iff)

end

interpretation gov: reservation_ledger reserve release ledger gov_inv
proof
  show "is_ok (fst (reserve i q b k g)) \<Longrightarrow> ledger g i = None" for i q b k g
    by (auto simp: reserve_def is_active_ledger split: if_splits)
qed (simp_all add: reserve_inv release_inv ledger_reserve ledger_release)

subsection \<open>Refinement of the abstract ledger\<close>

definition ledger_total :: "(ReservationId \<Rightarrow> nat option) \<Rightarrow> nat" where
  "ledger_total L = (\<Sum>i\<in>dom L. the (L i))"

definition spec_reserve ::
  "nat \<Rightarrow> ReservationId \<Rightarrow> nat \<Rightarrow> (ReservationId \<Rightarrow> nat option) \<Rightarrow> ErrorCode \<times> (ReservationId \<Rightarrow> nat option)" where
  "spec_reserve B i b L =
     (if L i \<noteq> None then (EC_duplicate_request, L)
      else if ledger_total L + b \<le> B then (EC_ok, L(i \<mapsto> b))
      else (EC_memory_unavailable, L))"

lemma asum_as_sum:
  assumes "distinct (keys m)"
  shows "asum (\<lambda>_ v. f v) m = (\<Sum>k\<in>set (keys m). f (the (map_of m k)))"
  using assms
proof (induction m)
  case (Cons p m)
  obtain k v where p: "p = (k, v)" by (cases p)
  have "(\<Sum>j\<in>set (keys m). f (the (map_of ((k, v) # m) j))) = (\<Sum>j\<in>set (keys m). f (the (map_of m j)))"
    using Cons.prems p by (intro sum.cong) auto
  with Cons p show ?case by simp
qed simp

lemma active_bytes_total:
  assumes "distinct (keys (mg_records g))"
  shows "active_bytes g = ledger_total (ledger g)"
proof -
  let ?m = "mg_records g" and ?f = "\<lambda>r. if rr_active r then unat (rr_bytes r) else 0"
  have "active_bytes g = (\<Sum>k\<in>set (keys ?m). ?f (the (map_of ?m k)))"
    using asum_as_sum [OF assms, of ?f] by (simp add: active_bytes_def)
  also have "\<dots> = (\<Sum>k\<in>dom (ledger g). ?f (the (map_of ?m k)))"
  proof (rule sum.mono_neutral_right)
    show "dom (ledger g) \<subseteq> set (keys ?m)"
      by (auto simp: ledger_def dom_def dest!: map_of_keys split: option.splits)
    show "\<forall>k\<in>set (keys ?m) - dom (ledger g). ?f (the (map_of ?m k)) = 0"
    proof
      fix k assume k: "k \<in> set (keys ?m) - dom (ledger g)"
      then obtain r where "map_of ?m k = Some r" using map_of_keys_ex by fastforce
      with k show "?f (the (map_of ?m k)) = 0" by (auto simp: ledger_def dom_def)
    qed
  qed simp
  also have "\<dots> = ledger_total (ledger g)"
    unfolding ledger_total_def by (rule sum.cong) (auto simp: ledger_def split: option.splits if_splits)
  finally show ?thesis .
qed

text \<open>
  (C27) The governor implements the abstract ledger: a reservation fails as duplicate
  exactly when its id is active, fails as unavailable exactly when the active bytes plus
  the request exceed the budget, and otherwise adds exactly one entry; the concrete
  counters never make a difference.
\<close>
theorem reserve_refines_ledger:
  assumes "gov_inv g"
  shows "(res_code (fst (reserve i q b k g)), ledger (snd (reserve i q b k g)))
       = spec_reserve (unat (budget g)) i (unat b) (ledger g)"
proof -
  have tot: "ledger_total (ledger g) = active_bytes g"
    using assms by (simp add: active_bytes_total gov_inv_def)
  have "res_code (fst (reserve i q b k g)) =
      (if is_active i g then EC_duplicate_request
       else if is_ok (fst (reserve i q b k g)) then EC_ok else EC_memory_unavailable)"
    by (simp add: reserve_def)
  then show ?thesis
    using reserve_ok_iff [OF assms, of i q b k] tot
    by (simp add: spec_reserve_def ledger_reserve is_active_ledger)
qed

theorem reserve_refines_ledger_witness:
  "gov_inv (mk_governor 100 10) \<and>
   res_code (fst (reserve (StrongId 1) (StrongId 7) 91 RK_reserved (mk_governor 100 10))) = EC_memory_unavailable"
proof -
  have inv: "gov_inv (mk_governor 100 10)" by (rule gov_inv_mk)
  have "ledger (mk_governor 100 10) = (\<lambda>_. None)" and "budget (mk_governor 100 10) = 90"
    by (simp_all add: fun_eq_iff ledger_def mk_governor_def budget_def)
  then show ?thesis
    using inv reserve_refines_ledger [OF inv, of "StrongId 1" "StrongId 7" 91 RK_reserved]
    by (simp add: spec_reserve_def ledger_total_def)
qed

text \<open>The operations of the governor as steps of a client.\<close>
datatype gov_op = Reserve ReservationId RequestId u64 ReservationKind | Release ReservationId
  | Transition ReservationId ReservationKind

primrec gov_step :: "gov_op \<Rightarrow> MemoryGovernor \<Rightarrow> MemoryGovernor" where
  "gov_step (Reserve i q b k) g = snd (reserve i q b k g)"
| "gov_step (Release i) g = snd (release i g)"
| "gov_step (Transition i k) g = snd (transition i k g)"

lemma transition_inv: "gov_inv g \<Longrightarrow> gov_inv (snd (transition i k g))"
proof (cases "map_of (mg_records g) i")
  case (Some r)
  assume "gov_inv g"
  moreover have "asum (\<lambda>_ r. if rr_active r then unat (rr_bytes r) else 0)
      (AList.update i (r\<lparr>rr_kind := k\<rparr>) (mg_records g)) = active_bytes g"
    using Some by (simp add: asum_update_same active_bytes_def)
  then have "active_bytes (g\<lparr>mg_records := AList.update i (r\<lparr>rr_kind := k\<rparr>) (mg_records g)\<rparr>) = active_bytes g"
    by (simp add: active_bytes_def)
  ultimately show ?thesis
    using Some by (simp add: transition_def gov_inv_def AList.distinct_update)
qed (simp add: transition_def)

lemma gov_steps_inv: "gov_inv g \<Longrightarrow> gov_inv (fold gov_step ops g)"
proof (induction ops arbitrary: g)
  case (Cons op ops)
  then show ?case
    by (cases op) (simp_all add: reserve_inv release_inv transition_inv)
qed simp

lemma gov_steps_budget: "budget (fold gov_step ops g) = budget g"
proof (induction ops arbitrary: g)
  case (Cons op ops)
  then show ?case
    by (cases op) (simp_all add: transition_def split: option.splits)
qed simp


end
