(* ===== verification/PF_Observe.thy ===== *)
theory PF_Observe
  imports PF_Request
begin

text \<open>
  \<^verbatim>\<open>observability.hpp\<close> and \<^verbatim>\<open>explain.hpp\<close>: per-tenant accounting, cumulative statistics,
  the bounded event log, snapshots, and the text and JSON forms of an explanation.
\<close>

subsection \<open>Accounting records\<close>

record TenantService =
  ts_weight :: f64
  ts_scheduled_tokens :: u64
  ts_completed_requests :: u64
  ts_wait_total_ns :: Nanoseconds
  ts_outstanding :: u64
  ts_normalized_service :: f64
  ts_admitted_tokens :: u64

definition default_tenant :: TenantService where
  "default_tenant = \<lparr>ts_weight = f64_one, ts_scheduled_tokens = 0, ts_completed_requests = 0,
     ts_wait_total_ns = 0, ts_outstanding = 0, ts_normalized_service = f64_zero, ts_admitted_tokens = 0\<rparr>"

record DeviceWork =
  dw_groups_run :: u64
  dw_tokens_processed :: u64
  dw_busy_total_ns :: Nanoseconds
  dw_peak_reserved_bytes :: u64

record Stats =
  st_submitted :: u64
  st_admitted :: u64
  st_rejected :: u64
  st_cancelled :: u64
  st_retried :: u64
  st_completed :: u64
  st_failed_non_retryable :: u64
  st_expired :: u64
  st_deadline_missed :: u64
  st_groups_formed :: u64
  st_mem_underflow_flag :: u64
  st_scheduled_tokens :: u64
  st_completed_tokens :: u64
  st_chunk_count :: u64
  st_stale_authority_rejected :: u64
  st_duplicate_completion_rejected :: u64
  st_queue_delay_exceeded :: u64
  st_queue_depth :: u64
  st_waiting_tokens :: u64
  st_running_requests :: u64
  st_remaining_prefill_tokens :: u64
  st_reserved_memory_bytes :: u64
  st_available_memory_bytes :: u64
  st_queue_latency_total_ns :: Nanoseconds
  st_execution_latency_total_ns :: Nanoseconds
  st_queue_latency_samples :: u64
  st_execution_latency_samples :: u64
  st_rejection_by_reason :: "(ErrorCode, u64) alist"
  st_group_size_distribution :: "(u32, u64) alist"
  st_per_tenant :: "(TenantId, TenantService) alist"
  st_per_device :: "(DeviceId, DeviceWork) alist"

definition zero_stats :: Stats where
  "zero_stats = \<lparr>st_submitted = 0, st_admitted = 0, st_rejected = 0, st_cancelled = 0, st_retried = 0,
     st_completed = 0, st_failed_non_retryable = 0, st_expired = 0, st_deadline_missed = 0, st_groups_formed = 0,
     st_mem_underflow_flag = 0, st_scheduled_tokens = 0, st_completed_tokens = 0, st_chunk_count = 0,
     st_stale_authority_rejected = 0, st_duplicate_completion_rejected = 0, st_queue_delay_exceeded = 0,
     st_queue_depth = 0, st_waiting_tokens = 0, st_running_requests = 0, st_remaining_prefill_tokens = 0,
     st_reserved_memory_bytes = 0, st_available_memory_bytes = 0, st_queue_latency_total_ns = 0,
     st_execution_latency_total_ns = 0, st_queue_latency_samples = 0, st_execution_latency_samples = 0,
     st_rejection_by_reason = [], st_group_size_distribution = [], st_per_tenant = [], st_per_device = []\<rparr>"

record Snapshot =
  sn_queue_depth :: u64
  sn_waiting_tokens :: u64
  sn_running_requests :: u64
  sn_reserved_memory_bytes :: u64
  sn_remaining_prefill_tokens :: u64
  sn_completed_requests :: u64
  sn_waiting_request_ids :: "RequestId list"
  sn_running_request_ids :: "RequestId list"
  sn_stats :: Stats

subsection \<open>The event log\<close>

record Event =
  ev_time_ns :: Nanoseconds
  ev_type :: string
  ev_request_id :: RequestId
  ev_attempt_id :: AttemptId
  ev_detail :: string

record EventLog =
  el_events :: "Event list"
  el_capacity :: nat

definition mk_event_log :: "nat \<Rightarrow> EventLog" where
  "mk_event_log cap = \<lparr>el_events = [], el_capacity = cap\<rparr>"

definition record_event :: "Nanoseconds \<Rightarrow> string \<Rightarrow> RequestId \<Rightarrow> AttemptId \<Rightarrow> string \<Rightarrow> EventLog \<Rightarrow> EventLog" where
  "record_event t ty r a d l =
     (let es = el_events l @ [\<lparr>ev_time_ns = t, ev_type = ty, ev_request_id = r, ev_attempt_id = a, ev_detail = d\<rparr>]
      in l\<lparr>el_events := (if el_capacity l < length es then tl es else es)\<rparr>)"

lemma record_event_capacity [simp]: "el_capacity (record_event t ty r a d l) = el_capacity l"
  by (simp add: record_event_def Let_def)

text \<open>The newest \<open>n\<close> elements of a list.\<close>
definition last_n :: "nat \<Rightarrow> 'a list \<Rightarrow> 'a list" where
  "last_n n xs = drop (length xs - n) xs"

lemma last_n_snoc:
  assumes "n \<le> length xs"
  shows "tl (last_n n xs @ [x]) = last_n n (xs @ [x])"
proof -
  have "last_n n xs @ [x] = drop (length xs - n) (xs @ [x])"
    by (simp add: last_n_def)
  then have "tl (last_n n xs @ [x]) = drop (Suc (length xs - n)) (xs @ [x])"
    by (simp only: tl_drop drop_Suc)
  with assms show ?thesis by (simp only: last_n_def length_append_singleton Suc_diff_le)
qed

lemma record_event_last_n:
  assumes "el_events l = last_n (el_capacity l) h"
  shows "el_events (record_event t ty r a d l) =
    last_n (el_capacity l) (h @ [\<lparr>ev_time_ns = t, ev_type = ty, ev_request_id = r, ev_attempt_id = a, ev_detail = d\<rparr>])"
proof (cases "el_capacity l \<le> length h")
  case True
  then have "length (el_events l) = el_capacity l" by (simp add: assms last_n_def)
  with True show ?thesis
    by (simp add: record_event_def assms last_n_snoc)
next
  case False
  then have "el_events l = h" by (simp add: assms last_n_def)
  with False show ?thesis
    by (simp add: record_event_def last_n_def)
qed

type_synonym event_args = "Nanoseconds \<times> string \<times> RequestId \<times> AttemptId \<times> string"

primrec record_events :: "event_args list \<Rightarrow> EventLog \<Rightarrow> EventLog" where
  "record_events [] l = l"
| "record_events (e # es) l =
     (case e of (t, ty, r, a, d) \<Rightarrow> record_events es (record_event t ty r a d l))"

definition event_of :: "event_args \<Rightarrow> Event" where
  "event_of e = (case e of (t, ty, r, a, d) \<Rightarrow>
     \<lparr>ev_time_ns = t, ev_type = ty, ev_request_id = r, ev_attempt_id = a, ev_detail = d\<rparr>)"

lemma record_events_last_n:
  "el_events l = last_n (el_capacity l) h \<Longrightarrow>
   el_events (record_events es l) = last_n (el_capacity l) (h @ map event_of es)"
proof (induction es arbitrary: l h)
  case (Cons e es)
  obtain t ty r a d where e: "e = (t, ty, r, a, d)" by (cases e)
  show ?case
    using Cons.IH [OF record_event_last_n [OF Cons.prems, of t ty r a d, folded record_event_capacity [of t ty r a d l]]]
    by (simp add: e event_of_def)
qed simp

text \<open>
  (C37) Bounded retention: after any sequence of records the log holds exactly the newest
  \<open>capacity\<close> events, in the order they were recorded.
\<close>
theorem event_log_keeps_newest:
  "el_events (record_events es (mk_event_log cap)) = last_n cap (map event_of es) \<and>
   length (el_events (record_events es (mk_event_log cap))) = min cap (length es)"
  using record_events_last_n [of "mk_event_log cap" "[]" es]
  by (simp add: mk_event_log_def last_n_def min_def)

subsection \<open>Explanations\<close>

definition hex_digit :: "nat \<Rightarrow> char" where
  "hex_digit d = (if d < 10 then char_of (48 + d) else char_of (87 + d))"

text \<open>\<^verbatim>\<open>snprintf(buf, 8, "\u%04x", c)\<close> for a control character.\<close>
definition unicode_escape :: "char \<Rightarrow> string" where
  "unicode_escape c = [CHR 0x5C, CHR ''u'', CHR ''0'', CHR ''0'', hex_digit (of_char c div 16), hex_digit (of_char c mod 16)]"

definition json_escape_char :: "char \<Rightarrow> string" where
  "json_escape_char c =
     (if c = CHR 0x22 then [CHR 0x5C, CHR 0x22]
      else if c = CHR 0x5C then [CHR 0x5C, CHR 0x5C]
      else if c = CHR 0x0A then [CHR 0x5C, CHR ''n'']
      else if c = CHR 0x0D then [CHR 0x5C, CHR ''r'']
      else if c = CHR 0x09 then [CHR 0x5C, CHR ''t'']
      else if (of_char c :: nat) < 32 then unicode_escape c
      else [c])"

definition json_escape :: "string \<Rightarrow> string" where
  "json_escape s = concat (map json_escape_char s)"

record Explain =
  ex_request_id :: RequestId
  ex_attempt_id :: AttemptId
  ex_lifecycle :: string
  ex_trace :: "string list"

definition explain_to_text :: "Explain \<Rightarrow> string" where
  "explain_to_text e =
     ''request '' @ to_string_u64 (id_value (ex_request_id e)) @
     ''/attempt '' @ to_string_u64 (id_value (ex_attempt_id e)) @ '' lifecycle='' @ ex_lifecycle e @
     concat (map (\<lambda>t. CHR 0x0A # ''  - '' @ t) (ex_trace e))"

fun json_items :: "string list \<Rightarrow> string" where
  "json_items [] = ''''"
| "json_items [t] = [CHR 0x22] @ json_escape t @ [CHR 0x22]"
| "json_items (t # ts) = [CHR 0x22] @ json_escape t @ [CHR 0x22] @ '','' @ json_items ts"

definition explain_to_json :: "Explain \<Rightarrow> string" where
  "explain_to_json e =
     ''{'' @ [CHR 0x22] @ ''request_id'' @ [CHR 0x22] @ '':'' @ to_string_u64 (id_value (ex_request_id e)) @ '','' @
     [CHR 0x22] @ ''attempt_id'' @ [CHR 0x22] @ '':'' @ to_string_u64 (id_value (ex_attempt_id e)) @ '','' @
     [CHR 0x22] @ ''lifecycle'' @ [CHR 0x22, CHR '':'', CHR 0x22] @ json_escape (ex_lifecycle e) @ [CHR 0x22] @ '','' @
     [CHR 0x22] @ ''trace'' @ [CHR 0x22] @ '':['' @ json_items (ex_trace e) @ '']}''"

text \<open>The decoder of a JSON string body, as RFC 8259 reads it (only the escapes above occur).\<close>

definition hex_value :: "char \<Rightarrow> nat" where
  "hex_value c = (let n = of_char c in if n < 58 then n - 48 else n - 87)"

fun json_unescape :: "string \<Rightarrow> string option" where
  "json_unescape [] = Some []"
| "json_unescape (c # cs) =
     (if c = CHR 0x5C
      then (case cs of
              d # ds \<Rightarrow>
                (if d = CHR 0x22 then map_option (Cons (CHR 0x22)) (json_unescape ds)
                 else if d = CHR 0x5C then map_option (Cons (CHR 0x5C)) (json_unescape ds)
                 else if d = CHR ''n'' then map_option (Cons (CHR 0x0A)) (json_unescape ds)
                 else if d = CHR ''r'' then map_option (Cons (CHR 0x0D)) (json_unescape ds)
                 else if d = CHR ''t'' then map_option (Cons (CHR 0x09)) (json_unescape ds)
                 else if d = CHR ''u''
                 then (case ds of
                         h3 # h2 # h1 # h0 # es \<Rightarrow>
                           map_option (Cons (char_of (16 * hex_value h1 + hex_value h0))) (json_unescape es)
                       | _ \<Rightarrow> None)
                 else None)
            | [] \<Rightarrow> None)
      else if c = CHR 0x22 \<or> (of_char c :: nat) < 32 then None
      else map_option (Cons c) (json_unescape cs))"

declare json_unescape.simps(2) [simp del]

lemma hex_value_digit: "d < 16 \<Longrightarrow> hex_value (hex_digit d) = d"
  by (auto simp: hex_value_def hex_digit_def Let_def)

lemma json_unescape_char:
  "json_unescape (json_escape_char c @ s) = map_option (Cons c) (json_unescape s)"
proof (cases "(of_char c :: nat) < 32")
  case True
  then have "char_of (16 * (of_char c div 16) + of_char c mod 16 :: nat) = c"
    and "of_char c div 16 < (16 :: nat)" and "of_char c mod 16 < (16 :: nat)"
    by simp_all
  with True show ?thesis
    by (simp add: json_escape_char_def unicode_escape_def json_unescape.simps hex_value_digit)
next
  case False
  then show ?thesis
    by (simp add: json_escape_char_def json_unescape.simps)
qed


end
