(* ===== verification/PF_Bytes.thy ===== *)
theory PF_Bytes
  imports PF_Types
begin

text \<open>
  The byte codecs of \<^verbatim>\<open>persistence.hpp\<close>: \<^verbatim>\<open>ByteWriter\<close> as functions that give the bytes
  appended for a value, and the bounds-checked \<^verbatim>\<open>ByteReader\<close> as a state transformer over
  the buffer and the read offset. The relation \<open>reads\<close> says that a reader consumes exactly
  given bytes, wherever they stand in a buffer, and returns a given value; a codec is a
  writer and a reader that invert each other in this sense.
\<close>

subsection \<open>Writing\<close>

definition byte_of_char :: "char \<Rightarrow> u8" where
  "byte_of_char ch = of_nat (of_char ch)"

definition char_of_byte :: "u8 \<Rightarrow> char" where
  "char_of_byte b = char_of (unat b)"

definition bytes_of_string :: "string \<Rightarrow> u8 list" where
  "bytes_of_string s = map byte_of_char s"

text \<open>\<^verbatim>\<open>for (i = 0; i < n; ++i) buf.push_back((v >> (8 * i)) & 0xff)\<close>\<close>
definition le_bytes :: "nat \<Rightarrow> 'a::len word \<Rightarrow> u8 list" where
  "le_bytes n v = map (\<lambda>i. ucast (drop_bit (8 * i) v AND 255)) [0..<n]"

definition put_u8 :: "u8 \<Rightarrow> u8 list" where
  "put_u8 v = [v]"

definition put_u16 :: "u16 \<Rightarrow> u8 list" where
  "put_u16 v = [ucast (v AND 255), ucast (drop_bit 8 v AND 255)]"

definition put_u32 :: "u32 \<Rightarrow> u8 list" where
  "put_u32 v = le_bytes 4 v"

definition put_u64 :: "u64 \<Rightarrow> u8 list" where
  "put_u64 v = le_bytes 8 v"

definition put_i64 :: "int \<Rightarrow> u8 list" where
  "put_i64 v = put_u64 (word_of_int v)"

definition put_f64 :: "u64 \<Rightarrow> u8 list" where
  "put_f64 bits = put_u64 bits"

definition put_str :: "string \<Rightarrow> u8 list" where
  "put_str s = put_u64 (of_nat (length s)) @ bytes_of_string s"

definition put_strong :: "'tag StrongId \<Rightarrow> u8 list" where
  "put_strong i = put_u64 (id_value i)"

definition put_bool :: "bool \<Rightarrow> u8 list" where
  "put_bool b = put_u8 (if b then 1 else 0)"

subsection \<open>Reading\<close>

record ByteReader =
  rd_data :: "u8 list"
  rd_off :: nat

type_synonym 'a reader = "ByteReader \<Rightarrow> 'a Result \<times> ByteReader"

definition mk_reader :: "u8 list \<Rightarrow> ByteReader" where
  "mk_reader bs = \<lparr>rd_data = bs, rd_off = 0\<rparr>"

definition err_trunc :: ErrorInfo where
  "err_trunc = mk_error EC_truncation ''truncated persistence blob''"

definition rd_remaining :: "ByteReader \<Rightarrow> nat" where
  "rd_remaining r = length (rd_data r) - rd_off r"

text \<open>\<^verbatim>\<open>v |= static_cast<T>(p[off + i]) << (8 * i)\<close> over \<open>n\<close> bytes.\<close>
definition of_le_bytes :: "u8 list \<Rightarrow> 'a::len word" where
  "of_le_bytes bs = fold (\<lambda>(i, b) v. v OR push_bit (8 * i) (ucast b)) (enumerate 0 bs) 0"

definition get_le :: "nat \<Rightarrow> ('a::len word) reader" where
  "get_le n r =
     (if length (rd_data r) < rd_off r + n then (Inl err_trunc, r)
      else (Inr (of_le_bytes (take n (drop (rd_off r) (rd_data r)))), r\<lparr>rd_off := rd_off r + n\<rparr>))"

definition get_u8 :: "u8 reader" where
  "get_u8 r =
     (if length (rd_data r) < rd_off r + 1 then (Inl err_trunc, r)
      else (Inr (rd_data r ! rd_off r), r\<lparr>rd_off := rd_off r + 1\<rparr>))"

definition get_u16 :: "u16 reader" where "get_u16 = get_le 2"
definition get_u32 :: "u32 reader" where "get_u32 = get_le 4"
definition get_u64 :: "u64 reader" where "get_u64 = get_le 8"

definition rd_return :: "'a \<Rightarrow> 'a reader" where
  "rd_return v r = (Inr v, r)"

definition rd_fail :: "ErrorInfo \<Rightarrow> 'a reader" where
  "rd_fail e r = (Inl e, r)"

text \<open>\<^verbatim>\<open>auto v = g(); if (!v) return err(v.error()); ...\<close>\<close>
definition rd_bind :: "'a reader \<Rightarrow> ('a \<Rightarrow> 'b reader) \<Rightarrow> 'b reader" where
  "rd_bind g h r = (case g r of (Inl e, r') \<Rightarrow> (Inl e, r') | (Inr v, r') \<Rightarrow> h v r')"

definition get_i64 :: "int reader" where
  "get_i64 = rd_bind get_u64 (\<lambda>v. rd_return (sint v))"

definition get_f64 :: "u64 reader" where
  "get_f64 = rd_bind get_u64 rd_return"

definition get_str :: "string reader" where
  "get_str = rd_bind get_u64 (\<lambda>n r.
     if rd_remaining r < unat n then (Inl err_trunc, r)
     else if 2 ^ 32 < unat n then (Inl (mk_error EC_corrupt_state ''string length unreasonable''), r)
     else (Inr (map char_of_byte (take (unat n) (drop (rd_off r) (rd_data r)))), r\<lparr>rd_off := rd_off r + unat n\<rparr>))"

definition get_strong :: "('tag StrongId) reader" where
  "get_strong = rd_bind get_u64 (\<lambda>v. rd_return (StrongId v))"

text \<open>\<^verbatim>\<open>u8.value() != 0\<close>\<close>
definition get_bool :: "bool reader" where
  "get_bool = rd_bind get_u8 (\<lambda>v. rd_return (v \<noteq> 0))"

text \<open>\<^verbatim>\<open>for (i = 0; i < n; ++i) { auto v = g(); if (!v) return err; out.push_back(v); }\<close>\<close>
fun get_list :: "'a reader \<Rightarrow> nat \<Rightarrow> 'a list reader" where
  "get_list g 0 = rd_return []"
| "get_list g (Suc n) = rd_bind g (\<lambda>v. rd_bind (get_list g n) (\<lambda>vs. rd_return (v # vs)))"

subsection \<open>Readers invert writers\<close>

definition reads :: "'a reader \<Rightarrow> u8 list \<Rightarrow> 'a \<Rightarrow> bool" where
  "reads g bs v = (\<forall>pre rest.
     g \<lparr>rd_data = pre @ bs @ rest, rd_off = length pre\<rparr>
       = (Inr v, \<lparr>rd_data = pre @ bs @ rest, rd_off = length pre + length bs\<rparr>))"

named_theorems codec "one rule per writer and reader pair"

lemma reads_return [codec]: "reads (rd_return v) [] v"
  by (simp add: reads_def rd_return_def)

lemma reads_bind:
  assumes "reads g bs v" "reads (h v) bs' w"
  shows "reads (rd_bind g h) (bs @ bs') w"
proof (unfold reads_def, intro allI)
  fix pre rest
  have 1: "g \<lparr>rd_data = pre @ bs @ bs' @ rest, rd_off = length pre\<rparr>
      = (Inr v, \<lparr>rd_data = pre @ bs @ bs' @ rest, rd_off = length pre + length bs\<rparr>)"
    using assms(1) unfolding reads_def by (metis append_assoc)
  have 2: "h v \<lparr>rd_data = (pre @ bs) @ bs' @ rest, rd_off = length (pre @ bs)\<rparr>
      = (Inr w, \<lparr>rd_data = (pre @ bs) @ bs' @ rest, rd_off = length (pre @ bs) + length bs'\<rparr>)"
    using assms(2) unfolding reads_def by blast
  show "rd_bind g h \<lparr>rd_data = pre @ (bs @ bs') @ rest, rd_off = length pre\<rparr>
      = (Inr w, \<lparr>rd_data = pre @ (bs @ bs') @ rest, rd_off = length pre + length (bs @ bs')\<rparr>)"
    using 1 2 by (simp add: rd_bind_def add.assoc)
qed

lemma reads_bind_nil: "reads g bs v \<Longrightarrow> reads (h v) [] w \<Longrightarrow> reads (rd_bind g h) bs w"
  using reads_bind [of g bs v h "[]" w] by simp

lemma le_bytes_length [simp]: "length (le_bytes n v) = n"
  by (simp add: le_bytes_def)

lemma fold_le_bytes:
  fixes v :: "'a::len word"
  shows "fold (\<lambda>(i, b) x. x OR push_bit (8 * i) (ucast b)) (enumerate k (map (\<lambda>i. ucast (drop_bit (8 * i) v AND 255) :: u8) [k..<k + n])) x
       = x OR push_bit (8 * k) (take_bit (8 * n) (drop_bit (8 * k) v))"
proof (induction n arbitrary: k x)
  case (Suc n)
  let ?b = "\<lambda>i. (ucast (drop_bit (8 * i) v AND 255) :: u8)"
  have head: "(push_bit (8 * k) (ucast (?b k)) :: 'a word) = push_bit (8 * k) (take_bit 8 (drop_bit (8 * k) v))"
  proof -
    have m: "(255 :: 'a word) = mask 8" by (simp add: mask_eq_exp_minus_1)
    have "bit (255 :: 'a word) i \<longleftrightarrow> i < 8 \<and> i < LENGTH('a)" for i
      unfolding m bit_mask_iff by (auto simp: possible_bit_word)
    then have "(ucast (?b k) :: 'a word) = take_bit 8 (drop_bit (8 * k) v)"
      by (intro bit_word_eqI) (auto simp: bit_simps)
    then show ?thesis by simp
  qed
  have "[k..<k + Suc n] = k # [Suc k..<Suc k + n]"
    by (simp add: upt_conv_Cons)
  then have "fold (\<lambda>(i, b) x. x OR push_bit (8 * i) (ucast b)) (enumerate k (map ?b [k..<k + Suc n])) x
      = (x OR push_bit (8 * k) (ucast (?b k))) OR push_bit (8 * Suc k) (take_bit (8 * n) (drop_bit (8 * Suc k) v))"
    using Suc.IH [of "Suc k" "x OR push_bit (8 * k) (ucast (?b k))"] by simp
  also have "\<dots> = x OR (push_bit (8 * k) (take_bit 8 (drop_bit (8 * k) v))
      OR push_bit (8 * Suc k) (take_bit (8 * n) (drop_bit (8 * Suc k) v)))"
    by (simp only: head or.assoc)
  also have "push_bit (8 * k) (take_bit 8 (drop_bit (8 * k) v))
      OR push_bit (8 * Suc k) (take_bit (8 * n) (drop_bit (8 * Suc k) v))
      = push_bit (8 * k) (take_bit (8 * Suc n) (drop_bit (8 * k) v))" (is "?l = ?r")
  proof (rule bit_word_eqI)
    fix m assume "m < LENGTH('a)"
    then show "bit ?l m \<longleftrightarrow> bit ?r m"
      by (cases "8 * Suc k \<le> m") (auto simp: bit_simps)
  qed
  finally show ?case .
qed (simp add: enumerate_eq_zip)

lemma of_le_bytes_le_bytes:
  fixes v :: "'a::len word"
  assumes "LENGTH('a) \<le> 8 * n"
  shows "(of_le_bytes (le_bytes n v) :: 'a word) = v"
  using fold_le_bytes [of 0 v n 0] assms
  by (simp add: of_le_bytes_def le_bytes_def take_bit_word_eq_self)

lemma drop_at [simp]: "drop (length pre) (pre @ bs) = bs" "take (length bs) (bs @ rest) = bs"
  by simp_all

lemma reads_le:
  fixes v :: "'a::len word"
  assumes "LENGTH('a) \<le> 8 * n"
  shows "reads (get_le n) (le_bytes n v) v"
  using of_le_bytes_le_bytes [OF assms, of v] by (simp add: reads_def get_le_def)

lemma reads_u8 [codec]: "reads get_u8 (put_u8 v) v"
  by (simp add: reads_def get_u8_def put_u8_def)

lemma put_u16_le: "put_u16 v = le_bytes 2 v"
  by (simp add: put_u16_def le_bytes_def numeral_2_eq_2)

lemma reads_u16 [codec]: "reads get_u16 (put_u16 v) v"
  by (simp add: get_u16_def put_u16_le reads_le)

lemma reads_u32 [codec]: "reads get_u32 (put_u32 v) v"
  by (simp add: get_u32_def put_u32_def reads_le)

lemma reads_u64 [codec]: "reads get_u64 (put_u64 v) v"
  by (simp add: get_u64_def put_u64_def reads_le)

lemma sint_word_of_int_64:
  assumes "- (2 ^ 63) \<le> v" "v < 2 ^ 63"
  shows "sint (word_of_int v :: u64) = v"
  using signed_take_bit_int_eq_self [of 63 v] assms by (simp add: sint_sbintrunc')

lemma reads_i64 [codec]: "- (2 ^ 63) \<le> v \<Longrightarrow> v < 2 ^ 63 \<Longrightarrow> reads get_i64 (put_i64 v) v"
  unfolding get_i64_def put_i64_def
  by (rule reads_bind_nil [OF reads_u64]) (simp add: sint_word_of_int_64 reads_return)

lemma reads_f64 [codec]: "reads get_f64 (put_f64 v) v"
  unfolding get_f64_def put_f64_def by (rule reads_bind_nil [OF reads_u64 reads_return])

lemma reads_strong [codec]: "reads get_strong (put_strong i) i"
  unfolding get_strong_def put_strong_def
  by (rule reads_bind_nil [OF reads_u64]) (simp add: reads_return)

lemma reads_bool [codec]: "reads get_bool (put_bool b) b"
  unfolding get_bool_def put_bool_def
  by (rule reads_bind_nil [OF reads_u8]) (simp add: reads_return)

lemma char_byte_inverse [simp]: "char_of_byte (byte_of_char ch) = ch"
  by (simp add: char_of_byte_def byte_of_char_def unat_of_nat)

text \<open>A string is written faithfully when its length is one the reader accepts.\<close>
lemma reads_str [codec]:
  assumes "length s \<le> 2 ^ 32"
  shows "reads get_str (put_str s) s"
  unfolding get_str_def put_str_def
proof (rule reads_bind [OF reads_u64])
  have len: "unat (of_nat (length s) :: u64) = length s"
    using assms by (simp add: unat_of_nat_64)
  have "map char_of_byte (bytes_of_string s) = s"
    by (simp add: bytes_of_string_def comp_def)
  then show "reads (\<lambda>r. if rd_remaining r < unat (of_nat (length s) :: u64) then (Inl err_trunc, r)
      else if 2 ^ 32 < unat (of_nat (length s) :: u64) then (Inl (mk_error EC_corrupt_state ''string length unreasonable''), r)
      else (Inr (map char_of_byte (take (unat (of_nat (length s) :: u64)) (drop (rd_off r) (rd_data r)))),
            r\<lparr>rd_off := rd_off r + unat (of_nat (length s) :: u64)\<rparr>)) (bytes_of_string s) s"
    using assms unfolding len by (simp add: reads_def rd_remaining_def bytes_of_string_def)
qed

text \<open>An array is the concatenation of its elements; the count is read separately.\<close>
lemma reads_list:
  assumes "\<And>v. v \<in> set vs \<Longrightarrow> reads g (put v) v"
  shows "reads (get_list g (length vs)) (concat (map put vs)) vs"
  using assms
proof (induction vs)
  case Nil
  show ?case by (simp add: reads_return)
next
  case (Cons v vs)
  have "reads (rd_bind g (\<lambda>v. rd_bind (get_list g (length vs)) (\<lambda>vs. rd_return (v # vs))))
      (put v @ concat (map put vs)) (v # vs)"
  proof (rule reads_bind)
    show "reads g (put v) v" by (simp add: Cons.prems)
    show "reads (rd_bind (get_list g (length vs)) (\<lambda>vs. rd_return (v # vs))) (concat (map put vs)) (v # vs)"
      using Cons by (intro reads_bind_nil [where v = vs] reads_return) auto
  qed
  then show ?case by simp
qed

end
