(* ===== verification/PF_Compat.thy ===== *)
theory PF_Compat
  imports PF_Bytes PF_Request
begin

text \<open>
  \<^verbatim>\<open>compatibility.hpp\<close> and the key construction of \<^verbatim>\<open>scheduler.cpp\<close>: the FNV-1a hash, the
  typed packing key, packing decisions and their text. Objects hashed by address
  (\<^verbatim>\<open>fnv1a64(h, &relation, sizeof(relation))\<close>) are hashed in little-endian byte order, the
  representation on the supported targets.
\<close>

subsection \<open>FNV-1a\<close>

definition fnv_prime :: u64 where "fnv_prime = 1099511628211"
definition fnv_basis :: u64 where "fnv_basis = 1469598103934665603"

definition fnv_step :: "u8 \<Rightarrow> u64 \<Rightarrow> u64" where
  "fnv_step b h = (h XOR ucast b) * fnv_prime"

definition fnv1a64 :: "u64 \<Rightarrow> u8 list \<Rightarrow> u64" where
  "fnv1a64 h bs = fold fnv_step bs h"

definition fnv1a64_str :: "u64 \<Rightarrow> string \<Rightarrow> u64" where
  "fnv1a64_str h s = fnv1a64 h (bytes_of_string s)"

subsection \<open>Compatibility keys\<close>

record CompatibilityKey =
  ck_model :: ModelKey
  ck_base_model :: string
  ck_relation :: AdapterRelation
  ck_backend :: string
  ck_device :: DeviceId
  ck_layout :: InputLayout
  ck_numeric_mode :: NumericMode
  ck_vocab :: VocabSpec
  ck_executor_family :: string
  ck_policy_fingerprint :: string

definition default_key :: CompatibilityKey where
  "default_key = \<lparr>ck_model = \<lparr>model_name = '''', model_revision = ''''\<rparr>, ck_base_model = '''',
     ck_relation = AR_none, ck_backend = kBackendAny, ck_device = nil_id, ck_layout = IL_seq_major,
     ck_numeric_mode = NM_fp32, ck_vocab = \<lparr>tokenizer = '''', vocab_size = 0\<rparr>,
     ck_executor_family = '''', ck_policy_fingerprint = ''''\<rparr>"

text \<open>The four bytes of an enumeration object.\<close>
definition enum_bytes :: "int \<Rightarrow> u8 list" where
  "enum_bytes n = le_bytes 4 (word_of_int n :: u32)"

definition key_hash :: "CompatibilityKey \<Rightarrow> u64" where
  "key_hash k =
     (let h = fnv_basis;
          h = fnv1a64_str h (model_name (ck_model k));
          h = fnv1a64_str h (model_revision (ck_model k));
          h = fnv1a64_str h (ck_base_model k);
          h = fnv1a64 h (enum_bytes (AdapterRelation_code (ck_relation k)));
          h = fnv1a64_str h (ck_backend k);
          h = fnv1a64 h (put_strong (ck_device k));
          h = fnv1a64 h (enum_bytes (InputLayout_code (ck_layout k)));
          h = fnv1a64 h (enum_bytes (NumericMode_code (ck_numeric_mode k)));
          h = fnv1a64_str h (tokenizer (ck_vocab k));
          h = fnv1a64 h (put_u64 (vocab_size (ck_vocab k)));
          h = fnv1a64_str h (ck_executor_family k);
          h = fnv1a64_str h (ck_policy_fingerprint k)
      in h)"

definition make_compat_key :: "PrefillRequest \<Rightarrow> SchedulerConfig \<Rightarrow> CompatibilityKey" where
  "make_compat_key r c =
     (let backend = (if req_backend r = [] then kBackendAny else req_backend r)
      in \<lparr>ck_model = req_model r,
          ck_base_model = model_name (req_model r),
          ck_relation = adapter_relation r,
          ck_backend = backend,
          ck_device = req_device r,
          ck_layout = input_layout r,
          ck_numeric_mode = numeric_mode r,
          ck_vocab = req_vocab r,
          ck_executor_family = (if backend = kBackendAny then ''default'' else backend),
          ck_policy_fingerprint = to_string_u32 (cf_max_requests_per_group c) @ ''|'' @
             to_string_u64 (cf_max_tokens_per_group c) @ ''|'' @ to_string_u64 (cf_max_memory_per_chunk c)\<rparr>)"

subsection \<open>Decisions\<close>

record CompatibilityReason =
  cr_code :: int
  cr_text :: string

record CompatibilityDecision =
  cd_compatible :: bool
  cd_reasons :: "CompatibilityReason list"
  cd_key :: CompatibilityKey
  cd_non_compat_reason_count :: int

definition decision_text :: "CompatibilityDecision \<Rightarrow> string" where
  "decision_text d =
     (let s = (if cd_compatible d then ''compatible'' else ''not compatible'')
      in if cd_reasons d = [] then s
         else foldl (\<lambda>s r. s @ '' ['' @ to_string_int (cr_code r) @ ''] '' @ cr_text r) (s @ '':'') (cd_reasons d))"

subsection \<open>FNV-1a as a checksum\<close>

lemma fnv_append [simp]: "fnv1a64 h (xs @ ys) = fnv1a64 (fnv1a64 h xs) ys"
  by (simp add: fnv1a64_def)

lemma fnv_prime_inverse: "a * fnv_prime * 14886173955864302971 = a"
proof -
  have "fnv_prime * 14886173955864302971 = 1" by (simp add: fnv_prime_def)
  then show ?thesis by (simp only: mult.assoc mult_1_right)
qed

lemma fnv_prime_invertible: "a * fnv_prime = b * fnv_prime \<Longrightarrow> a = b"
proof -
  assume e: "a * fnv_prime = b * fnv_prime"
  have "a = a * fnv_prime * 14886173955864302971" by (rule fnv_prime_inverse [symmetric])
  also have "\<dots> = b * fnv_prime * 14886173955864302971" by (simp only: e)
  also have "\<dots> = b" by (rule fnv_prime_inverse)
  finally show "a = b" .
qed

lemma xor_cancel_right: "(a :: u64) XOR c = b XOR c \<Longrightarrow> a = b"
proof -
  assume e: "a XOR c = b XOR c"
  have "(a XOR c) XOR c = (b XOR c) XOR c" by (simp only: e)
  then show "a = b" by (simp add: xor.assoc)
qed

lemma fnv_step_inj_state: "fnv_step b h = fnv_step b h' \<Longrightarrow> h = h'"
  unfolding fnv_step_def by (blast dest: fnv_prime_invertible xor_cancel_right)

lemma ucast_u8_inj: "(ucast (a :: u8) :: u64) = ucast b \<Longrightarrow> a = b"
proof -
  assume "(ucast a :: u64) = ucast b"
  then have "(ucast (ucast a :: u64) :: u8) = ucast (ucast b :: u64)" by simp
  then show "a = b" by (simp add: unsigned_ucast_eq take_bit_word_eq_self)
qed

lemma fnv_step_inj_byte: "fnv_step b h = fnv_step b' h \<Longrightarrow> b = b'"
proof -
  assume "fnv_step b h = fnv_step b' h"
  then have "h XOR ucast b = h XOR ucast b'"
    unfolding fnv_step_def by (rule fnv_prime_invertible)
  then have "ucast b XOR h = ucast b' XOR h"
    by (simp only: xor.commute [of h])
  then have "(ucast b :: u64) = ucast b'" by (rule xor_cancel_right)
  then show "b = b'" by (rule ucast_u8_inj)
qed

lemma fnv_inj_state: "fnv1a64 h bs = fnv1a64 h' bs \<Longrightarrow> h = h'"
  by (induction bs arbitrary: h h') (auto simp: fnv1a64_def dest: fnv_step_inj_state)

text \<open>Two buffers that differ in exactly one byte have different hashes.\<close>
lemma fnv_detects_byte:
  assumes "fnv1a64 h (xs @ a # ys) = fnv1a64 h (xs @ b # ys)"
  shows "a = b"
proof -
  have "fnv_step a (fnv1a64 h xs) = fnv_step b (fnv1a64 h xs)"
    by (rule fnv_inj_state [where bs = ys]) (use assms in \<open>simp add: fnv1a64_def\<close>)
  then show ?thesis by (rule fnv_step_inj_byte)
qed

text \<open>
  Requests scheduled under one configuration get the same key exactly when every
  attribute that matters for packing agrees (an empty backend counts as \<open>*\<close>).
\<close>
lemma make_compat_key_eq_iff:
  "make_compat_key a c = make_compat_key b c \<longleftrightarrow>
     req_model a = req_model b \<and> adapter_relation a = adapter_relation b \<and>
     (if req_backend a = [] then kBackendAny else req_backend a)
       = (if req_backend b = [] then kBackendAny else req_backend b) \<and>
     req_device a = req_device b \<and> input_layout a = input_layout b \<and>
     numeric_mode a = numeric_mode b \<and> req_vocab a = req_vocab b"
  by (auto simp: make_compat_key_def Let_def)

end
