(* ===== verification/PF_Executor.thy ===== *)
theory PF_Executor
  imports PF_Compat
begin

text \<open>
  \<^verbatim>\<open>executor.hpp\<close>, \<^verbatim>\<open>frontend_math.hpp\<close>, \<^verbatim>\<open>cpu_executor.cpp\<close> and \<^verbatim>\<open>cuda_executor.cu\<close>: descriptors,
  execution groups, the token resolver, the digest every executor must produce, and the CPU
  and CUDA executors.  The CUDA runtime is a parameter: the results of its calls and the order
  in which the threads of a launch perform their atomic additions.
\<close>

unbundle bit_operations_syntax

subsection \<open>Descriptors, groups and results\<close>

record DeviceDescriptor =
  dd_id :: DeviceId
  dd_name :: string
  dd_backend :: string
  dd_total_memory_bytes :: u64
  dd_available_memory_bytes :: u64
  dd_capability :: string
  dd_available :: bool

definition default_device :: DeviceDescriptor where
  "default_device = \<lparr>dd_id = nil_id, dd_name = '''', dd_backend = kBackendCpu, dd_total_memory_bytes = 0,
     dd_available_memory_bytes = 0, dd_capability = '''', dd_available = False\<rparr>"

record WorkerDescriptor =
  wd_worker_id :: WorkerId
  wd_boot_id :: WorkerBootId
  wd_host :: string
  wd_port :: u32
  wd_backend :: string
  wd_devices :: "DeviceDescriptor list"
  wd_state :: WorkerState
  wd_capacity_units :: u64
  wd_info :: string

definition default_worker :: WorkerDescriptor where
  "default_worker = \<lparr>wd_worker_id = nil_id, wd_boot_id = nil_id, wd_host = '''', wd_port = 0,
     wd_backend = kBackendAny, wd_devices = [], wd_state = WS_unknown, wd_capacity_units = 1, wd_info = ''''\<rparr>"

record ExecutableMember =
  em_request_id :: RequestId
  em_attempt_id :: AttemptId
  em_generation :: Generation
  em_parent_generation :: Generation
  em_token_start :: u64
  em_token_count :: u64
  em_work_kind :: WorkKind
  em_memory_estimate_bytes :: u64
  em_compute_estimate :: u64
  em_assigned_worker :: WorkerId
  em_member_index :: u32

record ExecutionGroup =
  eg_group_id :: GroupId
  eg_key :: CompatibilityKey
  eg_backend :: string
  eg_device :: DeviceId
  eg_members :: "ExecutableMember list"
  eg_total_token_count :: u64
  eg_max_memory_estimate_bytes :: u64
  eg_sum_compute_estimate :: u64

definition default_group :: ExecutionGroup where
  "default_group = \<lparr>eg_group_id = nil_id, eg_key = default_key, eg_backend = kBackendAny, eg_device = nil_id,
     eg_members = [], eg_total_token_count = 0, eg_max_memory_estimate_bytes = 0, eg_sum_compute_estimate = 0\<rparr>"

record MemberResult =
  mr_request_id :: RequestId
  mr_attempt_id :: AttemptId
  mr_generation :: Generation
  mr_outcome :: MemberOutcome
  mr_tokens_completed :: u64
  mr_digest :: u64
  mr_failure_code :: ErrorCode
  mr_message :: string
  mr_next_token_start :: u64
  mr_requires_next_chunk :: bool
  mr_epoch :: Epoch
  mr_worker :: WorkerId
  mr_boot :: WorkerBootId

definition default_member_result :: MemberResult where
  "default_member_result = \<lparr>mr_request_id = nil_id, mr_attempt_id = nil_id, mr_generation = nil_id,
     mr_outcome = MO_success, mr_tokens_completed = 0, mr_digest = 0, mr_failure_code = EC_ok, mr_message = '''',
     mr_next_token_start = 0, mr_requires_next_chunk = False, mr_epoch = nil_id, mr_worker = nil_id, mr_boot = nil_id\<rparr>"

definition is_terminal_success :: "MemberResult \<Rightarrow> bool" where
  "is_terminal_success r \<longleftrightarrow> mr_outcome r = MO_success \<and> \<not> mr_requires_next_chunk r"

record ExecutorResult =
  er_group_succeeded :: bool
  er_members :: "MemberResult list"
  er_executor_family :: string
  er_elapsed_ns :: Nanoseconds
  er_status_message :: string

definition default_executor_result :: ExecutorResult where
  "default_executor_result = \<lparr>er_group_succeeded = False, er_members = [], er_executor_family = '''',
     er_elapsed_ns = 0, er_status_message = ''''\<rparr>"

subsection \<open>Token resolution\<close>

text \<open>A resolved pointer is the list of tokens from it to the end of its buffer.\<close>
type_synonym token_resolver = "RequestId \<Rightarrow> AttemptId \<Rightarrow> Generation \<Rightarrow> u64 \<Rightarrow> u64 \<Rightarrow> u32 list Result"

type_synonym token_store = "(RequestId, u32 list) alist"

definition register_request :: "PrefillRequest \<Rightarrow> u32 list \<Rightarrow> token_store \<Rightarrow> unit Result \<times> token_store" where
  "register_request req toks ts =
     (if length toks \<noteq> unat (prompt_token_count req)
      then (res_err EC_invalid_argument ''token buffer length != prompt_token_count'', ts)
      else (res_ok (), AList.update (request_id req) toks ts))"

definition resolve_tokens :: "token_store \<Rightarrow> token_resolver" where
  "resolve_tokens ts r a g offset cnt =
     (case map_of ts r of
        None \<Rightarrow> res_err EC_unknown_request ''no token data for request''
      | Some toks \<Rightarrow>
          if length toks < unat (offset + cnt)
          then res_err EC_unknown_request ''no token data for request''
          else res_ok (drop (unat offset) toks))"

subsection \<open>The frontend digest\<close>

definition kFfM1 :: u64 where "kFfM1 = 0x5851F42D4C957F2D"
definition kFfM2 :: u64 where "kFfM2 = 0x94D049BB133111EB"
definition kFfM3 :: u64 where "kFfM3 = 0x9E3779B97F4A7C15"
definition kFfM4 :: u64 where "kFfM4 = 0xBF58476D1CE4E5B9"

definition ff_token_position_value :: "u64 \<Rightarrow> u64 \<Rightarrow> u64" where
  "ff_token_position_value token position =
     (token * kFfM1) XOR (position * kFfM2) XOR (push_bit 7 position AND NOT 0)"

text \<open>The accumulator after the first \<open>n\<close> iterations of the loop.\<close>
primrec ff_accumulate :: "u32 list \<Rightarrow> u64 \<Rightarrow> nat \<Rightarrow> u64" where
  "ff_accumulate toks start 0 = 0"
| "ff_accumulate toks start (Suc n) =
     ff_accumulate toks start n + ff_token_position_value (ucast (toks ! n)) (start + of_nat n)"

text \<open>\<^verbatim>\<open>h ^= v + 0x9e37... + (h << 6) + (h >> 2)\<close>; \<^verbatim>\<open>mix_id\<close> in the CUDA file.\<close>
definition mix_id :: "u64 \<Rightarrow> u64 \<Rightarrow> u64" where
  "mix_id h v = h XOR (v + 0x9e3779b97f4a7c15 + push_bit 6 h + drop_bit 2 h)"

definition ff_member_digest :: "RequestId \<Rightarrow> AttemptId \<Rightarrow> Generation \<Rightarrow> u32 list \<Rightarrow> u64 \<Rightarrow> u64 \<Rightarrow> u64" where
  "ff_member_digest r a g toks token_start cnt =
     (let acc = ff_accumulate toks token_start (unat cnt);
          h = kFfM3 XOR id_value r;
          h = mix_id h (id_value a);
          h = mix_id h (id_value g);
          h = mix_id h cnt
      in h XOR (acc * kFfM4))"

subsection \<open>The CPU executor\<close>

definition member_result_of :: "ExecutableMember \<Rightarrow> MemberResult" where
  "member_result_of m = default_member_result
     \<lparr>mr_request_id := em_request_id m, mr_attempt_id := em_attempt_id m, mr_generation := em_generation m,
      mr_tokens_completed := em_token_count m, mr_next_token_start := em_token_start m + em_token_count m,
      mr_requires_next_chunk := False, mr_outcome := MO_success\<rparr>"

definition member_failure :: "ErrorCode \<Rightarrow> string \<Rightarrow> MemberResult \<Rightarrow> MemberResult" where
  "member_failure code msg r =
     r\<lparr>mr_outcome := MO_non_retryable_failure, mr_failure_code := code, mr_message := msg\<rparr>"

definition push_member :: "bool \<Rightarrow> MemberResult \<Rightarrow> ExecutorResult \<Rightarrow> ExecutorResult" where
  "push_member good r out =
     out\<lparr>er_group_succeeded := er_group_succeeded out \<and> good, er_members := er_members out @ [r]\<rparr>"

definition cpu_member :: "token_resolver \<Rightarrow> ExecutableMember \<Rightarrow> bool \<times> MemberResult" where
  "cpu_member tokens m =
     (let mr = member_result_of m in
      if em_token_count m = 0
      then (False, member_failure EC_invalid_argument ''zero-token member'' mr)
      else case tokens (em_request_id m) (em_attempt_id m) (em_generation m) (em_token_start m) (em_token_count m) of
             Inl e \<Rightarrow> (False, member_failure (err_code e) (err_message e) mr)
           | Inr tok \<Rightarrow>
               (True, mr\<lparr>mr_digest := ff_member_digest (em_request_id m) (em_attempt_id m) (em_generation m)
                                        tok (em_token_start m) (em_token_count m)\<rparr>))"

primrec cpu_loop :: "token_resolver \<Rightarrow> ExecutableMember list \<Rightarrow> ExecutorResult \<Rightarrow> ExecutorResult" where
  "cpu_loop tokens [] out = out"
| "cpu_loop tokens (m # ms) out =
     cpu_loop tokens ms (case cpu_member tokens m of (good, r) \<Rightarrow> push_member good r out)"

definition cpu_execute :: "ExecutionGroup \<Rightarrow> token_resolver \<Rightarrow> ExecutorResult Result" where
  "cpu_execute grp tokens =
     res_ok (cpu_loop tokens (eg_members grp)
       (default_executor_result\<lparr>er_executor_family := ''cpu'', er_group_succeeded := True\<rparr>))"

text \<open>The virtual interface: \<open>x_execute n\<close> is the outcome of the \<open>n\<close>-th call to \<^verbatim>\<open>execute\<close>.\<close>
record Executor =
  x_execute :: "nat \<Rightarrow> ExecutionGroup \<Rightarrow> token_resolver \<Rightarrow> ExecutorResult Result"
  x_name :: string
  x_available :: bool
  x_device :: DeviceDescriptor
  x_backend :: string

definition CpuExecutor :: "DeviceDescriptor \<Rightarrow> Executor" where
  "CpuExecutor dev = \<lparr>x_execute = (\<lambda>_. cpu_execute), x_name = ''cpu'', x_available = True,
     x_device = dev, x_backend = kBackendCpu\<rparr>"

definition cpu0 :: DeviceDescriptor where
  "cpu0 = \<lparr>dd_id = StrongId 1, dd_name = ''cpu0'', dd_backend = kBackendCpu, dd_total_memory_bytes = 0,
     dd_available_memory_bytes = 0, dd_capability = '''', dd_available = True\<rparr>"

subsection \<open>The CUDA executor\<close>

text \<open>
  What the CUDA runtime answered, per member of the group: \<open>None\<close> is \<^verbatim>\<open>cudaSuccess\<close> and
  \<open>Some s\<close> an error whose string is \<open>s\<close>.  \<open>cu_acc_init\<close> is the accumulator in device memory after
  the (unchecked) memset; \<open>cu_order\<close> the order in which the launched threads ran;
  \<open>cu_copy_out\<close> whether the (unchecked) copy back succeeded.
\<close>
record cuda_runtime =
  cu_available :: bool
  cu_set_device :: bool
  cu_malloc_tokens :: "nat \<Rightarrow> string option"
  cu_malloc_acc :: "nat \<Rightarrow> string option"
  cu_acc_init :: "nat \<Rightarrow> u64"
  cu_copy_in :: "nat \<Rightarrow> string option"
  cu_launch :: "nat \<Rightarrow> string option"
  cu_order :: "nat \<Rightarrow> (nat \<times> nat) list"
  cu_copy_out :: "nat \<Rightarrow> bool"
  cu_last_error :: "string option"
  cu_free_before :: u64
  cu_free_after :: u64

definition kDevM1 :: u64 where "kDevM1 = 0x5851F42D4C957F2D"
definition kDevM2 :: u64 where "kDevM2 = 0x94D049BB133111EB"

text \<open>One thread: \<open>blockIdx.x * blockDim.x + threadIdx.x\<close> is computed in 32 bits, then widened.\<close>
definition ff_reduce_kernel :: "u32 list \<Rightarrow> u64 \<Rightarrow> int \<Rightarrow> nat \<times> nat \<Rightarrow> u64 \<Rightarrow> u64" where
  "ff_reduce_kernel toks token_start n bt acc =
     (let idx = uint (of_nat (fst bt) * 256 + of_nat (snd bt) :: u32) in
      if n \<le> idx then acc
      else let pos = token_start + of_int idx;
               t = ucast (toks ! nat idx) :: u64;
               v = (t * kDevM1) XOR (pos * kDevM2) XOR (push_bit 7 pos AND NOT 0)
           in acc + v)"

text \<open>\<^verbatim>\<open>(n + 255) / 256\<close> narrowed to \<^verbatim>\<open>int\<close>.\<close>
definition cuda_blocks :: "u64 \<Rightarrow> int" where
  "cuda_blocks cnt = signed_take_bit 31 ((sint cnt + 255) div 256)"

definition cuda_grid :: "nat \<Rightarrow> (nat \<times> nat) list" where
  "cuda_grid blocks = List.product [0..<blocks] [0..<256]"

definition cuda_member :: "cuda_runtime \<Rightarrow> token_resolver \<Rightarrow> nat \<Rightarrow> ExecutableMember \<Rightarrow> bool \<times> MemberResult" where
  "cuda_member rt tokens k m =
     (let mr = member_result_of m in
      if em_token_count m = 0
      then (False, member_failure EC_invalid_argument ''zero-token cuda member'' mr)
      else case tokens (em_request_id m) (em_attempt_id m) (em_generation m) (em_token_start m) (em_token_count m) of
             Inl e \<Rightarrow> (False, member_failure (err_code e) (err_message e) mr)
           | Inr tok \<Rightarrow>
      (case cu_malloc_tokens rt k of Some s \<Rightarrow> (False, member_failure EC_cuda_error s mr) | None \<Rightarrow>
      (case cu_malloc_acc rt k of Some s \<Rightarrow> (False, member_failure EC_cuda_error s mr) | None \<Rightarrow>
      (case cu_copy_in rt k of Some s \<Rightarrow> (False, member_failure EC_cuda_error s mr) | None \<Rightarrow>
      (case cu_launch rt k of Some s \<Rightarrow> (False, member_failure EC_cuda_error s mr) | None \<Rightarrow>
         let n = sint (em_token_count m);
             d_acc = fold (ff_reduce_kernel tok (em_token_start m) n) (cu_order rt k) (cu_acc_init rt k);
             acc = (if cu_copy_out rt k then d_acc else 0);
             h = kFfM3 XOR id_value (em_request_id m);
             h = mix_id h (id_value (em_attempt_id m));
             h = mix_id h (id_value (em_generation m));
             h = mix_id h (word_of_int n)
         in (True, mr\<lparr>mr_digest := h XOR (acc * kFfM4)\<rparr>))))))"

primrec cuda_loop :: "cuda_runtime \<Rightarrow> token_resolver \<Rightarrow> nat \<Rightarrow> ExecutableMember list \<Rightarrow> ExecutorResult \<Rightarrow> ExecutorResult" where
  "cuda_loop rt tokens k [] out = out"
| "cuda_loop rt tokens k (m # ms) out =
     cuda_loop rt tokens (Suc k) ms (case cuda_member rt tokens k m of (good, r) \<Rightarrow> push_member good r out)"

definition cuda_execute :: "cuda_runtime \<Rightarrow> ExecutionGroup \<Rightarrow> token_resolver \<Rightarrow> ExecutorResult Result" where
  "cuda_execute rt grp tokens =
     (if \<not> cu_available rt then res_err EC_cuda_unavailable ''CUDA not available''
      else if \<not> cu_set_device rt then res_err EC_cuda_error ''cudaSetDevice failed''
      else
        let out = cuda_loop rt tokens 0 (eg_members grp)
                    (default_executor_result\<lparr>er_executor_family := ''cuda'', er_group_succeeded := True\<rparr>);
            out = (case cu_last_error rt of
                     None \<Rightarrow> out
                   | Some s \<Rightarrow> out\<lparr>er_group_succeeded := False, er_status_message := s\<rparr>);
            out = (if cu_free_before rt \<le> cu_free_after rt + 16 * 1024 * 1024
                   then out\<lparr>er_status_message := ''mem-cleanup-verified''\<rparr>
                   else out\<lparr>er_group_succeeded := False, er_status_message := ''device memory not recovered''\<rparr>)
        in res_ok out)"

definition CudaExecutor :: "(nat \<Rightarrow> cuda_runtime) \<Rightarrow> DeviceDescriptor \<Rightarrow> Executor" where
  "CudaExecutor rt dev = \<lparr>x_execute = (\<lambda>n. cuda_execute (rt n)), x_name = ''cuda'', x_available = cu_available (rt 0),
     x_device = dev, x_backend = kBackendCuda\<rparr>"

text \<open>The executor of a build without CUDA.\<close>
definition cuda_stub_execute :: "ExecutionGroup \<Rightarrow> token_resolver \<Rightarrow> ExecutorResult Result" where
  "cuda_stub_execute grp tokens = res_err EC_cuda_unavailable ''CUDA build disabled''"

subsection \<open>What every executor returns\<close>

text \<open>
  The contract the scheduler relies on: a successful call answers every member of the group,
  in order, under the member's own identity and with its own token range.
\<close>

definition answers :: "ExecutableMember \<Rightarrow> MemberResult \<Rightarrow> bool" where
  "answers m r \<longleftrightarrow>
     mr_request_id r = em_request_id m \<and> mr_attempt_id r = em_attempt_id m \<and>
     mr_generation r = em_generation m \<and> mr_tokens_completed r = em_token_count m \<and>
     mr_next_token_start r = em_token_start m + em_token_count m \<and>
     mr_outcome r \<in> {MO_success, MO_non_retryable_failure} \<and> \<not> mr_requires_next_chunk r"

locale executor_contract =
  fixes exec :: "nat \<Rightarrow> ExecutionGroup \<Rightarrow> token_resolver \<Rightarrow> ExecutorResult Result"
  assumes one_answer_per_member:
    "exec n g tokens = Inr out \<Longrightarrow> list_all2 answers (eg_members g) (er_members out)"
begin

lemma same_length: "exec n g tokens = Inr out \<Longrightarrow> length (er_members out) = length (eg_members g)"
  by (rule list_all2_lengthD [OF one_answer_per_member, symmetric])

lemma same_generations:
  assumes "exec n g tokens = Inr out"
  shows "map mr_generation (er_members out) = map em_generation (eg_members g)"
  using one_answer_per_member [OF assms]
  by (auto simp: list_all2_conv_all_nth answers_def intro!: nth_equalityI)

end

lemma answers_failure [simp]: "answers m (member_failure c s (member_result_of m))"
  by (simp add: answers_def member_failure_def member_result_of_def default_member_result_def)

lemma answers_digest [simp]: "answers m ((member_result_of m)\<lparr>mr_digest := d\<rparr>)"
  by (simp add: answers_def member_result_of_def default_member_result_def)

lemma cpu_member_answers: "answers m (snd (cpu_member tokens m))"
  by (simp add: cpu_member_def Let_def split: sum.split)

lemma cuda_member_answers: "answers m (snd (cuda_member rt tokens k m))"
  by (simp add: cuda_member_def Let_def split: sum.split option.split)

lemma cpu_loop_members:
  "er_members (cpu_loop tokens ms out) = er_members out @ map (\<lambda>m. snd (cpu_member tokens m)) ms"
  by (induction ms arbitrary: out) (simp_all add: push_member_def split: prod.split)

lemma cpu_loop_succeeded:
  "er_group_succeeded (cpu_loop tokens ms out) \<longleftrightarrow>
     er_group_succeeded out \<and> (\<forall>m\<in>set ms. fst (cpu_member tokens m))"
  by (induction ms arbitrary: out) (auto simp: push_member_def split: prod.split)

lemma cuda_loop_members:
  "er_members (cuda_loop rt tokens k ms out) =
     er_members out @ map (\<lambda>(i, m). snd (cuda_member rt tokens i m)) (zip [k..<k + length ms] ms)"
proof (induction ms arbitrary: k out)
  case (Cons m ms)
  have "[k..<k + length (m # ms)] = k # [Suc k..<Suc k + length ms]"
    by (simp add: upt_rec)
  with Cons show ?case by (simp add: push_member_def split: prod.split)
qed simp

lemma cuda_execute_members:
  "cuda_execute rt g tokens = Inr out \<Longrightarrow>
   er_members out = map (\<lambda>(i, m). snd (cuda_member rt tokens i m)) (zip [0..<length (eg_members g)] (eg_members g))"
  by (auto simp: cuda_execute_def cuda_loop_members Let_def res_ok_def res_err_def default_executor_result_def
      split: if_splits option.splits)

lemma cpu_execute_members:
  "cpu_execute g tokens = Inr out \<Longrightarrow> er_members out = map (\<lambda>m. snd (cpu_member tokens m)) (eg_members g)"
  by (auto simp: cpu_execute_def cpu_loop_members res_ok_def default_executor_result_def)

interpretation cpu_exec: executor_contract "\<lambda>_. cpu_execute"
  by unfold_locales
    (simp add: cpu_execute_members list_all2_map2 list.rel_refl_strong cpu_member_answers list_all2_same)

interpretation cuda_exec: executor_contract "\<lambda>n. cuda_execute (rt n)" for rt
  by unfold_locales
    (auto simp: cuda_execute_members list_all2_conv_all_nth cuda_member_answers)

text \<open>
  (C36) The CPU executor never fails as a whole: it returns one result per member, in order and
  under the member's identity, and the group succeeds exactly when every member did.
\<close>
theorem cpu_executor_answers_every_member:
  "\<exists>out. cpu_execute g tokens = res_ok out \<and>
     list_all2 answers (eg_members g) (er_members out) \<and>
     (er_group_succeeded out \<longleftrightarrow> list_all (\<lambda>r. mr_outcome r = MO_success) (er_members out))"
proof -
  have fst_iff: "fst (cpu_member tokens m) \<longleftrightarrow> mr_outcome (snd (cpu_member tokens m)) = MO_success" for m
    by (simp add: cpu_member_def Let_def member_failure_def member_result_of_def default_member_result_def split: sum.split)
  obtain out where out: "cpu_execute g tokens = Inr out" by (simp add: cpu_execute_def res_ok_def)
  then have "er_group_succeeded out \<longleftrightarrow> (\<forall>m\<in>set (eg_members g). fst (cpu_member tokens m))"
    by (auto simp: cpu_execute_def res_ok_def cpu_loop_succeeded)
  then show ?thesis
    using cpu_exec.one_answer_per_member [OF out] cpu_execute_members [OF out] out
    by (auto simp: res_ok_def fst_iff list_all_iff)
qed

subsection \<open>The CUDA reduction agrees with the host loop\<close>

text \<open>What thread \<open>idx\<close> adds to the accumulator.\<close>
definition kernel_term :: "u32 list \<Rightarrow> u64 \<Rightarrow> nat \<Rightarrow> nat \<Rightarrow> u64" where
  "kernel_term toks start n i = (if i < n then ff_token_position_value (ucast (toks ! i)) (start + of_nat i) else 0)"

lemma ff_reduce_kernel_term:
  assumes "b * 256 + t < 2 ^ 32"
  shows "ff_reduce_kernel toks start (int n) (b, t) acc = acc + kernel_term toks start n (b * 256 + t)"
proof -
  define i where "i = b * 256 + t"
  have "(of_nat b * 256 + of_nat t :: u32) = of_nat i" by (simp add: i_def)
  then have "unat (of_nat b * 256 + of_nat t :: u32) = i"
    using assms by (simp only: unat_of_nat i_def) (simp add: take_bit_eq_mod)
  then have idx: "uint (of_nat b * 256 + of_nat t :: u32) = int i" by (simp only: uint_nat)
  show ?thesis
    unfolding ff_reduce_kernel_def fst_conv snd_conv idx i_def [symmetric]
    by (simp add: Let_def kernel_term_def ff_token_position_value_def kFfM1_def kFfM2_def kDevM1_def kDevM2_def)
qed

lemma fold_kernel:
  "(\<And>b t. (b, t) \<in> set order \<Longrightarrow> b * 256 + t < 2 ^ 32) \<Longrightarrow>
   fold (ff_reduce_kernel toks start (int n)) order acc =
     acc + sum_list (map (\<lambda>(b, t). kernel_term toks start n (b * 256 + t)) order)"
proof (induction order arbitrary: acc)
  case (Cons p order)
  obtain b t where p: "p = (b, t)" by (cases p)
  have "b * 256 + t < 2 ^ 32" by (rule Cons.prems) (simp only: p list.set_intros)
  note step = ff_reduce_kernel_term [OF this]
  have "b' * 256 + t' < 2 ^ 32" if "(b', t') \<in> set order" for b' t'
    by (rule Cons.prems) (rule list.set_intros(2) [OF that])
  note ih = Cons.IH [OF this]
  show ?case
    by (simp only: p fold_simps step ih list.map sum_list.Cons prod.case add.assoc)
qed simp

lemma product_linear: "map (\<lambda>(b, t). b * w + t) (List.product [0..<k] [0..<w]) = [0..<k * w]"
proof (induction k)
  case (Suc k)
  have "map (\<lambda>t. k * w + t) [0..<w] = [k * w..<k * w + w]"
    using map_add_upt [of "k * w" w] by (simp add: add.commute)
  moreover have "[0..<k * w + w] = [0..<k * w] @ [k * w..<k * w + w]"
    by (rule upt_add_eq_append) simp
  ultimately show ?case
    using Suc by (simp add: product_concat_map comp_def add.commute)
qed simp

lemma grid_linear: "map (\<lambda>(b, t). b * 256 + t) (cuda_grid blocks) = [0..<blocks * 256]"
  unfolding cuda_grid_def by (rule product_linear)

lemma sum_list_all_0: "(\<And>x. x \<in> set xs \<Longrightarrow> f x = 0) \<Longrightarrow> sum_list (map f xs) = (0 :: u64)"
  by (induction xs) simp_all

lemma sum_kernel_terms:
  assumes "n \<le> m"
  shows "sum_list (map (kernel_term toks start n) [0..<m]) = ff_accumulate toks start n"
proof -
  have low: "sum_list (map (kernel_term toks start n) [0..<j]) = ff_accumulate toks start j" if "j \<le> n" for j
    using that by (induction j) (simp_all add: kernel_term_def)
  have "[0..<m] = [0..<n] @ [n..<m]"
    using assms upt_add_eq_append [of 0 n "m - n"] by simp
  moreover have "sum_list (map (kernel_term toks start n) [n..<m]) = 0"
    by (rule sum_list_all_0) (auto simp: kernel_term_def)
  ultimately show ?thesis using low by simp
qed

lemma signed_take_bit_small:
  "n \<le> 2 ^ 32 \<Longrightarrow> signed_take_bit 63 (int n) = int n"
  by (rule signed_take_bit_int_eq_self) simp_all

lemma sint_small: "unat cnt \<le> 2 ^ 32 \<Longrightarrow> sint cnt = int (unat cnt)" for cnt :: u64
  using signed_take_bit_small [of "unat cnt"] by (simp add: sint_uint)

lemma cuda_blocks_value:
  assumes "unat cnt \<le> 2 ^ 32"
  shows "cuda_blocks cnt = int ((unat cnt + 255) div 256)"
proof -
  define n where "n = (unat cnt + 255) div 256"
  have "n < 2 ^ 31" using assms by (simp add: n_def)
  then have "signed_take_bit 31 (int n) = int n"
    by (intro signed_take_bit_int_eq_self) simp_all
  moreover have "(int (unat cnt) + 255) div 256 = int n"
    unfolding n_def zdiv_int by simp
  ultimately show ?thesis
    by (simp only: cuda_blocks_def sint_small [OF assms] n_def)
qed

lemma reduction_any_order:
  assumes small: "unat cnt \<le> 2 ^ 32"
    and order: "mset order = mset (cuda_grid (nat (cuda_blocks cnt)))"
  shows "fold (ff_reduce_kernel toks start (sint cnt)) order 0 = ff_accumulate toks start (unat cnt)"
proof -
  define k where "k = (unat cnt + 255) div 256"
  define f where "f = (\<lambda>(b, t). kernel_term toks start (unat cnt) (b * 256 + t))"
  have blocks: "nat (cuda_blocks cnt) = k" by (simp only: cuda_blocks_value [OF small] k_def nat_int)
  have k: "k * 256 \<le> 2 ^ 32" "unat cnt \<le> k * 256" using small by (simp_all add: k_def)
  have "b * 256 + t < 2 ^ 32" if "(b, t) \<in> set order" for b t
  proof -
    have "(b, t) \<in> set (cuda_grid k)" using that order blocks by (metis set_mset_mset)
    then have "b * 256 + t \<in> set (map (\<lambda>(b, t). b * 256 + t) (cuda_grid k))" by force
    then have "b * 256 + t < k * 256" unfolding grid_linear by simp
    with k(1) show ?thesis by linarith
  qed
  then have "fold (ff_reduce_kernel toks start (sint cnt)) order 0 = 0 + sum_list (map f order)"
    unfolding f_def sint_small [OF small] by (rule fold_kernel)
  also have "\<dots> = sum_list (map f (cuda_grid k))"
    using order blocks by (metis add_0 mset_map sum_mset_sum_list)
  also have "map f (cuda_grid k) = map (kernel_term toks start (unat cnt)) (map (\<lambda>(b, t). b * 256 + t) (cuda_grid k))"
    by (simp add: f_def comp_def case_prod_unfold)
  finally show ?thesis using k(2) by (simp only: grid_linear sum_kernel_terms)
qed

text \<open>The runtime completed the work of member \<open>k\<close>: no call failed and every thread of the grid ran once.\<close>
definition cuda_member_ok :: "cuda_runtime \<Rightarrow> nat \<Rightarrow> ExecutableMember \<Rightarrow> bool" where
  "cuda_member_ok rt k m \<longleftrightarrow>
     cu_malloc_tokens rt k = None \<and> cu_malloc_acc rt k = None \<and> cu_copy_in rt k = None \<and> cu_launch rt k = None \<and>
     cu_acc_init rt k = 0 \<and> cu_copy_out rt k \<and>
     mset (cu_order rt k) = mset (cuda_grid (nat (cuda_blocks (em_token_count m))))"

lemma cuda_member_eq_cpu:
  assumes "cuda_member_ok rt k m" and "em_token_count m \<le> 2 ^ 32"
  shows "(snd (cuda_member rt tokens k m))\<lparr>mr_message := ''''\<rparr> = (snd (cpu_member tokens m))\<lparr>mr_message := ''''\<rparr>"
proof -
  have "unat (em_token_count m) \<le> 2 ^ 32" using assms(2) by (simp add: word_le_nat_alt)
  then have "fold (ff_reduce_kernel tok (em_token_start m) (sint (em_token_count m))) (cu_order rt k) 0 =
      ff_accumulate tok (em_token_start m) (unat (em_token_count m))" for tok
    using assms(1) by (intro reduction_any_order) (simp_all add: cuda_member_ok_def)
  with assms(1) show ?thesis
    by (auto simp: cuda_member_def cpu_member_def Let_def cuda_member_ok_def ff_member_digest_def member_failure_def
        split: sum.split)
qed

text \<open>
  (C35) The CUDA executor agrees with the CPU executor.  Whatever the order in which the threads
  of each launch perform their atomic additions, a group of members of at most \<open>2^32\<close> tokens whose
  runtime calls succeed gets the same results from both executors (the text of the zero-token
  message apart): same identities, outcomes, token counts and digests.
\<close>
theorem cuda_agrees_with_cpu:
  assumes "cu_available rt" "cu_set_device rt"
    and "\<forall>k < length (eg_members g). cuda_member_ok rt k (eg_members g ! k) \<and> em_token_count (eg_members g ! k) \<le> 2 ^ 32"
  shows "\<exists>a b. cuda_execute rt g tokens = res_ok a \<and> cpu_execute g tokens = res_ok b \<and>
    map (\<lambda>r. r\<lparr>mr_message := ''''\<rparr>) (er_members a) = map (\<lambda>r. r\<lparr>mr_message := ''''\<rparr>) (er_members b)"
proof -
  obtain b where b: "cpu_execute g tokens = Inr b" by (simp add: cpu_execute_def res_ok_def)
  obtain a where a: "cuda_execute rt g tokens = Inr a"
    using assms(1,2) by (simp add: cuda_execute_def res_ok_def Let_def)
  have "map (\<lambda>r. r\<lparr>mr_message := ''''\<rparr>) (er_members a) = map (\<lambda>r. r\<lparr>mr_message := ''''\<rparr>) (er_members b)"
    using assms(3) by (auto simp: cpu_execute_members [OF b] cuda_execute_members [OF a] cuda_member_eq_cpu intro!: nth_equalityI)
  with a b show ?thesis by (simp add: res_ok_def)
qed

definition sample_member :: ExecutableMember where
  "sample_member = \<lparr>em_request_id = StrongId 7, em_attempt_id = StrongId 1, em_generation = StrongId 3,
     em_parent_generation = StrongId 0, em_token_start = 2, em_token_count = 2, em_work_kind = WK_full_prompt,
     em_memory_estimate_bytes = 0, em_compute_estimate = 0, em_assigned_worker = nil_id, em_member_index = 0\<rparr>"

text \<open>A runtime that runs the threads of a one-block launch from the last to the first.\<close>
definition sample_runtime :: cuda_runtime where
  "sample_runtime = \<lparr>cu_available = True, cu_set_device = True, cu_malloc_tokens = \<lambda>_. None, cu_malloc_acc = \<lambda>_. None,
     cu_acc_init = \<lambda>_. 0, cu_copy_in = \<lambda>_. None, cu_launch = \<lambda>_. None, cu_order = \<lambda>_. rev (cuda_grid 1),
     cu_copy_out = \<lambda>_. True, cu_last_error = None, cu_free_before = 0, cu_free_after = 0\<rparr>"

theorem cuda_agrees_with_cpu_witness:
  "\<exists>a b. cuda_execute sample_runtime (default_group\<lparr>eg_members := [sample_member]\<rparr>)
            (resolve_tokens [(StrongId 7, [10, 20, 30, 40])]) = res_ok a \<and>
     cpu_execute (default_group\<lparr>eg_members := [sample_member]\<rparr>)
            (resolve_tokens [(StrongId 7, [10, 20, 30, 40])]) = res_ok b \<and>
     map (\<lambda>r. r\<lparr>mr_message := ''''\<rparr>) (er_members a) = map (\<lambda>r. r\<lparr>mr_message := ''''\<rparr>) (er_members b)"
proof (rule cuda_agrees_with_cpu)
  have "cuda_blocks 2 = 1" by (simp add: cuda_blocks_value)
  then show "\<forall>k < length (eg_members (default_group\<lparr>eg_members := [sample_member]\<rparr>)).
      cuda_member_ok sample_runtime k (eg_members (default_group\<lparr>eg_members := [sample_member]\<rparr>) ! k) \<and>
      em_token_count (eg_members (default_group\<lparr>eg_members := [sample_member]\<rparr>) ! k) \<le> 2 ^ 32"
    by (simp add: cuda_member_ok_def sample_runtime_def sample_member_def del: upt_Suc)
qed (simp_all add: sample_runtime_def)

end
