(* ===== verification/PF_State.thy ===== *)
theory PF_State
  imports PF_Chunking PF_Memory PF_Observe PF_Executor
begin

text \<open>
  The state of \<^verbatim>\<open>PrefillScheduler::Impl\<close> (\<^verbatim>\<open>scheduler.cpp\<close>): per-request, per-group and per-worker
  records, the allocators, the counters over the request table, and admission
  (\<^verbatim>\<open>submit\<close>, \<^verbatim>\<open>submit_with_tokens\<close>).

  The injected clock is the sequence of its readings; \<open>sc_ticks\<close> counts the readings taken.
  The unordered maps are association lists: their order is one admissible iteration order.
\<close>

subsection \<open>Records\<close>

record Rs =
  rs_request :: PrefillRequest
  rs_attempt :: AttemptId
  rs_lifecycle :: Lifecycle
  rs_plan :: PrefillPlan
  rs_next_chunk_index :: u32
  rs_completed_uncached :: u64
  rs_completed_token_total :: u64
  rs_current_generation :: Generation
  rs_reservation :: ReservationId
  rs_reserved_bytes :: u64
  rs_in_flight :: bool
  rs_current_group :: GroupId
  rs_dispatched_worker :: WorkerId
  rs_dispatch_time :: Nanoseconds
  rs_last_work_kind :: WorkKind
  rs_retries_used :: int
  rs_normalized_service :: f64
  rs_aging_cycles :: u64
  rs_admit_time :: Nanoseconds
  rs_first_dispatch_time :: Nanoseconds
  rs_chunks_done :: u64
  rs_cancel_pending :: bool
  rs_recovered_work :: bool
  rs_trace :: "string list"

definition default_rs :: Rs where
  "default_rs = \<lparr>rs_request = default_request, rs_attempt = nil_id, rs_lifecycle = LC_submitted,
     rs_plan = empty_plan default_request, rs_next_chunk_index = 0, rs_completed_uncached = 0,
     rs_completed_token_total = 0, rs_current_generation = nil_id, rs_reservation = nil_id, rs_reserved_bytes = 0,
     rs_in_flight = False, rs_current_group = nil_id, rs_dispatched_worker = nil_id, rs_dispatch_time = 0,
     rs_last_work_kind = WK_full_prompt, rs_retries_used = 0, rs_normalized_service = f64_zero,
     rs_aging_cycles = 0, rs_admit_time = 0, rs_first_dispatch_time = 0, rs_chunks_done = 0,
     rs_cancel_pending = False, rs_recovered_work = False, rs_trace = []\<rparr>"

record Gs =
  gs_group :: ExecutionGroup
  gs_worker :: WorkerId
  gs_outstanding :: "RequestId list"

record Ws =
  ws_desc :: WorkerDescriptor
  ws_busy_units :: u64
  ws_local_exec :: "Executor option"

record Impl =
  sc_cfg :: SchedulerConfig
  sc_clock :: "nat \<Rightarrow> Nanoseconds"
  sc_ticks :: nat
  sc_attached_executor :: "Executor option"
  sc_exec_calls :: nat
  sc_tokens :: token_store
  sc_mem :: MemoryGovernor
  sc_events :: EventLog
  sc_stats :: Stats
  sc_epoch :: Epoch
  sc_next_generation :: u64
  sc_next_attempt :: u64
  sc_next_group :: u64
  sc_next_reservation :: u64
  sc_next_boot :: u64
  sc_requests :: "(RequestId, Rs) alist"
  sc_groups :: "(GroupId, Gs) alist"
  sc_workers :: "(WorkerId, Ws) alist"
  sc_tenants :: "(TenantId, TenantService) alist"

text \<open>The constructor: a ready local CPU worker with id 0 and the first boot id.\<close>
definition local_worker :: WorkerDescriptor where
  "local_worker = default_worker\<lparr>wd_worker_id := StrongId 0, wd_boot_id := StrongId 1, wd_host := ''local'',
     wd_backend := kBackendCpu, wd_capacity_units := 1, wd_state := WS_ready\<rparr>"

definition mk_scheduler :: "platform \<Rightarrow> SchedulerConfig \<Rightarrow> (nat \<Rightarrow> Nanoseconds) \<Rightarrow> Impl" where
  "mk_scheduler pf c cl = \<lparr>sc_cfg = c, sc_clock = cl, sc_ticks = 0, sc_attached_executor = None, sc_exec_calls = 0,
     sc_tokens = [], sc_mem = mk_governor (usable_memory_bytes pf c) (cf_memory_headroom_bytes c),
     sc_events = mk_event_log 10000, sc_stats = zero_stats, sc_epoch = StrongId 1, sc_next_generation = 1,
     sc_next_attempt = 1, sc_next_group = 1, sc_next_reservation = 1, sc_next_boot = 2, sc_requests = [],
     sc_groups = [],
     sc_workers = [(StrongId 0, \<lparr>ws_desc = local_worker, ws_busy_units = 0, ws_local_exec = None\<rparr>)],
     sc_tenants = []\<rparr>"

subsection \<open>Access to the state\<close>

definition the_rs :: "Impl \<Rightarrow> RequestId \<Rightarrow> Rs" where
  "the_rs S rid = lookup_default default_rs (sc_requests S) rid"

definition upd_rs :: "RequestId \<Rightarrow> (Rs \<Rightarrow> Rs) \<Rightarrow> Impl \<Rightarrow> Impl" where
  "upd_rs rid f S = S\<lparr>sc_requests := modify rid f (sc_requests S)\<rparr>"

definition the_tenant :: "Impl \<Rightarrow> TenantId \<Rightarrow> TenantService" where
  "the_tenant S t = lookup_default default_tenant (sc_tenants S) t"

definition upd_tenant :: "TenantId \<Rightarrow> (TenantService \<Rightarrow> TenantService) \<Rightarrow> Impl \<Rightarrow> Impl" where
  "upd_tenant t f S = S\<lparr>sc_tenants := modify_default default_tenant t f (sc_tenants S)\<rparr>"

definition upd_stats :: "(Stats \<Rightarrow> Stats) \<Rightarrow> Impl \<Rightarrow> Impl" where
  "upd_stats f S = S\<lparr>sc_stats := f (sc_stats S)\<rparr>"

definition upd_mem :: "(MemoryGovernor \<Rightarrow> MemoryGovernor) \<Rightarrow> Impl \<Rightarrow> Impl" where
  "upd_mem f S = S\<lparr>sc_mem := f (sc_mem S)\<rparr>"

definition clock_now :: "Impl \<Rightarrow> Nanoseconds" where
  "clock_now S = sc_clock S (sc_ticks S)"

definition tick :: "Impl \<Rightarrow> Impl" where
  "tick S = S\<lparr>sc_ticks := Suc (sc_ticks S)\<rparr>"

definition log_at :: "Nanoseconds \<Rightarrow> string \<Rightarrow> RequestId \<Rightarrow> AttemptId \<Rightarrow> string \<Rightarrow> Impl \<Rightarrow> Impl" where
  "log_at t ty r a d S = S\<lparr>sc_events := record_event t ty r a d (sc_events S)\<rparr>"

text \<open>\<^verbatim>\<open>events.record(now(), ...)\<close>\<close>
definition log_now :: "string \<Rightarrow> RequestId \<Rightarrow> AttemptId \<Rightarrow> string \<Rightarrow> Impl \<Rightarrow> Impl" where
  "log_now ty r a d S = tick (log_at (clock_now S) ty r a d S)"

definition add_trace :: "string \<Rightarrow> Rs \<Rightarrow> Rs" where
  "add_trace m s = s\<lparr>rs_trace := rs_trace s @ [m]\<rparr>"

definition count_rejection :: "ErrorCode \<Rightarrow> Stats \<Rightarrow> Stats" where
  "count_rejection c st = st\<lparr>st_rejected := st_rejected st + 1,
     st_rejection_by_reason := modify_default 0 c (\<lambda>n. n + 1) (st_rejection_by_reason st)\<rparr>"

subsection \<open>Helpers of Impl\<close>

fun index_from :: "PrefillChunk list \<Rightarrow> u64 \<Rightarrow> u32 \<Rightarrow> u32" where
  "index_from [] start i = 0"
| "index_from (c # cs) start i = (if ch_token_start c = start then i else index_from cs start (i + 1))"

definition index_for_token_start :: "PrefillPlan \<Rightarrow> u64 \<Rightarrow> u32" where
  "index_for_token_start p start = index_from (pl_chunks p) start 0"

definition has_pending_chunk :: "Rs \<Rightarrow> bool" where
  "has_pending_chunk s \<longleftrightarrow> unat (rs_next_chunk_index s) < length (pl_chunks (rs_plan s))"

definition next_chunk :: "Rs \<Rightarrow> PrefillChunk" where
  "next_chunk s = pl_chunks (rs_plan s) ! unat (rs_next_chunk_index s)"

definition pending_token_count :: "Rs \<Rightarrow> u64" where
  "pending_token_count s = (if has_pending_chunk s then ch_token_count (next_chunk s) else 0)"

definition alloc_reservation :: "Impl \<Rightarrow> ReservationId \<times> Impl" where
  "alloc_reservation S = (StrongId (sc_next_reservation S), S\<lparr>sc_next_reservation := sc_next_reservation S + 1\<rparr>)"

definition alloc_group :: "Impl \<Rightarrow> GroupId \<times> Impl" where
  "alloc_group S = (StrongId (sc_next_group S), S\<lparr>sc_next_group := sc_next_group S + 1\<rparr>)"

definition alloc_generation :: "Impl \<Rightarrow> Generation \<times> Impl" where
  "alloc_generation S = (StrongId (sc_next_generation S), S\<lparr>sc_next_generation := sc_next_generation S + 1\<rparr>)"

definition alloc_attempt :: "Impl \<Rightarrow> AttemptId \<times> Impl" where
  "alloc_attempt S = (StrongId (sc_next_attempt S), S\<lparr>sc_next_attempt := sc_next_attempt S + 1\<rparr>)"

definition release_reservation :: "RequestId \<Rightarrow> Impl \<Rightarrow> Impl" where
  "release_reservation rid S =
     (let s = the_rs S rid in
      if \<not> is_nil (rs_reservation s)
      then upd_rs rid (\<lambda>s. s\<lparr>rs_reservation := nil_id, rs_reserved_bytes := 0\<rparr>)
             (upd_mem (\<lambda>m. snd (release (rs_reservation s) m)) S)
      else S)"

definition is_terminal_lifecycle :: "Lifecycle \<Rightarrow> bool" where
  "is_terminal_lifecycle l \<longleftrightarrow>
     l = LC_completed \<or> l = LC_cancelled \<or> l = LC_expired \<or> l = LC_failed_non_retryable \<or> l = LC_rejected"

definition is_waiting :: "Rs \<Rightarrow> bool" where
  "is_waiting s \<longleftrightarrow> rs_lifecycle s = LC_queued \<and> \<not> rs_in_flight s"

definition queued_count_locked :: "Impl \<Rightarrow> u64" where
  "queued_count_locked S = fold (\<lambda>(_, s) n. if is_waiting s then n + 1 else n) (sc_requests S) 0"

definition waiting_tokens_locked :: "Impl \<Rightarrow> u64" where
  "waiting_tokens_locked S = fold (\<lambda>(_, s) n. if is_waiting s then n + pending_token_count s else n) (sc_requests S) 0"

definition remaining_tokens_locked :: "Impl \<Rightarrow> u64" where
  "remaining_tokens_locked S =
     fold (\<lambda>(_, s) n. if is_terminal_lifecycle (rs_lifecycle s) then n
                      else n + (remaining_prefill_tokens (rs_request s) - rs_completed_uncached s)) (sc_requests S) 0"

subsection \<open>Admission\<close>

text \<open>The request record that an admission leaves in the table.\<close>
definition admitted_rs :: "platform \<Rightarrow> SchedulerConfig \<Rightarrow> PrefillRequest \<Rightarrow> AttemptId \<Rightarrow> Nanoseconds \<Rightarrow> Rs \<Rightarrow> Rs" where
  "admitted_rs pf c req a t s = s\<lparr>rs_request := req, rs_attempt := a, rs_lifecycle := LC_queued, rs_admit_time := t,
     rs_plan := plan pf c req a (StrongId 0), rs_next_chunk_index := 0, rs_completed_uncached := 0,
     rs_completed_token_total := 0, rs_current_generation := StrongId 0, rs_retries_used := 0,
     rs_cancel_pending := False, rs_recovered_work := False, rs_normalized_service := f64_zero,
     rs_chunks_done := 0,
     rs_trace := [''admitted; remaining_prefill='' @ to_string_u64 (remaining_prefill_tokens req)]\<rparr>"

text \<open>\<^verbatim>\<open>ts.outstanding > 0 ? ts.outstanding - 1 : 0\<close>\<close>
definition dec_outstanding :: "TenantService \<Rightarrow> TenantService" where
  "dec_outstanding ts = ts\<lparr>ts_outstanding := (if ts_outstanding ts > 0 then ts_outstanding ts - 1 else 0)\<rparr>"

text \<open>From \<^verbatim>\<open>auto& s = requests_[...]\<close> to the end of the function.\<close>
definition admit :: "platform \<Rightarrow> PrefillRequest \<Rightarrow> Impl \<Rightarrow> Impl" where
  "admit pf req S =
     (let rid = request_id req;
          rem = remaining_prefill_tokens req;
          (a, S) = alloc_attempt S;
          t = clock_now S; S = tick S;
          S = S\<lparr>sc_requests := AList.update rid (admitted_rs pf (sc_cfg S) req a t (the_rs S rid)) (sc_requests S)\<rparr>;
          S = upd_stats (\<lambda>st. st\<lparr>st_submitted := st_submitted st + 1, st_admitted := st_admitted st + 1\<rparr>) S;
          S = upd_tenant (tenant_id req) (\<lambda>ts. ts\<lparr>ts_outstanding := ts_outstanding ts + 1,
                ts_admitted_tokens := ts_admitted_tokens ts + rem\<rparr>) S
      in if rem = 0
         then
           let S = upd_rs rid (\<lambda>s. add_trace ''fully-cached prompt; no prefill work remains''
                     (s\<lparr>rs_lifecycle := LC_completed, rs_completed_uncached := 0, rs_completed_token_total := 0\<rparr>)) S;
               S = upd_stats (\<lambda>st. st\<lparr>st_completed := st_completed st + 1\<rparr>) S;
               S = upd_tenant (tenant_id req) (\<lambda>ts. dec_outstanding
                     (ts\<lparr>ts_completed_requests := ts_completed_requests ts + 1\<rparr>)) S
           in log_now ''submit'' rid a ''complete-immediate'' S
         else log_now ''submit'' rid a ''queued'' S)"

definition submit_with_tokens :: "platform \<Rightarrow> PrefillRequest \<Rightarrow> u32 list \<Rightarrow> Impl \<Rightarrow> unit Result \<times> Impl" where
  "submit_with_tokens pf req toks S =
     (let err = validate_request req in
      if err_code err \<noteq> EC_ok then (res_err (err_code err) (err_message err), S)
      else if map_of (sc_requests S) (request_id req) \<noteq> None
      then (res_err EC_duplicate_request ''duplicate request id'', S)
      else case register_request req toks (sc_tokens S) of
        (Inl e, _) \<Rightarrow> (Inl e, S)
      | (Inr _, tokens) \<Rightarrow>
        let S = S\<lparr>sc_tokens := tokens\<rparr> in
        if cf_max_admitted_requests (sc_cfg S) \<le> of_nat (length (sc_requests S))
        then (res_err EC_capacity_exceeded ''admission capacity exceeded'',
              upd_stats (count_rejection EC_capacity_exceeded) S)
        else
          let S = upd_tenant (tenant_id req)
                    (\<lambda>ts. if f64_eq (ts_weight ts) f64_zero then ts\<lparr>ts_weight := tenant_weight req\<rparr> else ts) S;
              ts = the_tenant S (tenant_id req)
          in
          if cf_per_tenant_outstanding_limit (sc_cfg S) \<le> ts_outstanding ts
          then (res_err EC_capacity_exceeded ''tenant outstanding limit exceeded'',
                upd_stats (count_rejection EC_capacity_exceeded) S)
          else if cf_per_tenant_admitted_token_limit (sc_cfg S) < ts_admitted_tokens ts + remaining_prefill_tokens req
          then (res_err EC_capacity_exceeded ''tenant admitted-token limit exceeded'',
                upd_stats (count_rejection EC_capacity_exceeded) S)
          else (res_ok (), admit pf req S))"

text \<open>The xorshift sequence that \<^verbatim>\<open>submit\<close> uses as synthetic prompt.\<close>
definition xorshift :: "u64 \<Rightarrow> u64" where
  "xorshift seed =
     (let seed = seed XOR push_bit 13 seed; seed = seed XOR drop_bit 7 seed in seed XOR push_bit 17 seed)"

fun synthetic_tokens :: "nat \<Rightarrow> u64 \<Rightarrow> u32 list" where
  "synthetic_tokens 0 seed = []"
| "synthetic_tokens (Suc n) seed =
     (let seed = xorshift seed in ucast (seed AND 0xFFFFFFFF) # synthetic_tokens n seed)"

definition submit :: "platform \<Rightarrow> PrefillRequest \<Rightarrow> Impl \<Rightarrow> unit Result \<times> Impl" where
  "submit pf req S =
     submit_with_tokens pf req
       (synthetic_tokens (unat (prompt_token_count req)) (0x9E3779B97F4A7C15 XOR id_value (request_id req))) S"

end
