(* ===== verification/PF_Cycle.thy ===== *)
theory PF_Cycle
  imports PF_State
begin

text \<open>
  One scheduling cycle (\<^verbatim>\<open>PrefillScheduler::run_cycle\<close>): the expiry sweep, candidate selection and
  ordering, formation of compatible groups, reservation and dispatch, and aging.
\<close>

record DispatchedGroup =
  dg_group_id :: GroupId
  dg_group :: ExecutionGroup
  dg_assigned_worker :: WorkerId
  dg_reservation_id :: ReservationId
  dg_reserved_bytes :: u64

record DispatchBatch =
  db_groups :: "DispatchedGroup list"
  db_notes :: "string list"
  db_cycle_scheduled_tokens :: u64

definition empty_batch :: DispatchBatch where
  "empty_batch = \<lparr>db_groups = [], db_notes = [], db_cycle_scheduled_tokens = 0\<rparr>"

subsection \<open>The expiry sweep\<close>

text \<open>
  Take a request out of the outstanding set of a group; the last one frees a unit of the
  group's worker and erases the group.
\<close>
definition leave_group :: "GroupId \<Rightarrow> RequestId \<Rightarrow> Impl \<Rightarrow> Impl" where
  "leave_group gid rid S =
     (case map_of (sc_groups S) gid of
        None \<Rightarrow> S
      | Some g \<Rightarrow>
          let out = removeAll rid (gs_outstanding g) in
          if out = []
          then S\<lparr>sc_workers := modify (gs_worker g)
                   (\<lambda>w. if ws_busy_units w > 0 then w\<lparr>ws_busy_units := ws_busy_units w - 1\<rparr> else w) (sc_workers S),
                 sc_groups := AList.delete gid (sc_groups S)\<rparr>
          else S\<lparr>sc_groups := AList.update gid (g\<lparr>gs_outstanding := out\<rparr>) (sc_groups S)\<rparr>)"

definition past_deadline :: "Nanoseconds \<Rightarrow> Rs \<Rightarrow> bool" where
  "past_deadline now s \<longleftrightarrow> (case deadline (rs_request s) of None \<Rightarrow> False | Some d \<Rightarrow> d < now)"

definition waited_too_long :: "Nanoseconds \<Rightarrow> Rs \<Rightarrow> bool" where
  "waited_too_long now s \<longleftrightarrow> \<not> rs_in_flight s \<and>
     (case max_queue_delay (rs_request s) of None \<Rightarrow> False | Some d \<Rightarrow> d < now - rs_admit_time s)"

definition expire_request :: "Nanoseconds \<Rightarrow> RequestId \<Rightarrow> Impl \<Rightarrow> Impl" where
  "expire_request now rid S =
     (let s = the_rs S rid;
          S = upd_rs rid (\<lambda>s. s\<lparr>rs_lifecycle := LC_expired\<rparr>) S;
          S = (if rs_in_flight s then leave_group (rs_current_group s) (request_id (rs_request s)) S else S);
          S = release_reservation rid S;
          S = upd_stats (\<lambda>st. st\<lparr>st_expired := st_expired st + 1, st_deadline_missed := st_deadline_missed st + 1\<rparr>) S;
          S = upd_tenant (tenant_id (rs_request s)) dec_outstanding S;
          S = upd_rs rid (add_trace (''expired; deadline='' @
                to_string_int (case deadline (rs_request s) of None \<Rightarrow> 0 | Some d \<Rightarrow> d))) S
      in log_at now ''expire'' (request_id (rs_request s)) (rs_attempt s) ''deadline'' S)"

definition sweep_one :: "Nanoseconds \<Rightarrow> RequestId \<Rightarrow> Impl \<Rightarrow> Impl" where
  "sweep_one now rid S =
     (let s = the_rs S rid in
      if is_terminal_lifecycle (rs_lifecycle s) then S
      else if past_deadline now s then expire_request now rid S
      else if waited_too_long now s
      then expire_request now rid (upd_stats (\<lambda>st. st\<lparr>st_queue_delay_exceeded := st_queue_delay_exceeded st + 1\<rparr>) S)
      else S)"

definition sweep :: "Nanoseconds \<Rightarrow> Impl \<Rightarrow> Impl" where
  "sweep now S = fold (sweep_one now) (keys (sc_requests S)) S"

subsection \<open>Candidates and their order\<close>

definition is_candidate :: "Rs \<Rightarrow> bool" where
  "is_candidate s \<longleftrightarrow> rs_lifecycle s = LC_queued \<and> \<not> rs_in_flight s \<and> has_pending_chunk s"

definition candidates :: "Impl \<Rightarrow> RequestId list" where
  "candidates S = map fst (filter (\<lambda>(_, s). is_candidate s) (sc_requests S))"

definition int64_max :: int where "int64_max = 9223372036854775807"

definition urgent :: "Nanoseconds \<Rightarrow> SchedulerConfig \<Rightarrow> Rs \<Rightarrow> bool" where
  "urgent now c s \<longleftrightarrow>
     (case deadline (rs_request s) of None \<Rightarrow> False | Some d \<Rightarrow> d \<le> now + cf_deadline_slack_ns c)"

definition effective_deadline :: "Rs \<Rightarrow> int" where
  "effective_deadline s = (case deadline (rs_request s) of None \<Rightarrow> int64_max | Some d \<Rightarrow> d)"

text \<open>A tenant's normalized service divided by its weight (1.0 if the weight is not positive).\<close>
definition tenant_share :: "TenantService \<Rightarrow> f64" where
  "tenant_share t = f64_div (ts_normalized_service t) (if f64_lt f64_zero (ts_weight t) then ts_weight t else f64_one)"

definition share_of :: "Impl \<Rightarrow> Rs \<Rightarrow> f64" where
  "share_of S s = tenant_share (the_tenant S (tenant_id (rs_request s)))"

definition sorter :: "Nanoseconds \<Rightarrow> Impl \<Rightarrow> RequestId \<Rightarrow> RequestId \<Rightarrow> bool" where
  "sorter now S a b =
     (let sa = the_rs S a; sb = the_rs S b;
          ua = urgent now (sc_cfg S) sa; ub = urgent now (sc_cfg S) sb;
          da = effective_deadline sa; db = effective_deadline sb;
          ra = rs_request sa; rb = rs_request sb;
          fa = share_of S sa; fb = share_of S sb
      in if ua \<noteq> ub then ua
         else if da \<noteq> db then da < db
         else if priority ra \<noteq> priority rb then priority ra > priority rb
         else if latency_class ra \<noteq> latency_class rb
         then LatencyClass_code (latency_class ra) > LatencyClass_code (latency_class rb)
         else if \<not> f64_eq fa fb then f64_lt fa fb
         else if rs_aging_cycles sa \<noteq> rs_aging_cycles sb then rs_aging_cycles sa > rs_aging_cycles sb
         else if rs_admit_time sa \<noteq> rs_admit_time sb then rs_admit_time sa < rs_admit_time sb
         else id_value a < id_value b)"

text \<open>
  Sorting two or more elements calls the comparison on each of them, and each call creates the
  tenant entries it looks up.
\<close>
definition touch_tenants :: "RequestId list \<Rightarrow> Impl \<Rightarrow> Impl" where
  "touch_tenants cs S =
     (if length cs < 2 then S
      else fold (\<lambda>r S. upd_tenant (tenant_id (rs_request (the_rs S r))) (\<lambda>t. t) S) cs S)"

subsection \<open>Formation\<close>

record OpenGroup =
  og_key :: CompatibilityKey
  og_group :: ExecutionGroup
  og_rids :: "RequestId list"
  og_total_tokens :: u64
  og_total_compute :: u64
  og_max_mem :: u64
  og_tenant_tokens :: "(TenantId, u64) alist"

definition group_size :: "ExecutionGroup \<Rightarrow> u32" where
  "group_size g = of_nat (length (eg_members g))"

definition decision :: "CompatibilityKey \<Rightarrow> bool \<Rightarrow> int \<Rightarrow> int \<Rightarrow> string \<Rightarrow> CompatibilityDecision" where
  "decision k good n code msg = \<lparr>cd_compatible = good, cd_reasons = [\<lparr>cr_code = code, cr_text = msg\<rparr>],
     cd_key = k, cd_non_compat_reason_count = n\<rparr>"

definition compatible_with_group :: "SchedulerConfig \<Rightarrow> OpenGroup \<Rightarrow> PrefillChunk \<Rightarrow> CompatibilityKey \<Rightarrow> CompatibilityDecision" where
  "compatible_with_group c g ch k =
     (if og_key g \<noteq> k then decision (og_key g) False 1 1 ''different CompatibilityKey''
      else if cf_max_requests_per_group c \<le> group_size (og_group g)
      then decision (og_key g) False 0 2 ''max requests per group reached''
      else if cf_max_tokens_per_group c < og_total_tokens g + ch_token_count ch
      then decision (og_key g) False 0 3 ''max tokens per group exceeded''
      else if cf_max_compute_per_group c < og_total_compute g + ch_compute_estimate ch
      then decision (og_key g) False 0 4 ''max compute per group exceeded''
      else if cf_max_memory_per_group c < max (og_max_mem g) (ch_memory_estimate_bytes ch)
      then decision (og_key g) False 0 5 ''max memory per group exceeded''
      else decision (og_key g) True 0 0 ''compatible'')"

definition member_for :: "RequestId \<Rightarrow> Rs \<Rightarrow> u32 \<Rightarrow> ExecutableMember" where
  "member_for rid s idx =
     (let ch = next_chunk s in
      \<lparr>em_request_id = rid, em_attempt_id = rs_attempt s, em_generation = StrongId 0, em_parent_generation = StrongId 0,
       em_token_start = ch_token_start ch, em_token_count = ch_token_count ch,
       em_work_kind = (if rs_recovered_work s then WK_worker_recovered else ch_work_kind ch),
       em_memory_estimate_bytes = ch_memory_estimate_bytes ch, em_compute_estimate = ch_compute_estimate ch,
       em_assigned_worker = nil_id, em_member_index = idx\<rparr>)"

definition join_group :: "RequestId \<Rightarrow> Rs \<Rightarrow> OpenGroup \<Rightarrow> OpenGroup" where
  "join_group rid s g =
     (let ch = next_chunk s; eg = og_group g in
      g\<lparr>og_group := eg\<lparr>eg_members := eg_members eg @ [member_for rid s (group_size eg)],
            eg_total_token_count := eg_total_token_count eg + ch_token_count ch,
            eg_sum_compute_estimate := eg_sum_compute_estimate eg + ch_compute_estimate ch,
            eg_max_memory_estimate_bytes := max (eg_max_memory_estimate_bytes eg) (ch_memory_estimate_bytes ch)\<rparr>,
        og_rids := og_rids g @ [rid],
        og_total_tokens := og_total_tokens g + ch_token_count ch,
        og_total_compute := og_total_compute g + ch_compute_estimate ch,
        og_max_mem := max (og_max_mem g) (ch_memory_estimate_bytes ch),
        og_tenant_tokens := modify_default 0 (tenant_id (rs_request s)) (\<lambda>n. n + ch_token_count ch) (og_tenant_tokens g)\<rparr>)"

definition new_group :: "GroupId \<Rightarrow> CompatibilityKey \<Rightarrow> RequestId \<Rightarrow> Rs \<Rightarrow> OpenGroup" where
  "new_group gid k rid s =
     (let ch = next_chunk s in
      \<lparr>og_key = k,
       og_group = default_group\<lparr>eg_key := k, eg_group_id := gid, eg_backend := ck_backend k, eg_device := ck_device k,
          eg_members := [member_for rid s 0], eg_total_token_count := 0 + ch_token_count ch,
          eg_sum_compute_estimate := 0 + ch_compute_estimate ch,
          eg_max_memory_estimate_bytes := ch_memory_estimate_bytes ch\<rparr>,
       og_rids = [rid], og_total_tokens = 0 + ch_token_count ch, og_total_compute = 0 + ch_compute_estimate ch,
       og_max_mem = ch_memory_estimate_bytes ch,
       og_tenant_tokens = modify_default 0 (tenant_id (rs_request s)) (\<lambda>n. n + ch_token_count ch) []\<rparr>)"

text \<open>The first open group that accepts the chunk takes it.\<close>
fun place :: "SchedulerConfig \<Rightarrow> RequestId \<Rightarrow> Rs \<Rightarrow> CompatibilityKey \<Rightarrow> OpenGroup list \<Rightarrow> OpenGroup list option" where
  "place c rid s k [] = None"
| "place c rid s k (g # gs) =
     (if cd_compatible (compatible_with_group c g (next_chunk s) k)
      then Some (join_group rid s g # gs)
      else map_option (Cons g) (place c rid s k gs))"

definition form_one :: "RequestId \<Rightarrow> OpenGroup list \<times> Impl \<Rightarrow> OpenGroup list \<times> Impl" where
  "form_one rid st =
     (case st of (opn, S) \<Rightarrow>
      let s = the_rs S rid in
      if \<not> is_candidate s then (opn, S)
      else
        let k = make_compat_key (rs_request s) (sc_cfg S) in
        case place (sc_cfg S) rid s k opn of
          Some opn' \<Rightarrow> (opn', upd_rs rid (add_trace ''packed into group (compatible)'') S)
        | None \<Rightarrow> (case alloc_group S of (gid, S) \<Rightarrow> (opn @ [new_group gid k rid s], S)))"

definition form_groups :: "RequestId list \<Rightarrow> Impl \<Rightarrow> OpenGroup list \<times> Impl" where
  "form_groups cs S = fold form_one cs ([], S)"

subsection \<open>Reservation and dispatch\<close>

definition worker_eligible :: "string \<Rightarrow> Ws \<Rightarrow> bool" where
  "worker_eligible backend w \<longleftrightarrow>
     (wd_state (ws_desc w) = WS_ready \<or> wd_state (ws_desc w) = WS_registered) \<and>
     ws_busy_units w < wd_capacity_units (ws_desc w) \<and>
     (backend = kBackendAny \<or> wd_backend (ws_desc w) = kBackendAny \<or> wd_backend (ws_desc w) = backend)"

definition choose_worker :: "string \<Rightarrow> Impl \<Rightarrow> WorkerId option" where
  "choose_worker backend S =
     fold (\<lambda>(wid, w) chosen.
             if worker_eligible backend w
             then (case chosen of
                     None \<Rightarrow> Some wid
                   | Some c \<Rightarrow> if id_value wid < id_value c then Some wid else Some c)
             else chosen)
       (sc_workers S) None"

text \<open>
  Reserve for each member in turn; \<open>False\<close> when one fails.  The list is what was
  reserved before.
\<close>
fun reserve_all :: "RequestId list \<Rightarrow> (RequestId \<times> ReservationId) list \<Rightarrow> Impl \<Rightarrow>
    bool \<times> (RequestId \<times> ReservationId) list \<times> Impl" where
  "reserve_all [] acc S = (True, acc, S)"
| "reserve_all (rid # rids) acc S =
     (let mb = ch_memory_estimate_bytes (next_chunk (the_rs S rid));
          (rv, S) = alloc_reservation S
      in case reserve rv rid mb RK_reserved (sc_mem S) of
           (Inl _, m) \<Rightarrow> (False, acc, S\<lparr>sc_mem := m\<rparr>)
         | (Inr _, m) \<Rightarrow>
             reserve_all rids (acc @ [(rid, rv)])
               (upd_rs rid (\<lambda>s. s\<lparr>rs_reservation := rv, rs_reserved_bytes := mb\<rparr>) (S\<lparr>sc_mem := m\<rparr>)))"

definition roll_back :: "(RequestId \<times> ReservationId) list \<Rightarrow> Impl \<Rightarrow> Impl" where
  "roll_back acc S =
     (let S = fold (\<lambda>(_, rv). upd_mem (\<lambda>m. snd (release rv m))) acc S
      in fold (\<lambda>(rid, _). upd_rs rid (\<lambda>s. s\<lparr>rs_reservation := nil_id, rs_reserved_bytes := 0\<rparr>)) acc S)"

definition trace_all :: "string \<Rightarrow> RequestId list \<Rightarrow> Impl \<Rightarrow> Impl" where
  "trace_all msg rids S = fold (\<lambda>rid. upd_rs rid (add_trace msg)) rids S"

text \<open>The request record of a dispatched member.\<close>
definition dispatched_rs :: "Nanoseconds \<Rightarrow> GroupId \<Rightarrow> WorkerId \<Rightarrow> Generation \<Rightarrow> Rs \<Rightarrow> Rs" where
  "dispatched_rs now gid w gen s = s\<lparr>rs_current_generation := gen, rs_in_flight := True, rs_lifecycle := LC_dispatched,
     rs_current_group := gid, rs_dispatched_worker := w, rs_dispatch_time := now,
     rs_first_dispatch_time := (if rs_first_dispatch_time s = 0 then now else rs_first_dispatch_time s)\<rparr>"

text \<open>
  The commit loop: \<open>i\<close> is the index of the next member; the accumulator is the group record
  under construction and the bytes it reserves.
\<close>
fun commit_members :: "Nanoseconds \<Rightarrow> GroupId \<Rightarrow> WorkerId \<Rightarrow> nat \<Rightarrow> RequestId list \<Rightarrow> Gs \<times> u64 \<Rightarrow> Impl \<Rightarrow>
    (Gs \<times> u64) \<times> Impl" where
  "commit_members now gid w i [] acc S = (acc, S)"
| "commit_members now gid w i (rid # rids) (g, bytes) S =
     (let (gen, S) = alloc_generation S;
          s = the_rs S rid;
          S = upd_rs rid (dispatched_rs now gid w gen) S;
          S = (if rs_first_dispatch_time s = 0
               then upd_stats (\<lambda>st. st\<lparr>st_queue_latency_total_ns := st_queue_latency_total_ns st + (now - rs_admit_time s),
                      st_queue_latency_samples := st_queue_latency_samples st + 1\<rparr>) S
               else S);
          eg = gs_group g;
          m = (eg_members eg ! i)\<lparr>em_generation := gen, em_assigned_worker := w\<rparr>;
          g = g\<lparr>gs_group := eg\<lparr>eg_members := (eg_members eg)[i := m]\<rparr>,
                gs_outstanding := insort_insert rid (gs_outstanding g)\<rparr>;
          bytes = bytes + em_memory_estimate_bytes m;
          S = upd_stats (\<lambda>st. st\<lparr>st_scheduled_tokens := st_scheduled_tokens st + em_token_count m\<rparr>) S
      in commit_members now gid w (Suc i) rids (g, bytes) S)"

definition add_note :: "string \<Rightarrow> DispatchBatch \<Rightarrow> DispatchBatch" where
  "add_note m b = b\<lparr>db_notes := db_notes b @ [m]\<rparr>"

definition commit_group :: "Nanoseconds \<Rightarrow> WorkerId \<Rightarrow> OpenGroup \<Rightarrow> DispatchBatch \<times> Impl \<Rightarrow> DispatchBatch \<times> Impl" where
  "commit_group now w g st =
     (case st of (b, S) \<Rightarrow>
      let gid = eg_group_id (og_group g);
          ((gs, bytes), S) = commit_members now gid w 0 (og_rids g)
             (\<lparr>gs_group = og_group g, gs_worker = w, gs_outstanding = []\<rparr>, 0) S;
          S = S\<lparr>sc_workers := modify w (\<lambda>x. x\<lparr>ws_busy_units := ws_busy_units x + 1\<rparr>) (sc_workers S),
                sc_groups := AList.update gid gs (sc_groups S)\<rparr>;
          S = upd_stats (\<lambda>st. st\<lparr>st_groups_formed := st_groups_formed st + 1,
                st_group_size_distribution :=
                  modify_default 0 (of_nat (length (og_rids g))) (\<lambda>n. n + 1) (st_group_size_distribution st)\<rparr>) S
      in (b\<lparr>db_groups := db_groups b @ [\<lparr>dg_group_id = gid, dg_group = gs_group gs, dg_assigned_worker = w,
               dg_reservation_id = rs_reservation (the_rs S (hd (og_rids g))), dg_reserved_bytes = bytes\<rparr>],
            db_cycle_scheduled_tokens := db_cycle_scheduled_tokens b + eg_total_token_count (og_group g)\<rparr>, S))"

definition dispatch_one :: "Nanoseconds \<Rightarrow> OpenGroup \<Rightarrow> DispatchBatch \<times> Impl \<Rightarrow> DispatchBatch \<times> Impl" where
  "dispatch_one now g st =
     (case st of (b, S) \<Rightarrow>
      if eg_members (og_group g) = [] then (b, S)
      else case choose_worker (eg_backend (og_group g)) S of
        None \<Rightarrow> (add_note ''no compatible worker available; deferred'' b,
                 trace_all ''deferred: no compatible worker'' (og_rids g) S)
      | Some w \<Rightarrow>
          (case reserve_all (og_rids g) [] S of
             (False, acc, S) \<Rightarrow>
               (add_note ''memory reservation failed; group deferred'' b,
                trace_all ''deferred: memory unavailable'' (og_rids g) (roll_back acc S))
           | (True, acc, S) \<Rightarrow> commit_group now w g (b, S)))"

definition dispatch_groups :: "Nanoseconds \<Rightarrow> OpenGroup list \<Rightarrow> Impl \<Rightarrow> DispatchBatch \<times> Impl" where
  "dispatch_groups now gs S = fold (dispatch_one now) gs (empty_batch, S)"

subsection \<open>The cycle\<close>

definition age_waiting :: "Impl \<Rightarrow> Impl" where
  "age_waiting S = S\<lparr>sc_requests :=
     map (\<lambda>(k, s). (k, if is_waiting s then s\<lparr>rs_aging_cycles := rs_aging_cycles s + 1\<rparr> else s)) (sc_requests S)\<rparr>"

definition refresh_gauges :: "Impl \<Rightarrow> Impl" where
  "refresh_gauges S = upd_stats (\<lambda>st. st\<lparr>st_queue_depth := queued_count_locked S,
     st_waiting_tokens := waiting_tokens_locked S, st_remaining_prefill_tokens := remaining_tokens_locked S\<rparr>) S"

definition run_cycle :: "Impl \<Rightarrow> DispatchBatch Result \<times> Impl" where
  "run_cycle S =
     (let now = clock_now S; S = tick S;
          S = sweep now S;
          cs = candidates S;
          cands = sort_by (sorter now S) cs;
          S = touch_tenants cs S;
          (opn, S) = form_groups cands S;
          (batch, S) = dispatch_groups now opn S;
          S = refresh_gauges (age_waiting S)
      in (res_ok batch, S))"

end
