(* ===== verification/PF_Report.thy ===== *)
theory PF_Report
  imports PF_Cycle
begin

text \<open>
  \<^verbatim>\<open>PrefillScheduler::report_completion\<close>: the authority checks that reject stale and duplicate
  completions, and the application of an accepted result.
\<close>

definition reject_stale :: "MemberResult \<Rightarrow> string \<Rightarrow> Impl \<Rightarrow> Impl" where
  "reject_stale r why S = log_now ''stale'' (mr_request_id r) (mr_attempt_id r) why
     (upd_stats (\<lambda>st. st\<lparr>st_stale_authority_rejected := st_stale_authority_rejected st + 1\<rparr>) S)"

definition reject_duplicate :: "MemberResult \<Rightarrow> string \<Rightarrow> Impl \<Rightarrow> Impl" where
  "reject_duplicate r why S = log_now ''stale'' (mr_request_id r) (mr_attempt_id r) why
     (upd_stats (\<lambda>st. st\<lparr>st_duplicate_completion_rejected := st_duplicate_completion_rejected st + 1\<rparr>) S)"

text \<open>The checks, in order; \<open>None\<close> when the completion is authoritative.\<close>
definition completion_error :: "MemberResult \<Rightarrow> Impl \<Rightarrow> (ErrorInfo \<times> Impl) option" where
  "completion_error r S =
     (if is_nil (mr_epoch r) then Some (mk_error EC_illegal_state ''completion carries no epoch'', S)
      else if mr_epoch r \<noteq> sc_epoch S
      then Some (mk_error EC_stale_epoch ''stale scheduler epoch'', reject_stale r ''epoch'' S)
      else case map_of (sc_requests S) (mr_request_id r) of
        None \<Rightarrow> Some (mk_error EC_unknown_request ''unknown request'', S)
      | Some s \<Rightarrow>
          if (\<not> is_nil (mr_worker r) \<or> \<not> is_nil (mr_boot r)) \<and>
             (case map_of (sc_workers S) (mr_worker r) of
                None \<Rightarrow> True | Some w \<Rightarrow> wd_boot_id (ws_desc w) \<noteq> mr_boot r)
          then Some (mk_error EC_stale_worker ''stale worker boot id'', reject_stale r ''worker-boot'' S)
          else if mr_attempt_id r \<noteq> rs_attempt s
          then Some (mk_error EC_stale_attempt ''stale attempt'', reject_stale r ''attempt'' S)
          else if mr_generation r \<noteq> rs_current_generation s
          then Some (mk_error EC_stale_generation ''stale chunk/work generation'', reject_stale r ''generation'' S)
          else if is_terminal_lifecycle (rs_lifecycle s)
          then Some (mk_error EC_terminal_cancelled ''completion for terminal request'', reject_duplicate r ''terminal'' S)
          else if \<not> rs_in_flight s
          then Some (mk_error EC_duplicate_completion ''no in-flight work for this generation'',
                     reject_duplicate r ''no-inflight'' S)
          else if \<not> is_nil (mr_worker r) \<and> mr_worker r \<noteq> rs_dispatched_worker s
          then Some (mk_error EC_stale_worker ''completion from a different worker'',
                     upd_stats (\<lambda>st. st\<lparr>st_stale_authority_rejected := st_stale_authority_rejected st + 1\<rparr>) S)
          else None)"

text \<open>\<^verbatim>\<open>if (ts.admitted_tokens >= rem) ts.admitted_tokens -= rem;\<close> after the decrement of \<^verbatim>\<open>outstanding\<close>.\<close>
definition return_tokens :: "u64 \<Rightarrow> TenantService \<Rightarrow> TenantService" where
  "return_tokens rem ts =
     (let ts = dec_outstanding ts
      in if rem \<le> ts_admitted_tokens ts then ts\<lparr>ts_admitted_tokens := ts_admitted_tokens ts - rem\<rparr> else ts)"

text \<open>A new attempt restarts the plan from its first chunk.\<close>
definition restarted_rs :: "platform \<Rightarrow> SchedulerConfig \<Rightarrow> AttemptId \<Rightarrow> Rs \<Rightarrow> Rs" where
  "restarted_rs pf c a s = s\<lparr>rs_retries_used := rs_retries_used s + 1, rs_attempt := a,
     rs_plan := plan pf c (rs_request s) a (StrongId 0), rs_next_chunk_index := 0, rs_completed_uncached := 0,
     rs_completed_token_total := 0, rs_current_generation := StrongId 0, rs_lifecycle := LC_queued,
     rs_last_work_kind := WK_retried, rs_recovered_work := False\<rparr>"

text \<open>A request that leaves the live set for good: its lifecycle, trace line and tenant account.\<close>
definition finish_request :: "RequestId \<Rightarrow> Lifecycle \<Rightarrow> string \<Rightarrow> Impl \<Rightarrow> Impl" where
  "finish_request rid l msg S =
     (let req = rs_request (the_rs S rid);
          S = upd_rs rid (\<lambda>s. s\<lparr>rs_lifecycle := l\<rparr>) S;
          S = upd_tenant (tenant_id req) (return_tokens (remaining_prefill_tokens req)) S
      in upd_rs rid (add_trace msg) S)"

definition retry_request :: "platform \<Rightarrow> RequestId \<Rightarrow> Impl \<Rightarrow> Impl" where
  "retry_request pf rid S =
     (let (a, S) = alloc_attempt S;
          S = upd_rs rid (restarted_rs pf (sc_cfg S) a) S;
          S = upd_stats (\<lambda>st. st\<lparr>st_retried := st_retried st + 1\<rparr>) S;
          S = upd_rs rid (add_trace (''retryable failure; new attempt '' @ to_string_u64 (id_value a))) S
      in log_now ''retry'' (request_id (rs_request (the_rs S rid))) a (''attempt '' @ to_string_u64 (id_value a)) S)"

text \<open>Lines 616--627: account the chunk to the request, the statistics and the tenant.\<close>
definition account_chunk :: "RequestId \<Rightarrow> Impl \<Rightarrow> Impl" where
  "account_chunk rid S =
     (let s = the_rs S rid; ch = next_chunk s;
          S = upd_rs rid (\<lambda>s. s\<lparr>rs_in_flight := False, rs_chunks_done := rs_chunks_done s + 1,
                rs_completed_uncached := rs_completed_uncached s + ch_token_count ch,
                rs_completed_token_total := rs_completed_token_total s + ch_token_count ch\<rparr>) S;
          t = clock_now S; S = tick S;
          S = upd_stats (\<lambda>st. st\<lparr>st_completed_tokens := st_completed_tokens st + ch_token_count ch,
                st_execution_latency_total_ns := st_execution_latency_total_ns st + (t - rs_dispatch_time s),
                st_execution_latency_samples := st_execution_latency_samples st + 1\<rparr>) S;
          S = upd_tenant (tenant_id (rs_request s)) (\<lambda>ts. ts\<lparr>ts_scheduled_tokens := ts_scheduled_tokens ts + ch_token_count ch\<rparr>) S
      in upd_rs rid (\<lambda>s. s\<lparr>rs_normalized_service := f64_add (rs_normalized_service s) (f64_of_u64 (ch_token_count ch))\<rparr>) S)"

definition apply_success :: "RequestId \<Rightarrow> Impl \<Rightarrow> Impl" where
  "apply_success rid S =
     (let s = the_rs S rid; req = rs_request s in
      if rs_cancel_pending s
      then
        let S = finish_request rid LC_cancelled ''cancelled at chunk boundary''
                  (upd_rs rid (\<lambda>s. s\<lparr>rs_cancel_pending := False\<rparr>) S);
            S = upd_stats (\<lambda>st. st\<lparr>st_cancelled := st_cancelled st + 1\<rparr>) S
        in log_now ''cancel'' (request_id req) (rs_attempt s) ''chunk-boundary'' S
      else if unat (rs_next_chunk_index s + 1) < length (pl_chunks (rs_plan s))
      then upd_rs rid (\<lambda>s. add_trace ''chunk complete; advancing to next chunk''
             (s\<lparr>rs_next_chunk_index := rs_next_chunk_index s + 1, rs_lifecycle := LC_queued\<rparr>)) S
      else
        let S = upd_stats (\<lambda>st. st\<lparr>st_completed := st_completed st + 1\<rparr>) S;
            S = upd_tenant (tenant_id req) (\<lambda>ts. ts\<lparr>ts_completed_requests := ts_completed_requests ts + 1\<rparr>) S;
            S = finish_request rid LC_completed ''prefill completed'' S
        in log_now ''complete'' (request_id req) (rs_attempt s) ''ok'' S)"

text \<open>The branch on the outcome; \<open>needs_next_chunk\<close> takes the success branch.\<close>
definition apply_outcome :: "platform \<Rightarrow> MemberResult \<Rightarrow> Impl \<Rightarrow> Impl" where
  "apply_outcome pf r S =
     (let rid = mr_request_id r; s = the_rs S rid; req = rs_request s in
      if mr_outcome r = MO_stale_rejected
      then upd_stats (\<lambda>st. st\<lparr>st_stale_authority_rejected := st_stale_authority_rejected st + 1\<rparr>) S
      else if mr_outcome r = MO_retryable_failure
      then
        if rs_retries_used s < max_retries req
        then retry_request pf rid S
        else
          let S = upd_stats (\<lambda>st. st\<lparr>st_failed_non_retryable := st_failed_non_retryable st + 1\<rparr>) S;
              S = finish_request rid LC_failed_non_retryable ''retry budget exhausted; non-retryable failure'' S
          in log_now ''fail'' (request_id req) (rs_attempt s) ''non-retryable'' S
      else if mr_outcome r = MO_non_retryable_failure
      then
        let S = upd_stats (\<lambda>st. st\<lparr>st_failed_non_retryable := st_failed_non_retryable st + 1\<rparr>) S;
            S = finish_request rid LC_failed_non_retryable (''non-retryable failure: '' @ mr_message r) S
        in log_now ''fail'' (request_id req) (rs_attempt s) (mr_message r) S
      else if mr_outcome r = MO_cancelled
      then
        let S = finish_request rid LC_cancelled ''cancelled'' (upd_rs rid (\<lambda>s. s\<lparr>rs_cancel_pending := False\<rparr>) S);
            S = upd_stats (\<lambda>st. st\<lparr>st_cancelled := st_cancelled st + 1\<rparr>) S
        in log_now ''cancel'' (request_id req) (rs_attempt s) ''completion'' S
      else if mr_outcome r = MO_expired
      then
        let S = upd_stats (\<lambda>st. st\<lparr>st_expired := st_expired st + 1, st_deadline_missed := st_deadline_missed st + 1\<rparr>) S
        in finish_request rid LC_expired ''expired during execution'' S
      else apply_success rid S)"

text \<open>\<^verbatim>\<open>if (!s.current_group.is_nil()) { ...; s.current_group = GroupId(); }\<close>\<close>
definition detach :: "RequestId \<Rightarrow> Impl \<Rightarrow> Impl" where
  "detach rid S =
     (let s = the_rs S rid in
      if is_nil (rs_current_group s) then S
      else upd_rs rid (\<lambda>s. s\<lparr>rs_current_group := nil_id\<rparr>)
             (leave_group (rs_current_group s) (request_id (rs_request s)) S))"

definition apply_completion :: "platform \<Rightarrow> MemberResult \<Rightarrow> Impl \<Rightarrow> Impl" where
  "apply_completion pf r S =
     (let rid = mr_request_id r;
          S = account_chunk rid S;
          S = apply_outcome pf r S;
          S = release_reservation rid S;
          S = detach rid S
      in upd_stats (\<lambda>st. st\<lparr>st_remaining_prefill_tokens := remaining_tokens_locked S\<rparr>) S)"

definition report_completion :: "platform \<Rightarrow> MemberResult \<Rightarrow> Impl \<Rightarrow> unit Result \<times> Impl" where
  "report_completion pf r S =
     (case completion_error r S of
        Some (e, S') \<Rightarrow> (Inl e, S')
      | None \<Rightarrow> (res_ok (), apply_completion pf r S))"

end
