(* ===== verification/PF_Control.thy ===== *)
theory PF_Control
  imports PF_Report
begin

text \<open>
  Cancellation, forced retry, the worker registry, worker loss, epochs, and the in-process
  driver \<^verbatim>\<open>drive_until_quiescent\<close>, with the read-only views (\<^verbatim>\<open>snapshot\<close>, \<^verbatim>\<open>explain\<close> and the accessors).
\<close>

subsection \<open>Cancellation and retry\<close>

record CancelResult =
  ca_applied :: bool
  ca_was_terminal :: bool
  ca_code :: ErrorCode
  ca_message :: string

definition cancel_result :: "bool \<Rightarrow> bool \<Rightarrow> ErrorCode \<Rightarrow> string \<Rightarrow> CancelResult" where
  "cancel_result a t c m = \<lparr>ca_applied = a, ca_was_terminal = t, ca_code = c, ca_message = m\<rparr>"

definition cancel :: "RequestId \<Rightarrow> Impl \<Rightarrow> CancelResult \<times> Impl" where
  "cancel req S =
     (case map_of (sc_requests S) req of
        None \<Rightarrow> (cancel_result False False EC_not_found ''unknown request'', S)
      | Some s \<Rightarrow>
          if is_terminal_lifecycle (rs_lifecycle s)
          then (cancel_result False True EC_terminal_cancelled ''request already terminal'', S)
          else if rs_in_flight s
          then (cancel_result True False EC_ok ''cancellation pending at chunk boundary'',
                log_now ''cancel'' req (rs_attempt s) ''pending chunk boundary''
                  (upd_rs req (\<lambda>s. add_trace ''cancel requested; authoritative at next safe chunk boundary''
                     (s\<lparr>rs_cancel_pending := True\<rparr>)) S))
          else
            let S = upd_rs req (\<lambda>s. s\<lparr>rs_lifecycle := LC_cancelled\<rparr>) S;
                S = release_reservation req S;
                S = upd_stats (\<lambda>st. st\<lparr>st_cancelled := st_cancelled st + 1\<rparr>) S;
                S = upd_tenant (tenant_id (rs_request s)) (return_tokens (remaining_prefill_tokens (rs_request s))) S;
                S = (if is_nil (rs_current_group s) then S
                     else upd_rs req (\<lambda>s. s\<lparr>rs_current_group := nil_id\<rparr>) (leave_group (rs_current_group s) req S));
                S = upd_rs req (add_trace ''cancelled while waiting'') S;
                S = log_now ''cancel'' req (rs_attempt s) ''waiting'' S
            in (cancel_result True False EC_ok ''cancelled'', S))"

definition cancel_generation :: "RequestId \<Rightarrow> Generation \<Rightarrow> Impl \<Rightarrow> CancelResult \<times> Impl" where
  "cancel_generation req only_gen S =
     (case map_of (sc_requests S) req of
        None \<Rightarrow> (cancel_result False False EC_not_found ''unknown request'', S)
      | Some s \<Rightarrow>
          if is_terminal_lifecycle (rs_lifecycle s)
          then (cancel_result False True EC_terminal_cancelled ''request already terminal'', S)
          else if rs_in_flight s \<and> rs_current_generation s = only_gen
          then (cancel_result True False EC_ok ''generation cancellation pending'',
                upd_rs req (\<lambda>s. add_trace ''generation cancel requested; authoritative at chunk boundary''
                  (s\<lparr>rs_cancel_pending := True\<rparr>)) S)
          else (cancel_result False False EC_not_found ''generation not in-flight'', S))"

text \<open>Free a unit of the group's worker and erase the whole group.\<close>
definition drop_group :: "GroupId \<Rightarrow> Impl \<Rightarrow> Impl" where
  "drop_group gid S =
     (case map_of (sc_groups S) gid of
        None \<Rightarrow> S
      | Some g \<Rightarrow> S\<lparr>sc_workers := modify (gs_worker g)
                   (\<lambda>w. if ws_busy_units w > 0 then w\<lparr>ws_busy_units := ws_busy_units w - 1\<rparr> else w) (sc_workers S),
                 sc_groups := AList.delete gid (sc_groups S)\<rparr>)"

definition withdraw :: "RequestId \<Rightarrow> Impl \<Rightarrow> Impl" where
  "withdraw req S =
     (let s = the_rs S req in
      if \<not> rs_in_flight s then S
      else
        let S = release_reservation req S;
            S = upd_rs req (\<lambda>s. s\<lparr>rs_in_flight := False\<rparr>) S
        in if is_nil (rs_current_group s) then S
           else upd_rs req (\<lambda>s. s\<lparr>rs_current_group := nil_id\<rparr>) (drop_group (rs_current_group s) S))"

definition force_retry :: "platform \<Rightarrow> RequestId \<Rightarrow> Impl \<Rightarrow> unit Result \<times> Impl" where
  "force_retry pf req S =
     (case map_of (sc_requests S) req of
        None \<Rightarrow> (res_err EC_not_found ''unknown request'', S)
      | Some s \<Rightarrow>
          if is_terminal_lifecycle (rs_lifecycle s)
          then (res_err EC_illegal_state ''cannot retry a terminal request'', S)
          else
            let S = withdraw req S in
            if max_retries (rs_request s) \<le> rs_retries_used s
            then (res_err EC_capacity_exceeded ''retry budget exhausted'', S)
            else
              let (a, S) = alloc_attempt S;
                  S = upd_rs req (restarted_rs pf (sc_cfg S) a) S;
                  S = upd_stats (\<lambda>st. st\<lparr>st_retried := st_retried st + 1\<rparr>) S;
                  S = upd_rs req (add_trace (''forced retry; new attempt '' @ to_string_u64 (id_value a))) S
              in (res_ok (), log_now ''retry'' req a ''forced'' S))"

subsection \<open>Workers and epochs\<close>

definition register_worker :: "WorkerDescriptor \<Rightarrow> Impl \<Rightarrow> unit Result \<times> Impl" where
  "register_worker w S =
     (if is_nil (wd_worker_id w) then (res_err EC_invalid_argument ''worker id is nil'', S)
      else
        let (d, S) = (if is_nil (wd_boot_id w)
                      then (w\<lparr>wd_boot_id := StrongId (sc_next_boot S)\<rparr>, S\<lparr>sc_next_boot := sc_next_boot S + 1\<rparr>)
                      else (w, S));
            d = (if wd_state d = WS_unknown then d\<lparr>wd_state := WS_ready\<rparr> else d);
            S = S\<lparr>sc_workers := AList.update (wd_worker_id w)
                    \<lparr>ws_desc = d, ws_busy_units = 0, ws_local_exec = None\<rparr> (sc_workers S)\<rparr>
        in (res_ok (), log_now ''worker-register'' nil_id nil_id (''id='' @ to_string_u64 (id_value (wd_worker_id w))) S))"

definition set_worker_state :: "WorkerState \<Rightarrow> Ws \<Rightarrow> Ws" where
  "set_worker_state st w = w\<lparr>ws_desc := (ws_desc w)\<lparr>wd_state := st\<rparr>\<rparr>"

definition unregister_worker :: "WorkerId \<Rightarrow> Impl \<Rightarrow> unit Result \<times> Impl" where
  "unregister_worker w S =
     (case map_of (sc_workers S) w of
        None \<Rightarrow> (res_err EC_not_found ''unknown worker'', S)
      | Some _ \<Rightarrow>
          (res_ok (), log_now ''worker-retire'' nil_id nil_id (''id='' @ to_string_u64 (id_value w))
             (S\<lparr>sc_workers := modify w (set_worker_state WS_retired) (sc_workers S)\<rparr>)))"

text \<open>Requeue one outstanding request of a lost worker, on the same attempt and chunk.\<close>
definition recover_request :: "RequestId \<Rightarrow> Impl \<Rightarrow> Impl" where
  "recover_request rid S =
     (case map_of (sc_requests S) rid of
        None \<Rightarrow> S
      | Some s \<Rightarrow>
          if rs_in_flight s \<and> rs_lifecycle s = LC_dispatched
          then
            let S = upd_rs rid (\<lambda>s. s\<lparr>rs_in_flight := False, rs_recovered_work := True\<rparr>) S;
                S = release_reservation rid S;
                S = upd_rs rid (\<lambda>s. add_trace ''recovered after worker loss''
                      (s\<lparr>rs_current_generation := StrongId 0, rs_lifecycle := LC_queued\<rparr>)) S
            in log_now ''worker-lost'' rid (rs_attempt s) ''recovered'' S
          else S)"

definition recover_group :: "WorkerId \<Rightarrow> GroupId \<times> Gs \<Rightarrow> Impl \<Rightarrow> Impl" where
  "recover_group w kg S =
     (if gs_worker (snd kg) \<noteq> w then S
      else (let S = fold recover_request (gs_outstanding (snd kg)) S
            in S\<lparr>sc_groups := AList.delete (fst kg) (sc_groups S)\<rparr>))"

definition worker_lost :: "WorkerId \<Rightarrow> Impl \<Rightarrow> unit Result \<times> Impl" where
  "worker_lost w S =
     (let S = fold (recover_group w) (sc_groups S) S;
          S = S\<lparr>sc_workers := modify w (\<lambda>x. set_worker_state WS_lost (x\<lparr>ws_busy_units := 0\<rparr>)) (sc_workers S)\<rparr>
      in (res_ok (), log_now ''worker-lost'' nil_id nil_id (''id='' @ to_string_u64 (id_value w)) S))"

definition roll_epoch :: "Impl \<Rightarrow> unit Result \<times> Impl" where
  "roll_epoch S =
     (let e = StrongId (id_value (sc_epoch S) + 1); S = S\<lparr>sc_epoch := e\<rparr>
      in (res_ok (), log_now ''epoch-roll'' nil_id nil_id (''epoch='' @ to_string_u64 (id_value e)) S))"

text \<open>\<^verbatim>\<open>backend.empty() ? (ex ? ex->backend() : kBackendCpu) : backend\<close>\<close>
definition backend_of :: "string \<Rightarrow> Executor option \<Rightarrow> string" where
  "backend_of backend ex =
     (if backend = [] then (case ex of None \<Rightarrow> kBackendCpu | Some x \<Rightarrow> x_backend x) else backend)"

definition attach_executor :: "Executor option \<Rightarrow> string \<Rightarrow> Impl \<Rightarrow> Impl" where
  "attach_executor ex backend S =
     (let S = S\<lparr>sc_attached_executor := ex\<rparr> in
      case map_of (sc_workers S) (StrongId 0) of
        None \<Rightarrow>
          S\<lparr>sc_next_boot := sc_next_boot S + 1,
            sc_workers := AList.update (StrongId 0)
              \<lparr>ws_desc = default_worker\<lparr>wd_worker_id := StrongId 0, wd_boot_id := StrongId (sc_next_boot S),
                 wd_host := ''local'', wd_backend := backend_of backend ex, wd_capacity_units := 1,
                 wd_state := WS_ready,
                 wd_devices := [case ex of None \<Rightarrow> default_device | Some x \<Rightarrow> x_device x]\<rparr>,
               ws_busy_units = 0, ws_local_exec = ex\<rparr> (sc_workers S)\<rparr>
      | Some w \<Rightarrow>
          S\<lparr>sc_workers := AList.update (StrongId 0)
              (w\<lparr>ws_local_exec := ex,
                 ws_desc := (ws_desc w)\<lparr>wd_backend := backend_of backend ex, wd_state := WS_ready,
                   wd_devices := (case ex of None \<Rightarrow> [] | Some x \<Rightarrow> [x_device x])\<rparr>\<rparr>) (sc_workers S)\<rparr>)"

subsection \<open>The in-process driver\<close>

text \<open>The retryable failure reported for each member of a group that could not be executed.\<close>
definition failed_member :: "ErrorCode \<Rightarrow> string \<Rightarrow> Epoch \<Rightarrow> WorkerId \<Rightarrow> WorkerBootId \<Rightarrow> ExecutableMember \<Rightarrow> MemberResult" where
  "failed_member code msg e w boot m = default_member_result
     \<lparr>mr_request_id := em_request_id m, mr_attempt_id := em_attempt_id m, mr_generation := em_generation m,
      mr_outcome := MO_retryable_failure, mr_failure_code := code, mr_message := msg, mr_epoch := e,
      mr_worker := w, mr_boot := boot\<rparr>"

definition report_all :: "platform \<Rightarrow> MemberResult list \<Rightarrow> Impl \<Rightarrow> Impl" where
  "report_all pf rs S = fold (\<lambda>r S. snd (report_completion pf r S)) rs S"

definition stamp :: "Epoch \<Rightarrow> WorkerId \<Rightarrow> WorkerBootId \<Rightarrow> MemberResult \<Rightarrow> MemberResult" where
  "stamp e w boot r = r\<lparr>mr_epoch := e, mr_worker := w, mr_boot := boot\<rparr>"

definition drive_group :: "platform \<Rightarrow> DispatchedGroup \<Rightarrow> Impl \<Rightarrow> Impl" where
  "drive_group pf dg S =
     (let w = dg_assigned_worker dg;
          ex = (case map_of (sc_workers S) w of None \<Rightarrow> None | Some x \<Rightarrow> ws_local_exec x);
          boot = (case map_of (sc_workers S) w of None \<Rightarrow> nil_id | Some x \<Rightarrow> wd_boot_id (ws_desc x));
          e = sc_epoch S
      in case ex of
           None \<Rightarrow> report_all pf (map (failed_member EC_no_compatible_worker ''no in-process executor for worker'' e w boot)
                     (eg_members (dg_group dg))) S
         | Some x \<Rightarrow>
             let res = x_execute x (sc_exec_calls S) (dg_group dg) (resolve_tokens (sc_tokens S));
                 S = S\<lparr>sc_exec_calls := Suc (sc_exec_calls S)\<rparr>
             in case res of
                  Inl err \<Rightarrow> report_all pf (map (failed_member (err_code err) (err_message err) e w boot)
                               (eg_members (dg_group dg))) S
                | Inr out \<Rightarrow> report_all pf (map (stamp e w boot) (er_members out)) S)"

fun drive_until_quiescent :: "platform \<Rightarrow> nat \<Rightarrow> Impl \<Rightarrow> unit Result \<times> Impl" where
  "drive_until_quiescent pf 0 S = (res_ok (), S)"
| "drive_until_quiescent pf (Suc n) S =
     (case run_cycle S of
        (Inl e, S) \<Rightarrow> (Inl e, S)
      | (Inr batch, S) \<Rightarrow>
          if db_groups batch = [] then (res_ok (), S)
          else drive_until_quiescent pf n (fold (drive_group pf) (db_groups batch) S))"

subsection \<open>Views\<close>

definition running_ids :: "Impl \<Rightarrow> RequestId list" where
  "running_ids S = map fst (filter (\<lambda>(_, s). rs_in_flight s) (sc_requests S))"

definition snapshot :: "Impl \<Rightarrow> Snapshot" where
  "snapshot S = \<lparr>sn_queue_depth = queued_count_locked S, sn_waiting_tokens = waiting_tokens_locked S,
     sn_running_requests = of_nat (length (running_ids S)), sn_reserved_memory_bytes = mg_reserved (sc_mem S),
     sn_remaining_prefill_tokens = remaining_tokens_locked S, sn_completed_requests = st_completed (sc_stats S),
     sn_waiting_request_ids = map fst (filter (\<lambda>(_, s). is_waiting s) (sc_requests S)),
     sn_running_request_ids = running_ids S, sn_stats = sc_stats S\<rparr>"

definition explain :: "RequestId \<Rightarrow> Impl \<Rightarrow> Explain Result" where
  "explain req S =
     (case map_of (sc_requests S) req of
        None \<Rightarrow> res_err EC_not_found ''unknown request''
      | Some s \<Rightarrow> res_ok \<lparr>ex_request_id = req, ex_attempt_id = rs_attempt s,
          ex_lifecycle = to_string_Lifecycle (rs_lifecycle s), ex_trace = rs_trace s\<rparr>)"

definition is_terminal :: "RequestId \<Rightarrow> Impl \<Rightarrow> bool" where
  "is_terminal req S =
     (case map_of (sc_requests S) req of None \<Rightarrow> False | Some s \<Rightarrow> is_terminal_lifecycle (rs_lifecycle s))"

definition lifecycle_of :: "RequestId \<Rightarrow> Impl \<Rightarrow> Lifecycle option" where
  "lifecycle_of req S = map_option rs_lifecycle (map_of (sc_requests S) req)"

definition current_generation_of :: "RequestId \<Rightarrow> Impl \<Rightarrow> Generation" where
  "current_generation_of req S =
     (case map_of (sc_requests S) req of None \<Rightarrow> nil_id | Some s \<Rightarrow> rs_current_generation s)"

record InFlightInfo =
  if_group_id :: GroupId
  if_worker :: WorkerId
  if_requests :: "RequestId list"
  if_lifecycle :: Lifecycle

definition in_flight_groups :: "Impl \<Rightarrow> InFlightInfo list" where
  "in_flight_groups S = map (\<lambda>(gid, g). \<lparr>if_group_id = gid, if_worker = gs_worker g,
     if_requests = gs_outstanding g, if_lifecycle = LC_dispatched\<rparr>) (sc_groups S)"

end
