(* ===== verification/PF_Effects.thy ===== *)
theory PF_Effects
  imports PF_Control
begin

text \<open>
  The effect of every scheduler operation on each part of the state: which request record it
  rewrites and how, and what it leaves alone.  The invariants rest on these lemmas and
  never unfold an operation.
\<close>

abbreviation reqs :: "Impl \<Rightarrow> RequestId \<rightharpoonup> Rs" where
  "reqs S \<equiv> map_of (sc_requests S)"

subsection \<open>The updates of the state record\<close>

lemma the_rs_eq: "reqs S rid = Some s \<Longrightarrow> the_rs S rid = s"
  by (simp add: the_rs_def lookup_default_def)

lemma the_rs_cong: "reqs S = reqs S' \<Longrightarrow> the_rs S = the_rs S'"
  by (simp add: the_rs_def lookup_default_def fun_eq_iff)

lemma upd_rs_sel [simp]:
  "sc_cfg (upd_rs r f S) = sc_cfg S" "sc_clock (upd_rs r f S) = sc_clock S" "sc_ticks (upd_rs r f S) = sc_ticks S"
  "sc_tokens (upd_rs r f S) = sc_tokens S" "sc_mem (upd_rs r f S) = sc_mem S" "sc_events (upd_rs r f S) = sc_events S"
  "sc_stats (upd_rs r f S) = sc_stats S" "sc_epoch (upd_rs r f S) = sc_epoch S"
  "sc_next_generation (upd_rs r f S) = sc_next_generation S" "sc_next_attempt (upd_rs r f S) = sc_next_attempt S"
  "sc_next_group (upd_rs r f S) = sc_next_group S" "sc_next_reservation (upd_rs r f S) = sc_next_reservation S"
  "sc_groups (upd_rs r f S) = sc_groups S" "sc_workers (upd_rs r f S) = sc_workers S"
  "sc_tenants (upd_rs r f S) = sc_tenants S" "the_tenant (upd_rs r f S) = the_tenant S"
  "keys (sc_requests (upd_rs r f S)) = keys (sc_requests S)"
  "reqs (upd_rs r f S) = (reqs S)(r := map_option f (reqs S r))"
  by (simp_all add: upd_rs_def the_tenant_def fun_eq_iff alist_simps del: map_map)

lemma upd_tenant_sel [simp]:
  "sc_cfg (upd_tenant t f S) = sc_cfg S" "sc_clock (upd_tenant t f S) = sc_clock S" "sc_ticks (upd_tenant t f S) = sc_ticks S"
  "sc_tokens (upd_tenant t f S) = sc_tokens S" "sc_mem (upd_tenant t f S) = sc_mem S" "sc_events (upd_tenant t f S) = sc_events S"
  "sc_stats (upd_tenant t f S) = sc_stats S" "sc_epoch (upd_tenant t f S) = sc_epoch S"
  "sc_next_generation (upd_tenant t f S) = sc_next_generation S" "sc_next_attempt (upd_tenant t f S) = sc_next_attempt S"
  "sc_next_group (upd_tenant t f S) = sc_next_group S" "sc_next_reservation (upd_tenant t f S) = sc_next_reservation S"
  "sc_groups (upd_tenant t f S) = sc_groups S" "sc_workers (upd_tenant t f S) = sc_workers S"
  "sc_requests (upd_tenant t f S) = sc_requests S" "the_rs (upd_tenant t f S) = the_rs S"
  "the_tenant (upd_tenant t f S) = (the_tenant S)(t := f (the_tenant S t))"
  by (simp_all add: upd_tenant_def the_tenant_def the_rs_def lookup_default_def fun_eq_iff alist_simps)

lemma upd_stats_sel [simp]:
  "sc_cfg (upd_stats f S) = sc_cfg S" "sc_clock (upd_stats f S) = sc_clock S" "sc_ticks (upd_stats f S) = sc_ticks S"
  "sc_tokens (upd_stats f S) = sc_tokens S" "sc_mem (upd_stats f S) = sc_mem S" "sc_events (upd_stats f S) = sc_events S"
  "sc_stats (upd_stats f S) = f (sc_stats S)" "sc_epoch (upd_stats f S) = sc_epoch S"
  "sc_next_generation (upd_stats f S) = sc_next_generation S" "sc_next_attempt (upd_stats f S) = sc_next_attempt S"
  "sc_next_group (upd_stats f S) = sc_next_group S" "sc_next_reservation (upd_stats f S) = sc_next_reservation S"
  "sc_groups (upd_stats f S) = sc_groups S" "sc_workers (upd_stats f S) = sc_workers S"
  "sc_requests (upd_stats f S) = sc_requests S" "sc_tenants (upd_stats f S) = sc_tenants S"
  "the_rs (upd_stats f S) = the_rs S" "the_tenant (upd_stats f S) = the_tenant S"
  by (simp_all add: upd_stats_def the_rs_def the_tenant_def fun_eq_iff)

lemma upd_mem_sel [simp]:
  "sc_cfg (upd_mem f S) = sc_cfg S" "sc_clock (upd_mem f S) = sc_clock S" "sc_ticks (upd_mem f S) = sc_ticks S"
  "sc_tokens (upd_mem f S) = sc_tokens S" "sc_mem (upd_mem f S) = f (sc_mem S)" "sc_events (upd_mem f S) = sc_events S"
  "sc_stats (upd_mem f S) = sc_stats S" "sc_epoch (upd_mem f S) = sc_epoch S"
  "sc_next_generation (upd_mem f S) = sc_next_generation S" "sc_next_attempt (upd_mem f S) = sc_next_attempt S"
  "sc_next_group (upd_mem f S) = sc_next_group S" "sc_next_reservation (upd_mem f S) = sc_next_reservation S"
  "sc_groups (upd_mem f S) = sc_groups S" "sc_workers (upd_mem f S) = sc_workers S"
  "sc_requests (upd_mem f S) = sc_requests S" "sc_tenants (upd_mem f S) = sc_tenants S"
  "the_rs (upd_mem f S) = the_rs S" "the_tenant (upd_mem f S) = the_tenant S"
  by (simp_all add: upd_mem_def the_rs_def the_tenant_def fun_eq_iff)

lemma tick_sel [simp]:
  "sc_cfg (tick S) = sc_cfg S" "sc_tokens (tick S) = sc_tokens S" "sc_mem (tick S) = sc_mem S"
  "sc_events (tick S) = sc_events S" "sc_stats (tick S) = sc_stats S" "sc_epoch (tick S) = sc_epoch S"
  "sc_next_generation (tick S) = sc_next_generation S" "sc_next_attempt (tick S) = sc_next_attempt S"
  "sc_next_group (tick S) = sc_next_group S" "sc_next_reservation (tick S) = sc_next_reservation S"
  "sc_groups (tick S) = sc_groups S" "sc_workers (tick S) = sc_workers S" "sc_requests (tick S) = sc_requests S"
  "sc_tenants (tick S) = sc_tenants S" "the_rs (tick S) = the_rs S" "the_tenant (tick S) = the_tenant S"
  by (simp_all add: tick_def the_rs_def the_tenant_def fun_eq_iff)

lemma log_at_sel [simp]:
  "sc_cfg (log_at n ty r a d S) = sc_cfg S" "sc_tokens (log_at n ty r a d S) = sc_tokens S"
  "sc_mem (log_at n ty r a d S) = sc_mem S" "sc_stats (log_at n ty r a d S) = sc_stats S"
  "sc_epoch (log_at n ty r a d S) = sc_epoch S" "sc_next_generation (log_at n ty r a d S) = sc_next_generation S"
  "sc_next_attempt (log_at n ty r a d S) = sc_next_attempt S" "sc_next_group (log_at n ty r a d S) = sc_next_group S"
  "sc_next_reservation (log_at n ty r a d S) = sc_next_reservation S" "sc_groups (log_at n ty r a d S) = sc_groups S"
  "sc_workers (log_at n ty r a d S) = sc_workers S" "sc_requests (log_at n ty r a d S) = sc_requests S"
  "sc_tenants (log_at n ty r a d S) = sc_tenants S" "the_rs (log_at n ty r a d S) = the_rs S"
  "the_tenant (log_at n ty r a d S) = the_tenant S"
  by (simp_all add: log_at_def the_rs_def the_tenant_def fun_eq_iff)

lemma log_now_sel [simp]:
  "sc_cfg (log_now ty r a d S) = sc_cfg S" "sc_tokens (log_now ty r a d S) = sc_tokens S"
  "sc_mem (log_now ty r a d S) = sc_mem S" "sc_stats (log_now ty r a d S) = sc_stats S"
  "sc_epoch (log_now ty r a d S) = sc_epoch S" "sc_next_generation (log_now ty r a d S) = sc_next_generation S"
  "sc_next_attempt (log_now ty r a d S) = sc_next_attempt S" "sc_next_group (log_now ty r a d S) = sc_next_group S"
  "sc_next_reservation (log_now ty r a d S) = sc_next_reservation S" "sc_groups (log_now ty r a d S) = sc_groups S"
  "sc_workers (log_now ty r a d S) = sc_workers S" "sc_requests (log_now ty r a d S) = sc_requests S"
  "sc_tenants (log_now ty r a d S) = sc_tenants S" "the_rs (log_now ty r a d S) = the_rs S"
  "the_tenant (log_now ty r a d S) = the_tenant S"
  by (simp_all add: log_now_def)

lemma leave_group_sel [simp]:
  "sc_cfg (leave_group g r S) = sc_cfg S" "sc_clock (leave_group g r S) = sc_clock S" "sc_ticks (leave_group g r S) = sc_ticks S"
  "sc_tokens (leave_group g r S) = sc_tokens S" "sc_mem (leave_group g r S) = sc_mem S" "sc_events (leave_group g r S) = sc_events S"
  "sc_stats (leave_group g r S) = sc_stats S" "sc_epoch (leave_group g r S) = sc_epoch S"
  "sc_next_generation (leave_group g r S) = sc_next_generation S" "sc_next_attempt (leave_group g r S) = sc_next_attempt S"
  "sc_next_group (leave_group g r S) = sc_next_group S" "sc_next_reservation (leave_group g r S) = sc_next_reservation S"
  "sc_requests (leave_group g r S) = sc_requests S" "sc_tenants (leave_group g r S) = sc_tenants S"
  "the_rs (leave_group g r S) = the_rs S" "the_tenant (leave_group g r S) = the_tenant S"
  by (simp_all add: leave_group_def Let_def the_rs_def the_tenant_def fun_eq_iff split: option.splits)

lemma drop_group_sel [simp]:
  "sc_cfg (drop_group g S) = sc_cfg S" "sc_clock (drop_group g S) = sc_clock S" "sc_ticks (drop_group g S) = sc_ticks S"
  "sc_tokens (drop_group g S) = sc_tokens S" "sc_mem (drop_group g S) = sc_mem S" "sc_events (drop_group g S) = sc_events S"
  "sc_stats (drop_group g S) = sc_stats S" "sc_epoch (drop_group g S) = sc_epoch S"
  "sc_next_generation (drop_group g S) = sc_next_generation S" "sc_next_attempt (drop_group g S) = sc_next_attempt S"
  "sc_next_group (drop_group g S) = sc_next_group S" "sc_next_reservation (drop_group g S) = sc_next_reservation S"
  "sc_requests (drop_group g S) = sc_requests S" "sc_tenants (drop_group g S) = sc_tenants S"
  "the_rs (drop_group g S) = the_rs S" "the_tenant (drop_group g S) = the_tenant S"
  by (simp_all add: drop_group_def the_rs_def the_tenant_def fun_eq_iff split: option.splits)

lemma add_trace_sel [simp]:
  "rs_request (add_trace m s) = rs_request s" "rs_attempt (add_trace m s) = rs_attempt s"
  "rs_lifecycle (add_trace m s) = rs_lifecycle s" "rs_plan (add_trace m s) = rs_plan s"
  "rs_next_chunk_index (add_trace m s) = rs_next_chunk_index s" "rs_completed_uncached (add_trace m s) = rs_completed_uncached s"
  "rs_current_generation (add_trace m s) = rs_current_generation s" "rs_reservation (add_trace m s) = rs_reservation s"
  "rs_reserved_bytes (add_trace m s) = rs_reserved_bytes s" "rs_in_flight (add_trace m s) = rs_in_flight s"
  "rs_current_group (add_trace m s) = rs_current_group s" "rs_dispatched_worker (add_trace m s) = rs_dispatched_worker s"
  "rs_retries_used (add_trace m s) = rs_retries_used s" "rs_cancel_pending (add_trace m s) = rs_cancel_pending s"
  "rs_aging_cycles (add_trace m s) = rs_aging_cycles s" "rs_admit_time (add_trace m s) = rs_admit_time s"
  "rs_recovered_work (add_trace m s) = rs_recovered_work s"
  by (simp_all add: add_trace_def)

end
