(* ===== verification/PF_Invariant.thy ===== *)
theory PF_Invariant
  imports PF_Effects
begin

text \<open>
  The invariant of the scheduler state and the three shapes of change that every operation is
  made of: a change that leaves the essential part of the state alone, the rewriting of one
  request record, and the admission of a new one.
\<close>

subsection \<open>One request\<close>

definition is_live :: "Rs \<Rightarrow> bool" where
  "is_live s \<longleftrightarrow> \<not> is_terminal_lifecycle (rs_lifecycle s)"

text \<open>The request owns executing work.\<close>
definition is_active_work :: "Rs \<Rightarrow> bool" where
  "is_active_work s \<longleftrightarrow> rs_in_flight s \<and> rs_lifecycle s = LC_dispatched"

definition rs_ok :: "platform \<Rightarrow> SchedulerConfig \<Rightarrow> Rs \<Rightarrow> bool" where
  "rs_ok pf c s \<longleftrightarrow>
     rs_plan s = plan pf c (rs_request s) (rs_attempt s) (StrongId 0) \<and>
     length (pl_chunks (rs_plan s)) < 2 ^ 32 \<and>
     rs_lifecycle s \<in> {LC_queued, LC_dispatched, LC_completed, LC_failed_non_retryable, LC_cancelled, LC_expired} \<and>
     (rs_in_flight s \<longrightarrow> rs_lifecycle s \<in> {LC_dispatched, LC_expired}) \<and>
     (rs_lifecycle s \<in> {LC_queued, LC_dispatched} \<longrightarrow> remaining_prefill_tokens (rs_request s) \<noteq> 0) \<and>
     (rs_lifecycle s = LC_queued \<or> rs_in_flight s \<longrightarrow>
        has_pending_chunk s \<and> rs_completed_uncached s = ch_token_start (next_chunk s)) \<and>
     (rs_lifecycle s = LC_completed \<longrightarrow> rs_completed_uncached s = remaining_prefill_tokens (rs_request s)) \<and>
     0 \<le> rs_retries_used s \<and> rs_retries_used s \<le> max_retries (rs_request s)"

lemma rs_okI:
  assumes "rs_plan s = plan pf c (rs_request s) (rs_attempt s) (StrongId 0)" "length (pl_chunks (rs_plan s)) < 2 ^ 32"
    "rs_lifecycle s \<in> {LC_queued, LC_dispatched, LC_completed, LC_failed_non_retryable, LC_cancelled, LC_expired}"
    "rs_in_flight s \<Longrightarrow> rs_lifecycle s \<in> {LC_dispatched, LC_expired}"
    "rs_lifecycle s \<in> {LC_queued, LC_dispatched} \<Longrightarrow> remaining_prefill_tokens (rs_request s) \<noteq> 0"
    "rs_lifecycle s = LC_queued \<or> rs_in_flight s \<Longrightarrow> has_pending_chunk s"
    "rs_lifecycle s = LC_queued \<or> rs_in_flight s \<Longrightarrow> rs_completed_uncached s = ch_token_start (next_chunk s)"
    "rs_lifecycle s = LC_completed \<Longrightarrow> rs_completed_uncached s = remaining_prefill_tokens (rs_request s)"
    "0 \<le> rs_retries_used s" "rs_retries_used s \<le> max_retries (rs_request s)"
  shows "rs_ok pf c s"
  using assms unfolding rs_ok_def by blast

lemma rs_okD:
  assumes "rs_ok pf c s"
  shows "rs_plan s = plan pf c (rs_request s) (rs_attempt s) (StrongId 0)" "length (pl_chunks (rs_plan s)) < 2 ^ 32"
    "rs_lifecycle s \<in> {LC_queued, LC_dispatched, LC_completed, LC_failed_non_retryable, LC_cancelled, LC_expired}"
    "rs_in_flight s \<Longrightarrow> rs_lifecycle s \<in> {LC_dispatched, LC_expired}"
    "rs_lifecycle s \<in> {LC_queued, LC_dispatched} \<Longrightarrow> remaining_prefill_tokens (rs_request s) \<noteq> 0"
    "rs_lifecycle s = LC_queued \<or> rs_in_flight s \<Longrightarrow> has_pending_chunk s"
    "rs_lifecycle s = LC_queued \<or> rs_in_flight s \<Longrightarrow> rs_completed_uncached s = ch_token_start (next_chunk s)"
    "rs_lifecycle s = LC_completed \<Longrightarrow> rs_completed_uncached s = remaining_prefill_tokens (rs_request s)"
    "0 \<le> rs_retries_used s" "rs_retries_used s \<le> max_retries (rs_request s)"
  using assms unfolding rs_ok_def by blast+

text \<open>A record on the same plan and attempt.\<close>
lemma rs_ok_same_plan:
  assumes ok: "rs_ok pf c s"
    and e: "rs_plan t = rs_plan s" "rs_request t = rs_request s" "rs_attempt t = rs_attempt s" "rs_retries_used t = rs_retries_used s"
    and l: "rs_lifecycle t \<in> {LC_queued, LC_dispatched, LC_completed, LC_failed_non_retryable, LC_cancelled, LC_expired}"
      "rs_in_flight t \<Longrightarrow> rs_lifecycle t \<in> {LC_dispatched, LC_expired}"
      "rs_lifecycle t \<in> {LC_queued, LC_dispatched} \<Longrightarrow> rs_lifecycle s \<in> {LC_queued, LC_dispatched}"
      "rs_lifecycle t = LC_queued \<or> rs_in_flight t \<Longrightarrow> has_pending_chunk t"
      "rs_lifecycle t = LC_queued \<or> rs_in_flight t \<Longrightarrow> rs_completed_uncached t = ch_token_start (next_chunk t)"
      "rs_lifecycle t = LC_completed \<Longrightarrow> rs_completed_uncached t = remaining_prefill_tokens (rs_request s)"
  shows "rs_ok pf c t"
proof (rule rs_okI)
  note d = rs_okD [OF ok]
  show "rs_plan t = plan pf c (rs_request t) (rs_attempt t) (StrongId 0)" unfolding e by (rule d(1))
  show "length (pl_chunks (rs_plan t)) < 2 ^ 32" unfolding e by (rule d(2))
  show "rs_lifecycle t \<in> {LC_queued, LC_dispatched} \<Longrightarrow> remaining_prefill_tokens (rs_request t) \<noteq> 0"
    unfolding e by (rule d(5) [OF l(3)])
  show "0 \<le> rs_retries_used t" "rs_retries_used t \<le> max_retries (rs_request t)" unfolding e by (rule d(9), rule d(10))
  show "rs_lifecycle t = LC_completed \<Longrightarrow> rs_completed_uncached t = remaining_prefill_tokens (rs_request t)"
    unfolding e by (rule l(6))
qed (fact l)+

lemma same_chunk:
  assumes "rs_plan t = rs_plan s" "rs_next_chunk_index t = rs_next_chunk_index s"
  shows "has_pending_chunk t = has_pending_chunk s" "next_chunk t = next_chunk s"
  by (simp_all only: has_pending_chunk_def next_chunk_def assms)

lemma chunk_upd [simp]:
  "has_pending_chunk (add_trace m s) = has_pending_chunk s" "next_chunk (add_trace m s) = next_chunk s"
  "has_pending_chunk (s\<lparr>rs_lifecycle := l\<rparr>) = has_pending_chunk s" "next_chunk (s\<lparr>rs_lifecycle := l\<rparr>) = next_chunk s"
  by (simp_all add: has_pending_chunk_def next_chunk_def)

subsection \<open>The whole state\<close>

definition table_ok :: "platform \<Rightarrow> Impl \<Rightarrow> bool" where
  "table_ok pf S \<longleftrightarrow> distinct (keys (sc_requests S)) \<and>
     (\<forall>rid s. reqs S rid = Some s \<longrightarrow> request_id (rs_request s) = rid \<and> rs_ok pf (sc_cfg S) s)"

text \<open>
  Ownership of memory: the requests that hold a reservation are those whose work is executing
  (and those in \<open>X\<close>, which are being dispatched); the ledger has their entries and no other.
\<close>
definition mem_ok :: "RequestId set \<Rightarrow> Impl \<Rightarrow> bool" where
  "mem_ok X S \<longleftrightarrow>
     gov_inv (sc_mem S) \<and> 0 < unat (sc_next_reservation S) \<and>
     (\<forall>rid s. reqs S rid = Some s \<longrightarrow> (rs_reservation s \<noteq> nil_id \<longleftrightarrow> is_active_work s \<or> rid \<in> X)) \<and>
     (\<forall>rid s. reqs S rid = Some s \<longrightarrow> rs_reservation s \<noteq> nil_id \<longrightarrow>
        ledger (sc_mem S) (rs_reservation s) = Some (unat (rs_reserved_bytes s))) \<and>
     (\<forall>i. ledger (sc_mem S) i \<noteq> None \<longrightarrow> i \<noteq> nil_id \<and> unat (id_value i) < unat (sc_next_reservation S) \<and>
        (\<exists>rid s. reqs S rid = Some s \<and> rs_reservation s = i)) \<and>
     (\<forall>rid s rid' s'. reqs S rid = Some s \<longrightarrow> reqs S rid' = Some s' \<longrightarrow>
        rs_reservation s = rs_reservation s' \<longrightarrow> rs_reservation s \<noteq> nil_id \<longrightarrow> rid = rid')"

definition live_of :: "TenantId \<Rightarrow> Rs \<Rightarrow> nat" where
  "live_of t s = (if tenant_id (rs_request s) = t \<and> is_live s then 1 else 0)"

definition live_count :: "TenantId \<Rightarrow> Impl \<Rightarrow> nat" where
  "live_count t S = asum (\<lambda>_ s. live_of t s) (sc_requests S)"

text \<open>A tenant's outstanding counter is exact; its fairness inputs never leave their defaults.\<close>
definition tenants_ok :: "Impl \<Rightarrow> bool" where
  "tenants_ok S \<longleftrightarrow>
     (\<forall>t. unat (ts_outstanding (the_tenant S t)) = live_count t S \<and>
          ts_weight (the_tenant S t) = f64_one \<and> ts_normalized_service (the_tenant S t) = f64_zero)"

definition lc_count :: "Lifecycle \<Rightarrow> Impl \<Rightarrow> nat" where
  "lc_count l S = asum (\<lambda>_ s. if rs_lifecycle s = l then 1 else 0) (sc_requests S)"

definition stat_of :: "Lifecycle \<Rightarrow> Stats \<Rightarrow> u64" where
  "stat_of l st =
     (if l = LC_completed then st_completed st else if l = LC_cancelled then st_cancelled st
      else if l = LC_expired then st_expired st else st_failed_non_retryable st)"

definition final_states :: "Lifecycle set" where
  "final_states = {LC_completed, LC_cancelled, LC_expired, LC_failed_non_retryable}"

text \<open>The cumulative counters agree with the table.\<close>
definition counters_ok :: "Impl \<Rightarrow> bool" where
  "counters_ok S \<longleftrightarrow> st_admitted (sc_stats S) = of_nat (length (sc_requests S)) \<and>
     (\<forall>l \<in> final_states. stat_of l (sc_stats S) = of_nat (lc_count l S))"

definition gens_ok :: "Impl \<Rightarrow> bool" where
  "gens_ok S \<longleftrightarrow> 0 < unat (sc_next_generation S) \<and>
     (\<forall>rid s. reqs S rid = Some s \<longrightarrow> unat (id_value (rs_current_generation s)) < unat (sc_next_generation S) \<and>
        (rs_in_flight s \<longrightarrow> rs_current_generation s \<noteq> nil_id)) \<and>
     (\<forall>rid s rid' s'. reqs S rid = Some s \<longrightarrow> reqs S rid' = Some s' \<longrightarrow> rs_in_flight s \<longrightarrow> rs_in_flight s' \<longrightarrow>
        rs_current_generation s = rs_current_generation s' \<longrightarrow> rid = rid')"

definition sched_inv :: "platform \<Rightarrow> RequestId set \<Rightarrow> Impl \<Rightarrow> bool" where
  "sched_inv pf X S \<longleftrightarrow> table_ok pf S \<and> mem_ok X S \<and> tenants_ok S \<and> counters_ok S \<and> gens_ok S"

subsection \<open>How a request may evolve\<close>

text \<open>
  \<open>n\<close> is the next generation value before the change.  A terminal request is frozen; work that
  is active afterwards either was active before, under the same authority, or has a generation
  allocated by the change.
\<close>
definition evolve :: "u64 \<Rightarrow> Rs \<Rightarrow> Rs \<Rightarrow> bool" where
  "evolve n s s' \<longleftrightarrow>
     rs_request s' = rs_request s \<and>
     (\<not> is_live s \<longrightarrow> rs_lifecycle s' = rs_lifecycle s \<and> rs_attempt s' = rs_attempt s \<and>
        rs_completed_uncached s' = rs_completed_uncached s) \<and>
     (is_active_work s' \<longrightarrow>
        is_active_work s \<and> rs_current_generation s' = rs_current_generation s \<and> rs_attempt s' = rs_attempt s
        \<or> n \<le> id_value (rs_current_generation s'))"

definition evolves :: "Impl \<Rightarrow> Impl \<Rightarrow> bool" where
  "evolves S S' \<longleftrightarrow> sc_next_generation S \<le> sc_next_generation S' \<and>
     (\<forall>rid s. reqs S rid = Some s \<longrightarrow> (\<exists>s'. reqs S' rid = Some s' \<and> evolve (sc_next_generation S) s s'))"

lemma evolve_refl [simp]: "evolve n s s"
  by (simp add: evolve_def)

lemma evolves_refl [simp]: "evolves S S"
  by (simp add: evolves_def)

lemma evolve_trans:
  assumes a: "evolve n s s'" and b: "evolve n' s' s''" and le: "n \<le> n'"
  shows "evolve n s s''"
  unfolding evolve_def
proof (intro conjI impI)
  show "rs_request s'' = rs_request s" using a b by (simp add: evolve_def)
next
  assume "\<not> is_live s"
  moreover from this have "\<not> is_live s'" using a by (simp add: evolve_def is_live_def)
  ultimately show "rs_lifecycle s'' = rs_lifecycle s" "rs_attempt s'' = rs_attempt s"
      "rs_completed_uncached s'' = rs_completed_uncached s"
    using a b by (simp_all add: evolve_def)
next
  assume "is_active_work s''"
  then consider "is_active_work s'" "rs_current_generation s'' = rs_current_generation s'" "rs_attempt s'' = rs_attempt s'"
    | "n' \<le> id_value (rs_current_generation s'')"
    using b unfolding evolve_def by blast
  then show "is_active_work s \<and> rs_current_generation s'' = rs_current_generation s \<and> rs_attempt s'' = rs_attempt s
      \<or> n \<le> id_value (rs_current_generation s'')"
  proof cases
    case 1
    then show ?thesis using a unfolding evolve_def by auto
  next
    case 2
    show ?thesis by (rule disjI2) (rule order_trans [OF le 2])
  qed
qed

lemma evolves_trans: "evolves S S' \<Longrightarrow> evolves S' S'' \<Longrightarrow> evolves S S''"
  unfolding evolves_def by (meson evolve_trans order_trans)

subsection \<open>Changes without effect on the essential state\<close>

text \<open>The essential part of a request record: everything but its trace and its accounting fields.\<close>
definition core :: "Rs \<Rightarrow> Rs" where
  "core s = s\<lparr>rs_trace := [], rs_aging_cycles := 0, rs_normalized_service := 0, rs_chunks_done := 0,
     rs_completed_token_total := 0, rs_dispatch_time := 0, rs_first_dispatch_time := 0,
     rs_last_work_kind := WK_full_prompt, rs_cancel_pending := False, rs_recovered_work := False,
     rs_current_group := nil_id, rs_dispatched_worker := nil_id\<rparr>"

lemma core_eqD:
  assumes "core s' = core s"
  shows "rs_request s' = rs_request s" "rs_attempt s' = rs_attempt s" "rs_lifecycle s' = rs_lifecycle s"
    "rs_plan s' = rs_plan s" "rs_next_chunk_index s' = rs_next_chunk_index s"
    "rs_completed_uncached s' = rs_completed_uncached s" "rs_current_generation s' = rs_current_generation s"
    "rs_reservation s' = rs_reservation s" "rs_reserved_bytes s' = rs_reserved_bytes s"
    "rs_in_flight s' = rs_in_flight s" "rs_retries_used s' = rs_retries_used s" "rs_admit_time s' = rs_admit_time s"
  using arg_cong [OF assms, of rs_request] arg_cong [OF assms, of rs_attempt] arg_cong [OF assms, of rs_lifecycle]
    arg_cong [OF assms, of rs_plan] arg_cong [OF assms, of rs_next_chunk_index]
    arg_cong [OF assms, of rs_completed_uncached] arg_cong [OF assms, of rs_current_generation]
    arg_cong [OF assms, of rs_reservation] arg_cong [OF assms, of rs_reserved_bytes]
    arg_cong [OF assms, of rs_in_flight] arg_cong [OF assms, of rs_retries_used] arg_cong [OF assms, of rs_admit_time]
  by (simp_all add: core_def)

lemma core_add_trace [simp]: "core (add_trace m s) = core s"
  by (simp add: core_def add_trace_def)

definition quiet :: "Impl \<Rightarrow> Impl \<Rightarrow> bool" where
  "quiet S S' \<longleftrightarrow>
     keys (sc_requests S') = keys (sc_requests S) \<and>
     (\<forall>rid. map_option core (reqs S' rid) = map_option core (reqs S rid)) \<and>
     sc_cfg S' = sc_cfg S \<and> sc_mem S' = sc_mem S \<and> sc_next_reservation S' = sc_next_reservation S \<and>
     sc_next_generation S' = sc_next_generation S \<and>
     (\<forall>t. ts_outstanding (the_tenant S' t) = ts_outstanding (the_tenant S t) \<and>
          ts_weight (the_tenant S' t) = ts_weight (the_tenant S t) \<and>
          ts_normalized_service (the_tenant S' t) = ts_normalized_service (the_tenant S t)) \<and>
     st_admitted (sc_stats S') = st_admitted (sc_stats S) \<and>
     (\<forall>l \<in> final_states. stat_of l (sc_stats S') = stat_of l (sc_stats S))"

lemma quiet_refl [simp]: "quiet S S"
  by (simp add: quiet_def)

lemma quiet_trans: "quiet S S' \<Longrightarrow> quiet S' S'' \<Longrightarrow> quiet S S''"
  by (simp add: quiet_def)

lemma quiet_reqs:
  assumes "quiet S S'" "reqs S' rid = Some s'"
  obtains s where "reqs S rid = Some s" "core s' = core s"
  using assms unfolding quiet_def by (metis map_option_eq_Some)

lemma quiet_reqs_back:
  assumes "quiet S S'" "reqs S rid = Some s"
  obtains s' where "reqs S' rid = Some s'" "core s' = core s"
  using assms unfolding quiet_def by (metis map_option_eq_Some)

lemma asum_quiet:
  assumes "quiet S S'" "distinct (keys (sc_requests S))" "\<And>s s'. core s' = core s \<Longrightarrow> f s' = f s"
  shows "asum (\<lambda>_ s. f s) (sc_requests S') = asum (\<lambda>_ s. f s) (sc_requests S)"
proof -
  have k: "keys (sc_requests S') = keys (sc_requests S)" using assms(1) by (simp add: quiet_def)
  have "f (the (reqs S' k)) = f (the (reqs S k))" if "k \<in> set (keys (sc_requests S))" for k
  proof -
    from map_of_keys_ex [OF that] obtain s where s: "reqs S k = Some s" ..
    from quiet_reqs_back [OF assms(1) this] obtain s' where s': "reqs S' k = Some s'" "core s' = core s" .
    show ?thesis by (simp only: s s'(1) option.sel assms(3) [OF s'(2)])
  qed
  then have "(\<Sum>k\<in>set (keys (sc_requests S)). f (the (reqs S' k))) = (\<Sum>k\<in>set (keys (sc_requests S)). f (the (reqs S k)))"
    by (intro sum.cong) simp_all
  then show ?thesis
    using asum_as_sum [of "sc_requests S'" f] asum_as_sum [OF assms(2), of f] assms(2) by (simp only: k)
qed

lemma core_views:
  assumes "core s' = core s"
  shows "is_live s' = is_live s" "is_active_work s' = is_active_work s" "live_of t s' = live_of t s"
    "has_pending_chunk s' = has_pending_chunk s" "next_chunk s' = next_chunk s"
  by (simp_all only: is_live_def is_active_work_def live_of_def has_pending_chunk_def next_chunk_def core_eqD [OF assms])

lemma core_rs_ok: "core s' = core s \<Longrightarrow> rs_ok pf c s' = rs_ok pf c s"
  by (simp only: rs_ok_def core_eqD [of s' s] core_views [of s' s])

lemma core_evolve: "core s' = core s \<Longrightarrow> evolve n s s'"
  unfolding evolve_def by (simp only: core_eqD [of s' s] core_views [of s' s]) blast

lemma quiet_evolves:
  assumes q: "quiet S S'"
  shows "evolves S S'"
  unfolding evolves_def
proof (intro conjI allI impI)
  show "sc_next_generation S \<le> sc_next_generation S'" using q by (simp add: quiet_def)
next
  fix rid s assume "reqs S rid = Some s"
  from quiet_reqs_back [OF q this] obtain s' where s': "reqs S' rid = Some s'" "core s' = core s" .
  show "\<exists>s'. reqs S' rid = Some s' \<and> evolve (sc_next_generation S) s s'"
    by (intro exI conjI, rule s'(1), rule core_evolve [OF s'(2)])
qed

lemma table_quiet:
  assumes q: "quiet S S'" and t: "table_ok pf S"
  shows "table_ok pf S'"
  unfolding table_ok_def
proof (intro conjI allI impI)
  show "distinct (keys (sc_requests S'))" using q t by (simp add: quiet_def table_ok_def)
next
  fix rid s' assume "reqs S' rid = Some s'"
  from quiet_reqs [OF q this] obtain s where s: "reqs S rid = Some s" "core s' = core s" .
  then have "request_id (rs_request s) = rid" "rs_ok pf (sc_cfg S) s" using t by (auto simp: table_ok_def)
  moreover have "sc_cfg S' = sc_cfg S" using q by (simp add: quiet_def)
  ultimately show "request_id (rs_request s') = rid" "rs_ok pf (sc_cfg S') s'"
    by (simp_all only: core_eqD [OF s(2)] core_rs_ok [OF s(2)])
qed

text \<open>Every record of the new state has one with the same essential fields in the old state.\<close>
lemma quiet_back:
  assumes "quiet S S'" "reqs S' rid = Some s'"
  shows "\<exists>s. reqs S rid = Some s \<and> rs_reservation s = rs_reservation s' \<and> rs_reserved_bytes s = rs_reserved_bytes s' \<and>
    is_active_work s = is_active_work s' \<and> rs_current_generation s = rs_current_generation s' \<and> rs_in_flight s = rs_in_flight s'"
proof -
  from quiet_reqs [OF assms] obtain s where s: "reqs S rid = Some s" "core s' = core s" .
  then show ?thesis using core_eqD [OF s(2)] core_views [OF s(2)] by auto
qed

lemma gens_okI:
  assumes "0 < unat (sc_next_generation S)"
    and "\<And>rid s. reqs S rid = Some s \<Longrightarrow> unat (id_value (rs_current_generation s)) < unat (sc_next_generation S)"
    and "\<And>rid s. reqs S rid = Some s \<Longrightarrow> rs_in_flight s \<Longrightarrow> rs_current_generation s \<noteq> nil_id"
    and "\<And>rid s rid' s'. reqs S rid = Some s \<Longrightarrow> reqs S rid' = Some s' \<Longrightarrow> rs_in_flight s \<Longrightarrow> rs_in_flight s' \<Longrightarrow>
        rs_current_generation s = rs_current_generation s' \<Longrightarrow> rid = rid'"
  shows "gens_ok S"
  using assms unfolding gens_ok_def by blast

lemma gens_okD:
  assumes "gens_ok S"
  shows "0 < unat (sc_next_generation S)"
    and "reqs S rid = Some s \<Longrightarrow> unat (id_value (rs_current_generation s)) < unat (sc_next_generation S)"
    and "reqs S rid = Some s \<Longrightarrow> rs_in_flight s \<Longrightarrow> rs_current_generation s \<noteq> nil_id"
    and "reqs S rid = Some s \<Longrightarrow> reqs S rid' = Some s' \<Longrightarrow> rs_in_flight s \<Longrightarrow> rs_in_flight s' \<Longrightarrow>
        rs_current_generation s = rs_current_generation s' \<Longrightarrow> rid = rid'"
  using assms unfolding gens_ok_def by blast+

lemma gens_quiet:
  assumes q: "quiet S S'" and g: "gens_ok S"
  shows "gens_ok S'"
proof -
  have n: "sc_next_generation S' = sc_next_generation S" using q by (simp add: quiet_def)
  note d = gens_okD [OF g]
  show ?thesis
  proof (rule gens_okI, unfold n)
    fix rid s assume "reqs S' rid = Some s"
    from quiet_back [OF q this] obtain s0 where s0: "reqs S rid = Some s0"
      "rs_current_generation s0 = rs_current_generation s" "rs_in_flight s0 = rs_in_flight s" by blast
    show "unat (id_value (rs_current_generation s)) < unat (sc_next_generation S)"
      using d(2) [OF s0(1)] by (simp only: s0)
    show "rs_in_flight s \<Longrightarrow> rs_current_generation s \<noteq> nil_id"
      using d(3) [OF s0(1)] by (simp only: s0 not_False_eq_True simp_thms)
  next
    fix rid s rid' s' assume s: "reqs S' rid = Some s" "reqs S' rid' = Some s'" "rs_in_flight s" "rs_in_flight s'"
      "rs_current_generation s = rs_current_generation s'"
    from quiet_back [OF q s(1)] obtain s0 where s0: "reqs S rid = Some s0"
      "rs_current_generation s0 = rs_current_generation s" "rs_in_flight s0 = rs_in_flight s" by blast
    from quiet_back [OF q s(2)] obtain s1 where s1: "reqs S rid' = Some s1"
      "rs_current_generation s1 = rs_current_generation s'" "rs_in_flight s1 = rs_in_flight s'" by blast
    show "rid = rid'" by (rule d(4) [OF s0(1) s1(1)]) (simp_all only: s0 s1 s)
  qed (rule d(1))
qed

lemma mem_okI:
  assumes "gov_inv (sc_mem S)" "0 < unat (sc_next_reservation S)"
    and "\<And>rid s. reqs S rid = Some s \<Longrightarrow> rs_reservation s \<noteq> nil_id \<longleftrightarrow> is_active_work s \<or> rid \<in> X"
    and "\<And>rid s. reqs S rid = Some s \<Longrightarrow> rs_reservation s \<noteq> nil_id \<Longrightarrow>
        ledger (sc_mem S) (rs_reservation s) = Some (unat (rs_reserved_bytes s))"
    and "\<And>i. ledger (sc_mem S) i \<noteq> None \<Longrightarrow> i \<noteq> nil_id \<and> unat (id_value i) < unat (sc_next_reservation S) \<and>
        (\<exists>rid s. reqs S rid = Some s \<and> rs_reservation s = i)"
    and "\<And>rid s rid' s'. reqs S rid = Some s \<Longrightarrow> reqs S rid' = Some s' \<Longrightarrow>
        rs_reservation s = rs_reservation s' \<Longrightarrow> rs_reservation s \<noteq> nil_id \<Longrightarrow> rid = rid'"
  shows "mem_ok X S"
  using assms unfolding mem_ok_def by blast

lemma mem_okD:
  assumes "mem_ok X S"
  shows "gov_inv (sc_mem S)" "0 < unat (sc_next_reservation S)"
    and "reqs S rid = Some s \<Longrightarrow> rs_reservation s \<noteq> nil_id \<longleftrightarrow> is_active_work s \<or> rid \<in> X"
    and "reqs S rid = Some s \<Longrightarrow> rs_reservation s \<noteq> nil_id \<Longrightarrow>
        ledger (sc_mem S) (rs_reservation s) = Some (unat (rs_reserved_bytes s))"
    and "ledger (sc_mem S) i \<noteq> None \<Longrightarrow> i \<noteq> nil_id"
    and "ledger (sc_mem S) i \<noteq> None \<Longrightarrow> unat (id_value i) < unat (sc_next_reservation S)"
    and "ledger (sc_mem S) i \<noteq> None \<Longrightarrow> \<exists>rid s. reqs S rid = Some s \<and> rs_reservation s = i"
    and "reqs S rid = Some s \<Longrightarrow> reqs S rid' = Some s' \<Longrightarrow>
        rs_reservation s = rs_reservation s' \<Longrightarrow> rs_reservation s \<noteq> nil_id \<Longrightarrow> rid = rid'"
  using assms unfolding mem_ok_def by blast+

lemma mem_quiet:
  assumes q: "quiet S S'" and m: "mem_ok X S"
  shows "mem_ok X S'"
proof -
  have e: "sc_mem S' = sc_mem S" "sc_next_reservation S' = sc_next_reservation S"
    using q by (simp_all add: quiet_def)
  note d = mem_okD [OF m]
  show ?thesis
  proof (rule mem_okI, unfold e)
    fix rid s assume "reqs S' rid = Some s"
    from quiet_back [OF q this] obtain s0 where s0: "reqs S rid = Some s0" "rs_reservation s0 = rs_reservation s"
      "rs_reserved_bytes s0 = rs_reserved_bytes s" "is_active_work s0 = is_active_work s" by blast
    show "rs_reservation s \<noteq> nil_id \<longleftrightarrow> is_active_work s \<or> rid \<in> X"
      using d(3) [OF s0(1)] by (simp only: s0)
    show "rs_reservation s \<noteq> nil_id \<Longrightarrow>
        ledger (sc_mem S) (rs_reservation s) = Some (unat (rs_reserved_bytes s))"
      using d(4) [OF s0(1)] by (simp only: s0 not_False_eq_True simp_thms)
  next
    fix i assume i: "ledger (sc_mem S) i \<noteq> None"
    obtain rid s where s: "reqs S rid = Some s" "rs_reservation s = i" using d(7) [OF i] by blast
    from quiet_reqs_back [OF q s(1)] obtain s' where "reqs S' rid = Some s'" "core s' = core s" .
    then show "i \<noteq> nil_id \<and> unat (id_value i) < unat (sc_next_reservation S) \<and>
        (\<exists>rid s. reqs S' rid = Some s \<and> rs_reservation s = i)"
      using d(5,6) [OF i] s(2) core_eqD(8) by blast
  next
    fix rid s rid' s' assume s: "reqs S' rid = Some s" "reqs S' rid' = Some s'"
      "rs_reservation s = rs_reservation s'" "rs_reservation s \<noteq> nil_id"
    from quiet_back [OF q s(1)] obtain s0 where s0: "reqs S rid = Some s0" "rs_reservation s0 = rs_reservation s" by blast
    from quiet_back [OF q s(2)] obtain s1 where s1: "reqs S rid' = Some s1" "rs_reservation s1 = rs_reservation s'" by blast
    show "rid = rid'" by (rule d(8) [OF s0(1) s1(1)]) (use s in \<open>simp_all only: s0 s1 not_False_eq_True\<close>)
  qed (rule d)+
qed

lemma tenants_quiet:
  assumes "quiet S S'" "distinct (keys (sc_requests S))" "tenants_ok S"
  shows "tenants_ok S'"
proof -
  have "live_count t S' = live_count t S" for t
    unfolding live_count_def by (rule asum_quiet [OF assms(1,2)]) (rule core_views(3))
  then show ?thesis using assms(1,3) by (simp add: tenants_ok_def quiet_def)
qed

lemma counters_quiet:
  assumes "quiet S S'" "distinct (keys (sc_requests S))" "counters_ok S"
  shows "counters_ok S'"
proof -
  have "lc_count l S' = lc_count l S" for l
    unfolding lc_count_def by (rule asum_quiet [OF assms(1,2)]) (drule core_eqD(3), simp only:)
  moreover have "length (sc_requests S') = length (sc_requests S)"
    using assms(1) map_eq_imp_length_eq [of fst "sc_requests S'" fst "sc_requests S"] by (simp only: quiet_def)
  ultimately show ?thesis
    using assms(1,3) by (simp add: counters_ok_def quiet_def)
qed

lemma sched_invD:
  assumes "sched_inv pf X S"
  shows "table_ok pf S" "mem_ok X S" "tenants_ok S" "counters_ok S" "gens_ok S" "distinct (keys (sc_requests S))"
  using assms unfolding sched_inv_def table_ok_def by blast+

lemma sched_inv_quiet:
  assumes "quiet S S'" "sched_inv pf X S"
  shows "sched_inv pf X S'"
proof -
  note d = sched_invD [OF assms(2)]
  show ?thesis
    unfolding sched_inv_def
    by (intro conjI, rule table_quiet [OF assms(1) d(1)], rule mem_quiet [OF assms(1) d(2)],
        rule tenants_quiet [OF assms(1) d(6,3)], rule counters_quiet [OF assms(1) d(6,4)], rule gens_quiet [OF assms(1) d(5)])
qed

subsection \<open>Rewriting one request record\<close>

definition moves :: "RequestId \<Rightarrow> Rs \<Rightarrow> Rs \<Rightarrow> Impl \<Rightarrow> Impl \<Rightarrow> bool" where
  "moves rid s s' S S' \<longleftrightarrow> reqs S rid = Some s \<and> reqs S' = (reqs S)(rid \<mapsto> s') \<and>
     keys (sc_requests S') = keys (sc_requests S) \<and> sc_cfg S' = sc_cfg S"

lemma alist_eqI:
  assumes "keys m' = keys m" "distinct (keys m)" "map_of m' = map_of m"
  shows "m' = m"
  using assms
proof (induction m arbitrary: m')
  case (Cons p m)
  obtain k v where p: "p = (k, v)" by (cases p)
  from Cons.prems(1) obtain v' n where m': "m' = (k, v') # n" "keys n = keys m"
    by (cases m') (auto simp: p)
  have at: "map_of ((k, v') # n) x = map_of ((k, v) # m) x" for x
    using Cons.prems(3) by (simp only: p m')
  have "v' = v" using at [of k] by simp
  moreover have "map_of n = map_of m"
  proof
    fix x
    show "map_of n x = map_of m x"
    proof (cases "x = k")
      case True
      have "k \<notin> set (keys m)" "k \<notin> set (keys n)" using Cons.prems(2) by (simp_all add: p m')
      then have "map_of m k = None" "map_of n k = None" by (simp_all add: map_of_eq_None_iff)
      then show ?thesis by (simp only: True)
    next
      case False
      then show ?thesis using at [of x] by simp
    qed
  qed
  moreover have "distinct (keys m)" using Cons.prems(2) by (simp add: p)
  ultimately have "n = m" "v' = v" using Cons.IH [of n] m'(2) by blast+
  then show ?case by (simp only: p m'(1))
qed simp

lemma movesD:
  assumes "moves rid s s' S S'"
  shows "reqs S rid = Some s" "reqs S' = (reqs S)(rid \<mapsto> s')"
    "keys (sc_requests S') = keys (sc_requests S)" "sc_cfg S' = sc_cfg S"
  using assms unfolding moves_def by blast+

lemma moves_update:
  assumes m: "moves rid s s' S S'" and d: "distinct (keys (sc_requests S))"
  shows "sc_requests S' = AList.update rid s' (sc_requests S)"
proof (rule alist_eqI)
  have "rid \<in> set (keys (sc_requests S))" by (rule map_of_keys [OF movesD(1) [OF m]])
  then show "keys (sc_requests S') = keys (AList.update rid s' (sc_requests S))"
    by (simp only: movesD(3) [OF m] AList.update_keys if_True)
  show "distinct (keys (AList.update rid s' (sc_requests S)))"
    by (rule AList.distinct_update [OF d])
  show "reqs S' = map_of (AList.update rid s' (sc_requests S))"
    by (simp only: movesD(2) [OF m] AList.update_conv')
qed

lemma asum_moves:
  assumes "moves rid s s' S S'" "distinct (keys (sc_requests S))"
  shows "asum f (sc_requests S') + f rid s = asum f (sc_requests S) + f rid s'"
  unfolding moves_update [OF assms] by (rule asum_update_old [OF movesD(1) [OF assms(1)]])

lemma moves_trans: "moves rid s s' S S' \<Longrightarrow> moves rid s' s'' S' S'' \<Longrightarrow> moves rid s s'' S S''"
  by (simp add: moves_def)

lemma table_moves:
  assumes "moves rid s s' S S'" "table_ok pf S" "rs_request s' = rs_request s" "rs_ok pf (sc_cfg S) s'"
  shows "table_ok pf S'"
  using assms by (auto simp: table_ok_def moves_def)

lemma evolves_moves:
  assumes "moves rid s s' S S'" "evolve (sc_next_generation S) s s'" "sc_next_generation S \<le> sc_next_generation S'"
  shows "evolves S S'"
  using assms by (auto simp: evolves_def moves_def)

end
