(* ===== verification/PF_Preserve.thy ===== *)
theory PF_Preserve
  imports PF_Invariant
begin

text \<open>
  Preservation of the scheduler invariant under the rewriting of one request record: the work
  of a request is withdrawn and the request stays live, or the request becomes terminal, or a
  new request is admitted.
\<close>

subsection \<open>Memory\<close>

text \<open>The governor after \<^verbatim>\<open>release_reservation\<close> of a request.\<close>
definition freed :: "Rs \<Rightarrow> MemoryGovernor \<Rightarrow> MemoryGovernor" where
  "freed s m = (if rs_reservation s = nil_id then m else snd (release (rs_reservation s) m))"

lemma ledger_freed: "ledger (freed s m) = (if rs_reservation s = nil_id then ledger m else (ledger m)(rs_reservation s := None))"
  by (simp add: freed_def ledger_release)

lemma gov_inv_freed: "gov_inv m \<Longrightarrow> gov_inv (freed s m)"
  by (simp add: freed_def release_inv)

lemma freed_nil [simp]: "rs_reservation s = nil_id \<Longrightarrow> freed s m = m"
  by (simp add: freed_def)

lemma mem_release:
  assumes mv: "moves rid s s' S S'" and m: "mem_ok X S"
    and s': "rs_reservation s' = nil_id" "\<not> is_active_work s'"
    and e: "sc_mem S' = freed s (sc_mem S)" "sc_next_reservation S' = sc_next_reservation S"
  shows "mem_ok (X - {rid}) S'"
proof -
  note d = mem_okD [OF m]
  have look: "reqs S' r = (if r = rid then Some s' else reqs S r)" for r
    by (simp only: movesD(2) [OF mv] fun_upd_apply)
  have other: "rs_reservation s0 \<noteq> rs_reservation s" if "reqs S r = Some s0" "r \<noteq> rid" "rs_reservation s0 \<noteq> nil_id" for r s0
    using d(8) [OF that(1) movesD(1) [OF mv]] that(2,3) by blast
  show ?thesis
  proof (rule mem_okI, unfold e)
    show "gov_inv (freed s (sc_mem S))" by (rule gov_inv_freed [OF d(1)])
    show "0 < unat (sc_next_reservation S)" by (rule d(2))
  next
    fix r s0 assume s0: "reqs S' r = Some s0"
    show "rs_reservation s0 \<noteq> nil_id \<longleftrightarrow> is_active_work s0 \<or> r \<in> X - {rid}"
    proof (cases "r = rid")
      case True
      with s0 have "s0 = s'" by (simp add: look)
      with True s' show ?thesis by simp
    next
      case False
      with s0 have "reqs S r = Some s0" by (simp add: look)
      from d(3) [OF this] False show ?thesis by simp
    qed
    assume nn: "rs_reservation s0 \<noteq> nil_id"
    then have "r \<noteq> rid" using s0 s'(1) by (auto simp: look)
    then have old: "reqs S r = Some s0" using s0 by (simp add: look)
    show "ledger (freed s (sc_mem S)) (rs_reservation s0) = Some (unat (rs_reserved_bytes s0))"
      using d(4) [OF old nn] other [OF old \<open>r \<noteq> rid\<close> nn] by (simp add: ledger_freed)
  next
    fix i assume i: "ledger (freed s (sc_mem S)) i \<noteq> None"
    then have l: "ledger (sc_mem S) i \<noteq> None" and ne: "i \<noteq> rs_reservation s \<or> rs_reservation s = nil_id"
      by (auto simp: ledger_freed split: if_splits)
    obtain r s0 where s0: "reqs S r = Some s0" "rs_reservation s0 = i" using d(7) [OF l] by blast
    have "r \<noteq> rid" using s0 ne movesD(1) [OF mv] d(5) [OF l] by auto
    then have "reqs S' r = Some s0" using s0(1) by (simp add: look)
    then show "i \<noteq> nil_id \<and> unat (id_value i) < unat (sc_next_reservation S) \<and>
        (\<exists>rid s. reqs S' rid = Some s \<and> rs_reservation s = i)"
      using d(5,6) [OF l] s0(2) by blast
  next
    fix r1 s1 r2 s2 assume a: "reqs S' r1 = Some s1" "reqs S' r2 = Some s2"
      "rs_reservation s1 = rs_reservation s2" "rs_reservation s1 \<noteq> nil_id"
    then have "r1 \<noteq> rid" "r2 \<noteq> rid" using s'(1) by (auto simp: look)
    then show "r1 = r2" using a d(8) [of r1 s1 r2 s2] by (simp add: look)
  qed
qed

subsection \<open>Tenants and counters\<close>

text \<open>The fields of a tenant account that the invariant reads.\<close>
definition tenant_core :: "TenantService \<Rightarrow> u64 \<times> f64 \<times> f64" where
  "tenant_core ts = (ts_outstanding ts, ts_weight ts, ts_normalized_service ts)"

definition same_tenants :: "Impl \<Rightarrow> Impl \<Rightarrow> bool" where
  "same_tenants S S' \<longleftrightarrow> (\<forall>t. tenant_core (the_tenant S' t) = tenant_core (the_tenant S t))"

lemma tenants_keep:
  assumes mv: "moves rid s s' S S'" "distinct (keys (sc_requests S))" and t: "tenants_ok S"
    and s': "rs_request s' = rs_request s" "is_live s' = is_live s" and same: "same_tenants S S'"
  shows "tenants_ok S'"
proof -
  have "live_of t s' = live_of t s" for t using s' by (simp add: live_of_def)
  then have "live_count t S' = live_count t S" for t
    using asum_moves [OF mv, of "\<lambda>_. live_of t"] by (simp add: live_count_def)
  then show ?thesis
    using t same by (simp add: tenants_ok_def same_tenants_def tenant_core_def)
qed

text \<open>One live request of a tenant leaves: its outstanding counter goes down by one.\<close>
definition tenant_left :: "TenantId \<Rightarrow> Impl \<Rightarrow> Impl \<Rightarrow> bool" where
  "tenant_left t S S' \<longleftrightarrow>
     (\<forall>u. tenant_core (the_tenant S' u) =
        (if u = t then tenant_core (dec_outstanding (the_tenant S u)) else tenant_core (the_tenant S u)))"

lemma tenants_finish:
  assumes mv: "moves rid s s' S S'" "distinct (keys (sc_requests S))" and t: "tenants_ok S"
    and s': "rs_request s' = rs_request s" "is_live s" "\<not> is_live s'"
    and left: "tenant_left (tenant_id (rs_request s)) S S'"
  shows "tenants_ok S'"
  unfolding tenants_ok_def
proof
  fix u
  let ?t = "tenant_id (rs_request s)"
  have sum: "live_count u S' + live_of u s = live_count u S + live_of u s'"
    using asum_moves [OF mv, of "\<lambda>_. live_of u"] by (simp add: live_count_def)
  have tu: "unat (ts_outstanding (the_tenant S u)) = live_count u S" "ts_weight (the_tenant S u) = f64_one"
    "ts_normalized_service (the_tenant S u) = f64_zero" using t by (simp_all add: tenants_ok_def)
  show "unat (ts_outstanding (the_tenant S' u)) = live_count u S' \<and> ts_weight (the_tenant S' u) = f64_one \<and>
      ts_normalized_service (the_tenant S' u) = f64_zero"
  proof (cases "u = ?t")
    case True
    then have c: "live_count u S' + 1 = live_count u S" using sum s' by (simp add: live_of_def)
    then have pos: "0 < unat (ts_outstanding (the_tenant S u))" using tu(1) by simp
    then have "0 < ts_outstanding (the_tenant S u)" by (simp add: word_less_nat_alt)
    moreover have "unat (ts_outstanding (the_tenant S u) - 1) = unat (ts_outstanding (the_tenant S u)) - 1"
      using pos by (simp add: unat_minus_one unat_gt_0)
    moreover have "tenant_core (the_tenant S' u) = tenant_core (dec_outstanding (the_tenant S u))"
      using left True by (simp add: tenant_left_def)
    ultimately show ?thesis
      using c tu by (simp add: tenant_core_def dec_outstanding_def)
  next
    case False
    then have "live_count u S' = live_count u S" using sum s'(1) by (simp add: live_of_def)
    moreover have "tenant_core (the_tenant S' u) = tenant_core (the_tenant S u)"
      using left False by (simp add: tenant_left_def)
    ultimately show ?thesis using tu by (simp add: tenant_core_def)
  qed
qed

text \<open>The counter of the terminal state that a request enters, if any, goes up by one.\<close>
definition counted :: "Lifecycle option \<Rightarrow> Impl \<Rightarrow> Impl \<Rightarrow> bool" where
  "counted l S S' \<longleftrightarrow> st_admitted (sc_stats S') = st_admitted (sc_stats S) \<and>
     (\<forall>f \<in> final_states. stat_of f (sc_stats S') = stat_of f (sc_stats S) + (if l = Some f then 1 else 0))"

lemma counters_moves:
  assumes mv: "moves rid s s' S S'" "distinct (keys (sc_requests S))" and c: "counters_ok S"
    and live: "rs_lifecycle s \<notin> final_states"
    and l: "counted (if rs_lifecycle s' \<in> final_states then Some (rs_lifecycle s') else None) S S'"
  shows "counters_ok S'"
proof -
  have "lc_count f S' = lc_count f S + (if rs_lifecycle s' = f then 1 else 0)" if "f \<in> final_states" for f
  proof -
    have "rs_lifecycle s \<noteq> f" using live that by blast
    then show ?thesis
      using asum_moves [OF mv, of "\<lambda>_ s. if rs_lifecycle s = f then 1 else 0"] by (simp add: lc_count_def)
  qed
  moreover have "length (sc_requests S') = length (sc_requests S)"
    using map_eq_imp_length_eq [OF movesD(3) [OF mv(1)]] .
  ultimately show ?thesis
    using c l by (auto simp: counters_ok_def counted_def)
qed

lemma gens_moves:
  assumes mv: "moves rid s s' S S'" and g: "gens_ok S"
    and s': "rs_in_flight s' \<Longrightarrow> rs_in_flight s \<and> rs_current_generation s' = rs_current_generation s"
      "rs_current_generation s' = rs_current_generation s \<or> rs_current_generation s' = nil_id"
    and e: "sc_next_generation S' = sc_next_generation S"
  shows "gens_ok S'"
proof -
  note d = gens_okD [OF g]
  have look: "reqs S' r = (if r = rid then Some s' else reqs S r)" for r
    by (simp only: movesD(2) [OF mv] fun_upd_apply)
  have old: "reqs S rid = Some s" by (rule movesD(1) [OF mv])
  have pre: "\<exists>s1. reqs S r = Some s1 \<and> rs_in_flight s1 \<and> rs_current_generation s1 = rs_current_generation s0"
    if "reqs S' r = Some s0" "rs_in_flight s0" for r s0
    using that s'(1) old by (cases "r = rid") (auto simp: look)
  show ?thesis
  proof (rule gens_okI, unfold e)
    show "0 < unat (sc_next_generation S)" by (rule d(1))
  next
    fix r s0 assume s0: "reqs S' r = Some s0"
    show "unat (id_value (rs_current_generation s0)) < unat (sc_next_generation S)"
    proof (cases "r = rid")
      case True
      then have "s0 = s'" using s0 by (simp add: look)
      then show ?thesis using s'(2) d(1) d(2) [OF old] by (auto simp: nil_id_def)
    next
      case False
      then show ?thesis using d(2) s0 by (simp add: look)
    qed
    assume "rs_in_flight s0"
    from pre [OF s0 this] show "rs_current_generation s0 \<noteq> nil_id" using d(3) by force
  next
    fix r1 s1 r2 s2 assume "reqs S' r1 = Some s1" "reqs S' r2 = Some s2" "rs_in_flight s1" "rs_in_flight s2"
      and eq: "rs_current_generation s1 = rs_current_generation s2"
    then obtain t1 t2 where "reqs S r1 = Some t1" "rs_in_flight t1" "rs_current_generation t1 = rs_current_generation s1"
      "reqs S r2 = Some t2" "rs_in_flight t2" "rs_current_generation t2 = rs_current_generation s2"
      using pre by meson
    then show "r1 = r2" using d(4) [of r1 t1 r2 t2] eq by simp
  qed
qed

subsection \<open>The two ways a request changes\<close>

lemma live_final: "rs_ok pf c s \<Longrightarrow> is_live s \<longleftrightarrow> rs_lifecycle s \<notin> final_states"
  using rs_okD(3) [of pf c s] by (auto simp: is_live_def is_terminal_lifecycle_def final_states_def)

lemma table_okD:
  assumes "table_ok pf S" "reqs S rid = Some s"
  shows "request_id (rs_request s) = rid" "rs_ok pf (sc_cfg S) s"
  using assms unfolding table_ok_def by blast+

text \<open>
  The work of a live request is withdrawn: it holds no memory, is not in flight, and keeps or
  forgets its generation.
\<close>
definition withdrawn :: "Rs \<Rightarrow> Rs \<Rightarrow> bool" where
  "withdrawn s s' \<longleftrightarrow> rs_request s' = rs_request s \<and> rs_reservation s' = nil_id \<and> \<not> rs_in_flight s' \<and>
     (rs_current_generation s' = rs_current_generation s \<or> rs_current_generation s' = nil_id)"

definition finished :: "Rs \<Rightarrow> Rs \<Rightarrow> bool" where
  "finished s s' \<longleftrightarrow> rs_request s' = rs_request s \<and> rs_reservation s' = nil_id \<and>
     rs_lifecycle s' \<in> final_states \<and> (rs_in_flight s' \<longrightarrow> rs_in_flight s) \<and>
     rs_current_generation s' = rs_current_generation s"

definition same_alloc :: "Impl \<Rightarrow> Impl \<Rightarrow> bool" where
  "same_alloc S S' \<longleftrightarrow> sc_next_reservation S' = sc_next_reservation S \<and> sc_next_generation S' = sc_next_generation S"

lemma inv_withdraw:
  assumes mv: "moves rid s s' S S'" and inv: "sched_inv pf X S" and w: "withdrawn s s'"
    and ok: "rs_ok pf (sc_cfg S) s'" and live: "is_live s" "is_live s'"
    and e: "sc_mem S' = freed s (sc_mem S)" "same_alloc S S'" "same_tenants S S'" "counted None S S'"
  shows "sched_inv pf (X - {rid}) S'" "evolves S S'"
proof -
  note d = sched_invD [OF inv]
  have lf: "rs_lifecycle s \<notin> final_states" "rs_lifecycle s' \<notin> final_states"
    using live_final [OF table_okD(2) [OF d(1) movesD(1) [OF mv]]] live_final [OF ok] live by blast+
  have na: "\<not> is_active_work s'" using w by (simp add: withdrawn_def is_active_work_def)
  have sa: "sc_next_reservation S' = sc_next_reservation S" "sc_next_generation S' = sc_next_generation S"
    using e(2) by (simp_all add: same_alloc_def)
  have rq: "rs_request s' = rs_request s" using w by (simp add: withdrawn_def)
  show "sched_inv pf (X - {rid}) S'"
    unfolding sched_inv_def
  proof (intro conjI)
    show "table_ok pf S'" by (rule table_moves [OF mv d(1) rq ok])
    show "mem_ok (X - {rid}) S'" by (rule mem_release [OF mv d(2) _ na e(1) sa(1)]) (use w in \<open>simp add: withdrawn_def\<close>)
    show "tenants_ok S'" by (rule tenants_keep [OF mv d(6,3) rq _ e(3)]) (use live in blast)
    show "counters_ok S'" by (rule counters_moves [OF mv d(6,4) lf(1)]) (use lf(2) e(4) in simp)
    show "gens_ok S'" by (rule gens_moves [OF mv d(5) _ _ sa(2)]) (use w in \<open>auto simp: withdrawn_def\<close>)
  qed
  show "evolves S S'"
    by (rule evolves_moves [OF mv]) (use live na rq sa(2) in \<open>simp_all add: evolve_def\<close>)
qed

lemma inv_finish:
  assumes mv: "moves rid s s' S S'" and inv: "sched_inv pf X S" and f: "finished s s'"
    and ok: "rs_ok pf (sc_cfg S) s'" and live: "is_live s"
    and e: "sc_mem S' = freed s (sc_mem S)" "same_alloc S S'"
      "tenant_left (tenant_id (rs_request s)) S S'" "counted (Some (rs_lifecycle s')) S S'"
  shows "sched_inv pf (X - {rid}) S'" "evolves S S'"
proof -
  note d = sched_invD [OF inv]
  have lf: "rs_lifecycle s \<notin> final_states" "rs_lifecycle s' \<in> final_states"
    using live_final [OF table_okD(2) [OF d(1) movesD(1) [OF mv]]] live f by (simp_all add: finished_def)
  have nl: "\<not> is_live s'" using lf(2) live_final [OF ok] by blast
  have na: "\<not> is_active_work s'" using lf(2) by (auto simp: is_active_work_def final_states_def)
  have sa: "sc_next_reservation S' = sc_next_reservation S" "sc_next_generation S' = sc_next_generation S"
    using e(2) by (simp_all add: same_alloc_def)
  have rq: "rs_request s' = rs_request s" using f by (simp add: finished_def)
  show "sched_inv pf (X - {rid}) S'"
    unfolding sched_inv_def
  proof (intro conjI)
    show "table_ok pf S'" by (rule table_moves [OF mv d(1) rq ok])
    show "mem_ok (X - {rid}) S'" by (rule mem_release [OF mv d(2) _ na e(1) sa(1)]) (use f in \<open>simp add: finished_def\<close>)
    show "tenants_ok S'" by (rule tenants_finish [OF mv d(6,3) rq live nl e(3)])
    show "counters_ok S'" by (rule counters_moves [OF mv d(6,4) lf(1)]) (use lf(2) e(4) in simp)
    show "gens_ok S'" by (rule gens_moves [OF mv d(5) _ _ sa(2)]) (use f in \<open>auto simp: finished_def\<close>)
  qed
  show "evolves S S'"
    by (rule evolves_moves [OF mv]) (use live na rq sa(2) in \<open>simp_all add: evolve_def\<close>)
qed

end
