(* ===== verification/PF_Lifecycle.thy ===== *)
theory PF_Lifecycle
  imports PF_Preserve
begin

text \<open>
  The invariant is preserved when a request expires and by the expiry sweep; and the arithmetic of
  advancing through a plan, chunk by chunk.
\<close>

subsection \<open>Releasing the reservation of a request\<close>

definition clear_res :: "Rs \<Rightarrow> Rs" where
  "clear_res s = (if rs_reservation s = nil_id then s else s\<lparr>rs_reservation := nil_id, rs_reserved_bytes := 0\<rparr>)"

lemma clear_res_sel [simp]:
  "rs_request (clear_res s) = rs_request s" "rs_attempt (clear_res s) = rs_attempt s"
  "rs_lifecycle (clear_res s) = rs_lifecycle s" "rs_plan (clear_res s) = rs_plan s"
  "rs_next_chunk_index (clear_res s) = rs_next_chunk_index s" "rs_completed_uncached (clear_res s) = rs_completed_uncached s"
  "rs_current_generation (clear_res s) = rs_current_generation s" "rs_reservation (clear_res s) = nil_id"
  "rs_in_flight (clear_res s) = rs_in_flight s" "rs_current_group (clear_res s) = rs_current_group s"
  "rs_dispatched_worker (clear_res s) = rs_dispatched_worker s"
  "rs_retries_used (clear_res s) = rs_retries_used s" "rs_cancel_pending (clear_res s) = rs_cancel_pending s"
  by (simp_all add: clear_res_def)

lemma clear_res_chunk [simp]: "has_pending_chunk (clear_res s) = has_pending_chunk s" "next_chunk (clear_res s) = next_chunk s"
  by (rule same_chunk; simp)+

lemma release_reservation_sel [simp]:
  "sc_cfg (release_reservation r S) = sc_cfg S" "sc_clock (release_reservation r S) = sc_clock S"
  "sc_ticks (release_reservation r S) = sc_ticks S" "sc_tokens (release_reservation r S) = sc_tokens S"
  "sc_events (release_reservation r S) = sc_events S" "sc_stats (release_reservation r S) = sc_stats S"
  "sc_epoch (release_reservation r S) = sc_epoch S" "sc_next_generation (release_reservation r S) = sc_next_generation S"
  "sc_next_attempt (release_reservation r S) = sc_next_attempt S" "sc_next_group (release_reservation r S) = sc_next_group S"
  "sc_next_reservation (release_reservation r S) = sc_next_reservation S"
  "sc_groups (release_reservation r S) = sc_groups S" "sc_workers (release_reservation r S) = sc_workers S"
  "the_tenant (release_reservation r S) = the_tenant S" "keys (sc_requests (release_reservation r S)) = keys (sc_requests S)"
  by (simp_all add: release_reservation_def Let_def del: map_map)

lemma release_reservation_reqs:
  "reqs S rid = Some s \<Longrightarrow> reqs (release_reservation rid S) = (reqs S)(rid \<mapsto> clear_res s)"
  by (auto simp: release_reservation_def the_rs_eq clear_res_def fun_eq_iff)

lemma release_reservation_mem:
  "reqs S rid = Some s \<Longrightarrow> sc_mem (release_reservation rid S) = freed s (sc_mem S)"
  by (simp add: release_reservation_def the_rs_eq freed_def)

lemmas request_effects = moves_def the_rs_eq release_reservation_reqs release_reservation_mem

lemma freed_upd [simp]:
  "freed (s\<lparr>rs_lifecycle := l\<rparr>) m = freed s m" "freed (add_trace t s) m = freed s m"
  "freed (s\<lparr>rs_in_flight := b, rs_recovered_work := c\<rparr>) m = freed s m"
  by (simp_all add: freed_def)

subsection \<open>Expiry\<close>

lemma dec_outstanding_core [simp]:
  "tenant_core (dec_outstanding (ts\<lparr>ts_completed_requests := n\<rparr>)) = tenant_core (dec_outstanding ts)"
  by (simp add: tenant_core_def dec_outstanding_def)

definition expired_rs :: "Rs \<Rightarrow> Rs" where
  "expired_rs s = add_trace (''expired; deadline='' @ to_string_int (case deadline (rs_request s) of None \<Rightarrow> 0 | Some d \<Rightarrow> d))
     (clear_res (s\<lparr>rs_lifecycle := LC_expired\<rparr>))"

lemma expire_moves: "reqs S rid = Some s \<Longrightarrow> moves rid s (expired_rs s) S (expire_request now rid S)"
  by (auto simp: expire_request_def Let_def request_effects expired_rs_def)

lemma expire_sel:
  assumes "reqs S rid = Some s"
  shows "sc_mem (expire_request now rid S) = freed s (sc_mem S)" "same_alloc S (expire_request now rid S)"
    "tenant_left (tenant_id (rs_request s)) S (expire_request now rid S)"
    "counted (Some LC_expired) S (expire_request now rid S)"
  using assms
  by (auto simp: expire_request_def Let_def request_effects same_alloc_def tenant_left_def counted_def stat_of_def final_states_def)

lemma rs_ok_expired: "rs_ok pf c s \<Longrightarrow> is_live s \<Longrightarrow> rs_ok pf c (expired_rs s)"
  by (rule rs_ok_same_plan [of pf c s])
    (use rs_okD(6,7) [of pf c s] in \<open>auto simp: expired_rs_def\<close>)

lemma expire_inv:
  assumes "sched_inv pf X S" "reqs S rid = Some s" "is_live s"
  shows "sched_inv pf (X - {rid}) (expire_request now rid S)" "evolves S (expire_request now rid S)"
proof -
  have ok: "rs_ok pf (sc_cfg S) (expired_rs s)"
    by (rule rs_ok_expired [OF table_okD(2) [OF sched_invD(1) [OF assms(1)] assms(2)] assms(3)])
  have f: "finished s (expired_rs s)" and l: "rs_lifecycle (expired_rs s) = LC_expired"
    by (simp_all add: finished_def expired_rs_def final_states_def)
  note e = expire_sel [OF assms(2), of now]
  show "sched_inv pf (X - {rid}) (expire_request now rid S)" "evolves S (expire_request now rid S)"
    using inv_finish [OF expire_moves [OF assms(2)] assms(1) f ok assms(3) e(1-3)] e(4) l by simp_all
qed

lemma sweep_one_inv:
  assumes "sched_inv pf {} S" "reqs S rid = Some s"
  shows "sched_inv pf {} (sweep_one now rid S)" "evolves S (sweep_one now rid S)"
proof -
  let ?T = "upd_stats (\<lambda>st. st\<lparr>st_queue_delay_exceeded := st_queue_delay_exceeded st + 1\<rparr>) S"
  have q: "quiet S ?T" by (simp add: quiet_def stat_of_def)
  have invT: "sched_inv pf {} ?T" by (rule sched_inv_quiet [OF q assms(1)])
  have rT: "reqs ?T rid = Some s" using assms(2) by simp
  have "sweep_one now rid S = (if \<not> is_live s then S else if past_deadline now s then expire_request now rid S
      else if waited_too_long now s then expire_request now rid ?T else S)"
    by (simp only: sweep_one_def Let_def the_rs_eq [OF assms(2)] is_live_def not_not)
  then consider "sweep_one now rid S = S" | "is_live s" "sweep_one now rid S = expire_request now rid S"
    | "is_live s" "sweep_one now rid S = expire_request now rid ?T"
    by (meson if_split)
  then have "sched_inv pf {} (sweep_one now rid S) \<and> evolves S (sweep_one now rid S)"
  proof cases
    case 1
    then show ?thesis using assms(1) by simp
  next
    case 2
    then show ?thesis using expire_inv [OF assms 2(1), of now] by simp
  next
    case 3
    then show ?thesis using expire_inv [OF invT rT 3(1), of now] evolves_trans [OF quiet_evolves [OF q]] by simp
  qed
  then show "sched_inv pf {} (sweep_one now rid S)" "evolves S (sweep_one now rid S)" by blast+
qed

text \<open>A predicate that every step of a fold over known requests preserves.\<close>
lemma fold_requests_inv:
  assumes step: "\<And>rid S s. I S \<Longrightarrow> reqs S rid = Some s \<Longrightarrow> I (f rid S) \<and> evolves S (f rid S)"
    and init: "I S" "\<And>rid. rid \<in> set rids \<Longrightarrow> reqs S rid \<noteq> None"
  shows "I (fold f rids S) \<and> evolves S (fold f rids S)"
  using init
proof (induction rids arbitrary: S)
  case (Cons rid rids)
  from Cons.prems(2) obtain s where s: "reqs S rid = Some s" by fastforce
  note st = step [OF Cons.prems(1) s]
  have "reqs (f rid S) r \<noteq> None" if "r \<in> set rids" for r
    using Cons.prems(2) [of r] that st unfolding evolves_def by force
  with Cons.IH [of "f rid S"] st show ?case
    using evolves_trans by (metis fold_simps(2))
qed simp

lemma sweep_inv:
  assumes "sched_inv pf {} S"
  shows "sched_inv pf {} (sweep now S)" "evolves S (sweep now S)"
proof -
  have "sched_inv pf {} (sweep now S) \<and> evolves S (sweep now S)"
    unfolding sweep_def
  proof (rule fold_requests_inv)
    show "reqs S rid \<noteq> None" if "rid \<in> set (keys (sc_requests S))" for rid
      using map_of_keys_ex [OF that] by blast
  qed (use assms sweep_one_inv in blast)+
  then show "sched_inv pf {} (sweep now S)" "evolves S (sweep now S)" by blast+
qed

subsection \<open>Advancing through a plan\<close>

lemma chunk_advance:
  assumes "i < length (pl_chunks (plan pf c r a g))"
  shows "ch_token_start (pl_chunks (plan pf c r a g) ! i) + ch_token_count (pl_chunks (plan pf c r a g) ! i) =
    (if Suc i < length (pl_chunks (plan pf c r a g)) then ch_token_start (pl_chunks (plan pf c r a g) ! Suc i)
     else remaining_prefill_tokens r)"
proof -
  let ?P = "pl_chunks (plan pf c r a g)"
  note r = plan_chunk_range [OF assms] and n = plan_nth(2,3) [OF assms]
  have "unat (ch_token_start (?P ! i)) + unat (ch_token_count (?P ! i)) = chunk_offset pf c r (Suc i)"
    using r n by simp
  moreover have "chunk_offset pf c r (Suc i) < 2 ^ 64"
    using n(2) unat_lt_64 [of "remaining_prefill_tokens r"] by simp
  ultimately have sum: "unat (ch_token_start (?P ! i) + ch_token_count (?P ! i)) = chunk_offset pf c r (Suc i)"
    by (simp add: unat_plus_fits)
  show ?thesis
  proof (cases "Suc i < length ?P")
    case True
    then show ?thesis using sum plan_chunk_range(1) [OF True] by (simp add: word_unat_eq_iff)
  next
    case False
    have work: "remaining_prefill_tokens r \<noteq> 0" using assms by (auto simp: length_plan)
    then have "Suc i = chunk_count pf c r" using assms False by (simp add: length_plan)
    then show ?thesis using sum False chunk_offset_end [OF work, of pf c] by (simp add: word_unat_eq_iff)
  qed
qed

lemma chunk_first:
  assumes "remaining_prefill_tokens r \<noteq> 0"
  shows "0 < length (pl_chunks (plan pf c r a g))" "ch_token_start (pl_chunks (plan pf c r a g) ! 0) = 0"
proof -
  show l: "0 < length (pl_chunks (plan pf c r a g))" using plan_nonempty [OF assms] by simp
  show "ch_token_start (pl_chunks (plan pf c r a g) ! 0) = 0"
    using plan_chunk_range(1) [OF l] by (simp add: word_unat_eq_iff)
qed

end
