(* ===== verification/PF_Completion.thy ===== *)
theory PF_Completion
  imports PF_Lifecycle
begin

text \<open>
  Completions: a rejected completion changes nothing but statistics and events, an accepted one
  moves exactly its own request, and both preserve the invariant.
\<close>

subsection \<open>Rejected completions\<close>

lemma reject_stale_quiet: "quiet S (reject_stale r why S)"
  by (simp add: reject_stale_def quiet_def stat_of_def)

lemma reject_duplicate_quiet: "quiet S (reject_duplicate r why S)"
  by (simp add: reject_duplicate_def quiet_def stat_of_def)

text \<open>The parts of the state that no rejection touches.\<close>
definition untouched :: "Impl \<Rightarrow> Impl \<Rightarrow> bool" where
  "untouched S S' \<longleftrightarrow> sc_requests S' = sc_requests S \<and> sc_groups S' = sc_groups S \<and> sc_workers S' = sc_workers S \<and>
     sc_tenants S' = sc_tenants S \<and> sc_mem S' = sc_mem S \<and> sc_epoch S' = sc_epoch S \<and> sc_tokens S' = sc_tokens S \<and>
     sc_next_generation S' = sc_next_generation S \<and> sc_next_attempt S' = sc_next_attempt S \<and>
     sc_next_group S' = sc_next_group S \<and> sc_next_reservation S' = sc_next_reservation S \<and> sc_cfg S' = sc_cfg S"

lemma completion_error_untouched:
  assumes "completion_error r S = Some (e, S')"
  shows "untouched S S' \<and> quiet S S' \<and> err_code e \<noteq> EC_ok"
proof -
  have "\<exists>why. S' = S \<or> S' = reject_stale r why S \<or> S' = reject_duplicate r why S \<or>
      S' = upd_stats (\<lambda>st. st\<lparr>st_stale_authority_rejected := st_stale_authority_rejected st + 1\<rparr>) S"
    and "err_code e \<noteq> EC_ok"
    using assms unfolding completion_error_def by (auto simp: mk_error_def split: if_splits option.splits)
  then show ?thesis
    using reject_stale_quiet reject_duplicate_quiet
    by (auto simp: untouched_def reject_stale_def reject_duplicate_def quiet_def stat_of_def)
qed

text \<open>What an accepted completion has shown.\<close>
lemma completion_accepted:
  assumes "completion_error r S = None"
  obtains s where "reqs S (mr_request_id r) = Some s" "rs_in_flight s" "is_live s"
    "mr_generation r = rs_current_generation s" "mr_attempt_id r = rs_attempt s" "mr_epoch r = sc_epoch S"
    "is_nil (mr_worker r) \<or> mr_worker r = rs_dispatched_worker s"
  using assms unfolding completion_error_def is_live_def by (auto split: if_splits option.splits)

subsection \<open>Accounting\<close>

definition frame :: "Impl \<Rightarrow> Impl \<Rightarrow> bool" where
  "frame S S' \<longleftrightarrow> sc_mem S' = sc_mem S \<and> same_alloc S S' \<and> sc_groups S' = sc_groups S \<and>
     sc_workers S' = sc_workers S \<and> sc_epoch S' = sc_epoch S"

definition accounted_rs :: "Rs \<Rightarrow> Rs" where
  "accounted_rs s = (let n = ch_token_count (next_chunk s) in
     s\<lparr>rs_in_flight := False, rs_chunks_done := rs_chunks_done s + 1,
       rs_completed_uncached := rs_completed_uncached s + n, rs_completed_token_total := rs_completed_token_total s + n,
       rs_normalized_service := f64_add (rs_normalized_service s) (f64_of_u64 n)\<rparr>)"

lemma account_chunk_effect:
  assumes "reqs S rid = Some s"
  shows "moves rid s (accounted_rs s) S (account_chunk rid S)" "frame S (account_chunk rid S)"
    "same_tenants S (account_chunk rid S)" "counted None S (account_chunk rid S)"
    "sc_next_attempt (account_chunk rid S) = sc_next_attempt S"
  using assms
  by (auto simp: account_chunk_def Let_def request_effects accounted_rs_def frame_def same_alloc_def same_tenants_def
      tenant_core_def counted_def stat_of_def)

subsection \<open>Outcomes\<close>

lemma return_tokens_core [simp]: "tenant_core (return_tokens n ts) = tenant_core (dec_outstanding ts)"
  by (simp add: return_tokens_def tenant_core_def dec_outstanding_def Let_def)

lemma finish_request_effect:
  assumes "reqs S rid = Some s"
  shows "moves rid s (add_trace msg (s\<lparr>rs_lifecycle := l\<rparr>)) S (finish_request rid l msg S)"
    "frame S (finish_request rid l msg S)" "tenant_left (tenant_id (rs_request s)) S (finish_request rid l msg S)"
    "sc_stats (finish_request rid l msg S) = sc_stats S"
  using assms
  by (auto simp: finish_request_def Let_def request_effects frame_def same_alloc_def tenant_left_def)

definition retried_rs :: "platform \<Rightarrow> SchedulerConfig \<Rightarrow> AttemptId \<Rightarrow> Rs \<Rightarrow> Rs" where
  "retried_rs pf c a s =
     add_trace (''retryable failure; new attempt '' @ to_string_u64 (id_value a)) (restarted_rs pf c a s)"

lemma retry_request_effect:
  assumes "reqs S rid = Some s"
  shows "moves rid s (retried_rs pf (sc_cfg S) (StrongId (sc_next_attempt S)) s) S (retry_request pf rid S)"
    "frame S (retry_request pf rid S)" "same_tenants S (retry_request pf rid S)" "counted None S (retry_request pf rid S)"
  using assms
  by (auto simp: retry_request_def alloc_attempt_def Let_def request_effects retried_rs_def frame_def same_alloc_def
      same_tenants_def counted_def stat_of_def the_tenant_def)

definition advanced_rs :: "Rs \<Rightarrow> Rs" where
  "advanced_rs s = add_trace ''chunk complete; advancing to next chunk''
     (s\<lparr>rs_next_chunk_index := rs_next_chunk_index s + 1, rs_lifecycle := LC_queued\<rparr>)"

text \<open>The terminal state an outcome leads to, if any.\<close>
definition outcome_final :: "MemberOutcome \<Rightarrow> Rs \<Rightarrow> Lifecycle option" where
  "outcome_final oc s =
     (if oc = MO_stale_rejected then None
      else if oc = MO_retryable_failure
      then (if rs_retries_used s < max_retries (rs_request s) then None else Some LC_failed_non_retryable)
      else if oc = MO_non_retryable_failure then Some LC_failed_non_retryable
      else if oc = MO_cancelled then Some LC_cancelled
      else if oc = MO_expired then Some LC_expired
      else if rs_cancel_pending s then Some LC_cancelled
      else if unat (rs_next_chunk_index s + 1) < length (pl_chunks (rs_plan s)) then None
      else Some LC_completed)"

text \<open>The record that a non-terminal outcome leaves.\<close>
definition outcome_rs :: "platform \<Rightarrow> SchedulerConfig \<Rightarrow> AttemptId \<Rightarrow> MemberOutcome \<Rightarrow> Rs \<Rightarrow> Rs" where
  "outcome_rs pf c a oc s =
     (if oc = MO_stale_rejected then s
      else if oc = MO_retryable_failure then retried_rs pf c a s
      else advanced_rs s)"

text \<open>Up to its trace and its cancellation flag, \<open>s'\<close> is \<open>s\<close> in the terminal state \<open>l\<close>.\<close>
definition closed_as :: "Lifecycle \<Rightarrow> Rs \<Rightarrow> Rs \<Rightarrow> bool" where
  "closed_as l s s' \<longleftrightarrow> core s' = core (s\<lparr>rs_lifecycle := l\<rparr>) \<and> rs_current_group s' = rs_current_group s"

text \<open>An operation closes a request: one record becomes terminal, with its account and its counter.\<close>
definition closes :: "RequestId \<Rightarrow> Rs \<Rightarrow> Lifecycle \<Rightarrow> Impl \<Rightarrow> Impl \<Rightarrow> bool" where
  "closes rid s l S S' \<longleftrightarrow> (\<exists>s'. moves rid s s' S S' \<and> closed_as l s s') \<and> frame S S' \<and>
     tenant_left (tenant_id (rs_request s)) S S' \<and> counted (Some l) S S'"

lemma closed_as_trace [simp]:
  "closed_as l s (add_trace m (s\<lparr>rs_lifecycle := l\<rparr>))"
  "closed_as l s (add_trace m (s\<lparr>rs_cancel_pending := c, rs_lifecycle := l\<rparr>))"
  by (simp_all add: closed_as_def) (simp add: core_def)

lemma finish_moves_uncancel:
  "reqs S rid = Some s \<Longrightarrow>
   moves rid s (add_trace msg (s\<lparr>rs_cancel_pending := False, rs_lifecycle := l\<rparr>)) S
     (finish_request rid l msg (upd_rs rid (\<lambda>s. s\<lparr>rs_cancel_pending := False\<rparr>) S))"
  by (auto simp: finish_request_def Let_def request_effects)

lemma frame_finish_uncancel:
  assumes "reqs S rid = Some s"
  shows "frame S (finish_request rid l msg (upd_rs rid (\<lambda>s. s\<lparr>rs_cancel_pending := False\<rparr>) S))"
    "tenant_left (tenant_id (rs_request s)) S (finish_request rid l msg (upd_rs rid (\<lambda>s. s\<lparr>rs_cancel_pending := False\<rparr>) S))"
    "sc_stats (finish_request rid l msg (upd_rs rid (\<lambda>s. s\<lparr>rs_cancel_pending := False\<rparr>) S)) = sc_stats S"
  using assms
  by (auto simp: finish_request_def Let_def request_effects frame_def same_alloc_def tenant_left_def)

text \<open>Statistics, the clock and the log may follow.\<close>
lemma closes_account:
  assumes "moves rid s s' S T" "closed_as l s s'" "frame S T" "tenant_left (tenant_id (rs_request s)) S T"
    and "counted (Some l) S S'"
    and "sc_requests S' = sc_requests T" "sc_cfg S' = sc_cfg T" "frame T S'" "the_tenant S' = the_tenant T"
  shows "closes rid s l S S'"
  using assms by (auto simp: closes_def moves_def frame_def same_alloc_def tenant_left_def)

lemmas stat_effects = counted_def stat_of_def final_states_def
lemmas frame_effects = frame_def same_alloc_def

lemma apply_success_cancelled:
  assumes s: "reqs S rid = Some s" and c: "rs_cancel_pending s"
  shows "closes rid s LC_cancelled S (apply_success rid S)"
proof (rule closes_account [OF finish_moves_uncancel [OF s, of "''cancelled at chunk boundary''" LC_cancelled] _
      frame_finish_uncancel(1,2) [OF s]])
qed (use c s frame_finish_uncancel(3) [OF s] in \<open>auto simp: apply_success_def Let_def the_rs_eq stat_effects frame_effects\<close>)

lemma apply_success_completed:
  assumes s: "reqs S rid = Some s" and l: "\<not> rs_cancel_pending s" "\<not> unat (rs_next_chunk_index s + 1) < length (pl_chunks (rs_plan s))"
  shows "closes rid s LC_completed S (apply_success rid S)"
  unfolding closes_def
proof (intro conjI exI)
  show "moves rid s (add_trace ''prefill completed'' (s\<lparr>rs_lifecycle := LC_completed\<rparr>)) S (apply_success rid S)"
    using s l by (auto simp: apply_success_def finish_request_def Let_def request_effects)
qed (use s l in \<open>auto simp: apply_success_def finish_request_def Let_def request_effects frame_effects stat_effects tenant_left_def\<close>)

lemma apply_success_advance:
  assumes "reqs S rid = Some s" "\<not> rs_cancel_pending s" "unat (rs_next_chunk_index s + 1) < length (pl_chunks (rs_plan s))"
  shows "moves rid s (advanced_rs s) S (apply_success rid S)" "frame S (apply_success rid S)"
    "same_tenants S (apply_success rid S)" "counted None S (apply_success rid S)"
  using assms
  by (auto simp: apply_success_def Let_def request_effects advanced_rs_def frame_def same_alloc_def same_tenants_def
      counted_def stat_of_def)

subsection \<open>The branch on the outcome\<close>

lemma apply_outcome_final:
  assumes s: "reqs S (mr_request_id r) = Some s" and l: "outcome_final (mr_outcome r) s = Some l"
  shows "closes (mr_request_id r) s l S (apply_outcome pf r S)"
proof -
  let ?rid = "mr_request_id r"
  have fin: "closes ?rid s l' S (log_now ty a b d (finish_request ?rid l' msg (upd_stats f S)))"
    "closes ?rid s l' S (finish_request ?rid l' msg (upd_stats f S))"
    if "counted (Some l') S (upd_stats f S)" for l' ty a b d msg f
    using s that finish_request_effect [where S = "upd_stats f S" and rid = ?rid and s = s and msg = msg and l = l']
    by (auto intro!: closes_account [where s' = "add_trace msg (s\<lparr>rs_lifecycle := l'\<rparr>)"
          and T = "finish_request ?rid l' msg (upd_stats f S)"]
        simp: moves_def frame_effects tenant_left_def stat_effects)
  have can: "closes ?rid s LC_cancelled S
      (log_now ty a b d (upd_stats (\<lambda>st. st\<lparr>st_cancelled := st_cancelled st + 1\<rparr>)
        (finish_request ?rid LC_cancelled msg (upd_rs ?rid (\<lambda>s. s\<lparr>rs_cancel_pending := False\<rparr>) S))))" for ty a b d msg
    by (rule closes_account [OF finish_moves_uncancel [OF s, of msg LC_cancelled] _ frame_finish_uncancel(1,2) [OF s]])
      (use frame_finish_uncancel(3) [OF s] in \<open>auto simp: stat_effects frame_effects\<close>)
  show ?thesis
    using l fin can apply_success_cancelled [OF s] apply_success_completed [OF s]
    by (auto simp: apply_outcome_def outcome_final_def Let_def the_rs_eq [OF s] stat_effects split: if_splits)
qed

lemma apply_outcome_live:
  fixes pf
  assumes s: "reqs S (mr_request_id r) = Some s" and l: "outcome_final (mr_outcome r) s = None"
  defines "s' \<equiv> outcome_rs pf (sc_cfg S) (StrongId (sc_next_attempt S)) (mr_outcome r) s"
  shows "moves (mr_request_id r) s s' S (apply_outcome pf r S)" "frame S (apply_outcome pf r S)"
    "same_tenants S (apply_outcome pf r S)" "counted None S (apply_outcome pf r S)"
proof -
  have st: "moves (mr_request_id r) s s S (upd_stats f S)" "frame S (upd_stats f S)" "same_tenants S (upd_stats f S)" for f
    using s by (auto simp: moves_def frame_effects same_tenants_def)
  show "moves (mr_request_id r) s s' S (apply_outcome pf r S)" "frame S (apply_outcome pf r S)"
    "same_tenants S (apply_outcome pf r S)" "counted None S (apply_outcome pf r S)"
    using l st retry_request_effect [OF s, of pf] apply_success_advance [OF s]
    by (auto simp: s'_def apply_outcome_def outcome_final_def outcome_rs_def Let_def the_rs_eq [OF s] stat_effects
        split: if_splits)
qed

subsection \<open>The records after an accepted completion\<close>

lemma in_flight_dispatched: "rs_ok pf c s \<Longrightarrow> rs_in_flight s \<Longrightarrow> is_live s \<Longrightarrow> rs_lifecycle s = LC_dispatched"
  using rs_okD(4) [of pf c s] by (auto simp: is_live_def is_terminal_lifecycle_def)

text \<open>The state of the executing request, with the chunk of its plan that it executes.\<close>
lemma executing_chunk:
  assumes "rs_ok pf c s" "rs_in_flight s"
  shows "unat (rs_next_chunk_index s) < length (pl_chunks (rs_plan s))"
    "rs_completed_uncached s + ch_token_count (next_chunk s) =
       (if Suc (unat (rs_next_chunk_index s)) < length (pl_chunks (rs_plan s))
        then ch_token_start (pl_chunks (rs_plan s) ! Suc (unat (rs_next_chunk_index s)))
        else remaining_prefill_tokens (rs_request s))"
    "unat (rs_next_chunk_index s + 1) = Suc (unat (rs_next_chunk_index s))"
proof -
  have p: "rs_plan s = plan pf c (rs_request s) (rs_attempt s) (StrongId 0)"
    and i: "unat (rs_next_chunk_index s) < length (pl_chunks (rs_plan s))"
    and u: "rs_completed_uncached s = ch_token_start (next_chunk s)"
    and l: "length (pl_chunks (rs_plan s)) < 2 ^ 32"
    using rs_okD [OF assms(1)] assms(2) by (simp_all add: has_pending_chunk_def)
  show "unat (rs_next_chunk_index s) < length (pl_chunks (rs_plan s))" by (rule i)
  show "rs_completed_uncached s + ch_token_count (next_chunk s) =
       (if Suc (unat (rs_next_chunk_index s)) < length (pl_chunks (rs_plan s))
        then ch_token_start (pl_chunks (rs_plan s) ! Suc (unat (rs_next_chunk_index s)))
        else remaining_prefill_tokens (rs_request s))"
    unfolding u next_chunk_def p by (rule chunk_advance) (use i p in simp)
  have "Suc (unat (rs_next_chunk_index s)) < 2 ^ 32" using i l by linarith
  then show "unat (rs_next_chunk_index s + 1) = Suc (unat (rs_next_chunk_index s))"
    by (simp add: unat_Suc_fits)
qed

lemma accounted_sel [simp]:
  "rs_request (accounted_rs s) = rs_request s" "rs_attempt (accounted_rs s) = rs_attempt s"
  "rs_lifecycle (accounted_rs s) = rs_lifecycle s" "rs_plan (accounted_rs s) = rs_plan s"
  "rs_next_chunk_index (accounted_rs s) = rs_next_chunk_index s"
  "rs_completed_uncached (accounted_rs s) = rs_completed_uncached s + ch_token_count (next_chunk s)"
  "rs_current_generation (accounted_rs s) = rs_current_generation s" "rs_reservation (accounted_rs s) = rs_reservation s"
  "rs_in_flight (accounted_rs s) = False" "rs_retries_used (accounted_rs s) = rs_retries_used s"
  "rs_current_group (accounted_rs s) = rs_current_group s" "rs_cancel_pending (accounted_rs s) = rs_cancel_pending s"
  by (simp_all add: accounted_rs_def Let_def)

lemma rs_ok_fresh_attempt:
  assumes "rs_ok pf c s" "rs_lifecycle s \<in> {LC_queued, LC_dispatched}" "rs_retries_used s < max_retries (rs_request s)"
    and "rs_request t = rs_request s" "rs_attempt t = a" "rs_plan t = plan pf c (rs_request s) a (StrongId 0)"
      "rs_next_chunk_index t = 0" "rs_completed_uncached t = 0" "rs_lifecycle t = LC_queued"
      "rs_retries_used t = rs_retries_used s + 1" "\<not> rs_in_flight t"
  shows "rs_ok pf c t"
proof -
  have rem: "remaining_prefill_tokens (rs_request s) \<noteq> 0" and l: "length (pl_chunks (rs_plan s)) < 2 ^ 32"
    and p: "rs_plan s = plan pf c (rs_request s) (rs_attempt s) (StrongId 0)"
    using rs_okD [OF assms(1)] assms(2) by blast+
  have len: "length (pl_chunks (rs_plan t)) = length (pl_chunks (rs_plan s))"
    unfolding assms(6) p by (simp add: length_plan)
  note first = chunk_first [OF rem, of pf c a "StrongId 0"]
  show ?thesis
  proof (rule rs_okI)
    show "length (pl_chunks (rs_plan t)) < 2 ^ 32" using l len by simp
    show "has_pending_chunk t" "rs_completed_uncached t = ch_token_start (next_chunk t)"
      using first by (simp_all add: has_pending_chunk_def next_chunk_def assms(4-))
  qed (use assms(3) rs_okD(9) [OF assms(1)] rem in \<open>simp_all add: assms(4-)\<close>)
qed

lemma rs_ok_closed:
  assumes ok: "rs_ok pf c s" and live: "is_live s" "rs_in_flight s"
    and l: "outcome_final oc (accounted_rs s) = Some l" and t: "closed_as l (accounted_rs s) t"
  shows "rs_ok pf c (clear_res t)"
proof -
  note e = executing_chunk [OF ok live(2)]
  have t': "rs_lifecycle t = l" "rs_plan t = rs_plan s" "rs_request t = rs_request s" "rs_attempt t = rs_attempt s"
    "\<not> rs_in_flight t" "rs_retries_used t = rs_retries_used s"
    "rs_completed_uncached t = rs_completed_uncached s + ch_token_count (next_chunk s)"
    using t core_eqD [of t "(accounted_rs s)\<lparr>rs_lifecycle := l\<rparr>"] by (simp_all add: closed_as_def)
  have "l \<in> final_states" using l by (auto simp: outcome_final_def final_states_def split: if_splits)
  moreover have "l = LC_completed \<Longrightarrow> \<not> Suc (unat (rs_next_chunk_index s)) < length (pl_chunks (rs_plan s))"
    using l e(3) by (auto simp: outcome_final_def split: if_splits)
  ultimately have lf: "l \<in> {LC_completed, LC_cancelled, LC_expired, LC_failed_non_retryable}"
      "l = LC_completed \<Longrightarrow> rs_completed_uncached t = remaining_prefill_tokens (rs_request s)"
    using e(2) by (auto simp: final_states_def t')
  show ?thesis
    by (rule rs_ok_same_plan [OF ok]) (use lf in \<open>auto simp: t'\<close>)
qed

lemma rs_ok_outcome:
  assumes ok: "rs_ok pf c s" and live: "is_live s" "rs_in_flight s"
    and l: "outcome_final oc (accounted_rs s) = None"
  shows "rs_ok pf c (clear_res (outcome_rs pf c a oc (accounted_rs s)))"
proof -
  note e = executing_chunk [OF ok live(2)] and d = in_flight_dispatched [OF ok live(2,1)]
  consider "oc = MO_stale_rejected"
    | "oc = MO_retryable_failure" "rs_retries_used s < max_retries (rs_request s)"
    | "oc \<noteq> MO_stale_rejected" "oc \<noteq> MO_retryable_failure" "Suc (unat (rs_next_chunk_index s)) < length (pl_chunks (rs_plan s))"
    using l e(3) by (auto simp: outcome_final_def split: if_splits)
  then show ?thesis
  proof cases
    case 1
    then have eq: "outcome_rs pf c a oc (accounted_rs s) = accounted_rs s" by (simp add: outcome_rs_def)
    show ?thesis unfolding eq by (rule rs_ok_same_plan [OF ok]) (simp_all add: d)
  next
    case 2
    then have eq: "outcome_rs pf c a oc (accounted_rs s) = retried_rs pf c a (accounted_rs s)" by (simp add: outcome_rs_def)
    show ?thesis unfolding eq
      by (rule rs_ok_fresh_attempt [OF ok _ 2(2)]) (simp_all add: d retried_rs_def restarted_rs_def)
  next
    case 3
    then have eq: "outcome_rs pf c a oc (accounted_rs s) = advanced_rs (accounted_rs s)" by (simp add: outcome_rs_def)
    have u: "rs_completed_uncached s + ch_token_count (next_chunk s) =
        ch_token_start (pl_chunks (rs_plan s) ! Suc (unat (rs_next_chunk_index s)))" using e(2) 3 by simp
    show ?thesis unfolding eq
      by (rule rs_ok_same_plan [OF ok])
        (use 3 d u in \<open>simp_all add: advanced_rs_def has_pending_chunk_def next_chunk_def [of "accounted_rs s\<lparr>rs_next_chunk_index := _\<rparr>"] e(3)\<close>)
  qed
qed

subsection \<open>The invariant\<close>

lemma detach_effect:
  assumes "reqs S rid = Some s"
  shows "moves rid s (s\<lparr>rs_current_group := nil_id\<rparr>) S (detach rid S)" "sc_mem (detach rid S) = sc_mem S"
    "same_alloc S (detach rid S)" "the_tenant (detach rid S) = the_tenant S" "sc_stats (detach rid S) = sc_stats S"
proof -
  show "moves rid s (s\<lparr>rs_current_group := nil_id\<rparr>) S (detach rid S)"
  proof (cases "rs_current_group s = nil_id")
    case True
    then have "s\<lparr>rs_current_group := nil_id\<rparr> = s" by simp
    with True assms show ?thesis by (simp add: detach_def the_rs_eq moves_def fun_upd_idem)
  next
    case False
    with assms show ?thesis by (simp add: detach_def the_rs_eq moves_def Let_def)
  qed
qed (use assms in \<open>simp_all add: detach_def Let_def the_rs_eq same_alloc_def\<close>)

text \<open>Release and detach after the outcome, with the refreshed gauge.\<close>
lemma settle_effect:
  assumes "reqs S rid = Some s"
  defines "T \<equiv> detach rid (release_reservation rid S)"
  defines "S' \<equiv> upd_stats (\<lambda>st. st\<lparr>st_remaining_prefill_tokens := remaining_tokens_locked T\<rparr>) T"
  shows "moves rid s ((clear_res s)\<lparr>rs_current_group := nil_id\<rparr>) S S'" "sc_mem S' = freed s (sc_mem S)"
    "same_alloc S S'" "the_tenant S' = the_tenant S" "counted None S S'"
proof -
  have r: "reqs (release_reservation rid S) rid = Some (clear_res s)"
    by (simp add: release_reservation_reqs [OF assms(1)])
  note d = detach_effect [OF r]
  show "moves rid s ((clear_res s)\<lparr>rs_current_group := nil_id\<rparr>) S S'"
    using d(1) assms(1) release_reservation_reqs [OF assms(1)] by (simp add: S'_def T_def moves_def)
  show "sc_mem S' = freed s (sc_mem S)" using d(2) by (simp add: S'_def T_def release_reservation_mem [OF assms(1)])
  show "same_alloc S S'" "the_tenant S' = the_tenant S" "counted None S S'"
    using d(3-5) by (simp_all add: S'_def T_def same_alloc_def counted_def stat_of_def)
qed

lemma frame_trans: "frame S T \<Longrightarrow> frame T U \<Longrightarrow> frame S U"
  by (simp add: frame_def same_alloc_def)

lemma counted_none_trans:
  "counted None S T \<Longrightarrow> counted l T U \<Longrightarrow> counted l S U" "counted l S T \<Longrightarrow> counted None T U \<Longrightarrow> counted l S U"
  by (simp_all add: counted_def)

lemma same_tenants_trans:
  "same_tenants S T \<Longrightarrow> same_tenants T U \<Longrightarrow> same_tenants S U"
  by (simp add: same_tenants_def)

lemma tenant_left_trans: "same_tenants S T \<Longrightarrow> tenant_left t T U \<Longrightarrow> tenant_left t S U"
  by (auto simp: same_tenants_def tenant_left_def tenant_core_def dec_outstanding_def)

lemma core_clear_res: "rs_current_group s' = g \<Longrightarrow> core (s'\<lparr>rs_current_group := nil_id\<rparr>) = core s'"
  by (simp add: core_def)

lemma rs_ok_group [simp]: "rs_ok pf c (s\<lparr>rs_current_group := g\<rparr>) = rs_ok pf c s"
  by (rule core_rs_ok) (simp add: core_def)

text \<open>The record an accepted completion leaves, up to its reservation and its group.\<close>
definition completed_rs :: "platform \<Rightarrow> SchedulerConfig \<Rightarrow> AttemptId \<Rightarrow> MemberOutcome \<Rightarrow> Rs \<Rightarrow> Rs" where
  "completed_rs pf c a oc s =
     (case outcome_final oc (accounted_rs s) of
        Some l \<Rightarrow> (accounted_rs s)\<lparr>rs_lifecycle := l\<rparr>
      | None \<Rightarrow> outcome_rs pf c a oc (accounted_rs s))"

definition same_progress :: "Rs \<Rightarrow> Rs \<Rightarrow> bool" where
  "same_progress t s' \<longleftrightarrow> rs_request s' = rs_request t \<and> rs_lifecycle s' = rs_lifecycle t \<and> rs_attempt s' = rs_attempt t \<and>
     rs_plan s' = rs_plan t \<and> rs_next_chunk_index s' = rs_next_chunk_index t \<and>
     rs_completed_uncached s' = rs_completed_uncached t \<and> rs_retries_used s' = rs_retries_used t"

text \<open>What one accepted completion does to its request.\<close>
definition completion_moves :: "platform \<Rightarrow> MemberResult \<Rightarrow> Rs \<Rightarrow> Impl \<Rightarrow> Impl \<Rightarrow> bool" where
  "completion_moves pf r s S S' \<longleftrightarrow> sched_inv pf {} S' \<and> evolves S S' \<and> same_alloc S S' \<and>
     (\<exists>s'. moves (mr_request_id r) s s' S S' \<and> \<not> rs_in_flight s' \<and>
        (rs_current_generation s' = rs_current_generation s \<or> rs_current_generation s' = nil_id) \<and>
        same_progress (completed_rs pf (sc_cfg S) (StrongId (sc_next_attempt S)) (mr_outcome r) s) s')"

lemma completion_step_live:
  assumes inv: "sched_inv pf {} S" and s: "reqs S (mr_request_id r) = Some s" "rs_in_flight s" "is_live s"
    and None: "outcome_final (mr_outcome r) (accounted_rs s) = None"
  shows "completion_moves pf r s S (apply_completion pf r S)"
proof -
  let ?rid = "mr_request_id r" and ?A = "account_chunk (mr_request_id r) S"
  let ?B = "apply_outcome pf r ?A" and ?S' = "apply_completion pf r S"
  have ok: "rs_ok pf (sc_cfg S) s" by (rule table_okD(2) [OF sched_invD(1) [OF inv] s(1)])
  note a = account_chunk_effect [OF s(1)]
  have sA: "reqs ?A ?rid = Some (accounted_rs s)" using a(1) by (simp add: moves_def)
  have cfgA: "sc_cfg ?A = sc_cfg S" by (rule movesD(4) [OF a(1)])
  note o = apply_outcome_live [where pf = pf, OF sA None]
  let ?t = "outcome_rs pf (sc_cfg S) (StrongId (sc_next_attempt ?A)) (mr_outcome r) (accounted_rs s)"
  let ?s' = "(clear_res ?t)\<lparr>rs_current_group := nil_id\<rparr>"
  have sB: "reqs ?B ?rid = Some ?t" using o(1) by (simp add: moves_def cfgA)
  note e = settle_effect [OF sB, folded apply_completion_def [of pf r S, unfolded Let_def]]
  have mv: "moves ?rid s ?s' S ?S'" using moves_trans [OF moves_trans [OF a(1) o(1)]] e(1) by (simp add: cfgA)
  have t: "rs_request ?t = rs_request s" "rs_reservation ?t = rs_reservation s" "\<not> rs_in_flight ?t" "is_live ?t"
    "rs_current_generation ?t = rs_current_generation s \<or> rs_current_generation ?t = nil_id"
    using s(3) by (auto simp: outcome_rs_def retried_rs_def restarted_rs_def advanced_rs_def is_live_def
        is_terminal_lifecycle_def nil_id_def)
  have "sc_mem ?S' = freed s (sc_mem S)"
    using e(2) a(2) o(2) t(2) by (simp add: frame_def freed_def)
  moreover have "same_alloc S ?S'" using e(3) a(2) o(2) by (simp add: frame_def same_alloc_def)
  moreover have "same_tenants S ?S'"
    using same_tenants_trans [OF a(3) o(3)] e(4) by (simp add: same_tenants_def)
  moreover have "counted None S ?S'" by (rule counted_none_trans(1) [OF a(4) counted_none_trans(1) [OF o(4) e(5)]])
  moreover have "withdrawn s ?s'" using t by (simp add: withdrawn_def)
  moreover have "is_live ?s'" using t(4) by (simp add: is_live_def)
  moreover have "rs_ok pf (sc_cfg S) ?s'" using rs_ok_outcome [OF ok s(3,2) None] by simp
  moreover have "same_progress (completed_rs pf (sc_cfg S) (StrongId (sc_next_attempt S)) (mr_outcome r) s) ?s'"
    by (simp add: same_progress_def completed_rs_def None a(5))
  ultimately show ?thesis
    unfolding completion_moves_def using inv_withdraw [OF mv inv _ _ s(3)] mv t by auto
qed

lemma completion_step_final:
  assumes inv: "sched_inv pf {} S" and s: "reqs S (mr_request_id r) = Some s" "rs_in_flight s" "is_live s"
    and Some: "outcome_final (mr_outcome r) (accounted_rs s) = Some l"
  shows "completion_moves pf r s S (apply_completion pf r S)"
proof -
  let ?rid = "mr_request_id r" and ?A = "account_chunk (mr_request_id r) S"
  let ?B = "apply_outcome pf r ?A" and ?S' = "apply_completion pf r S"
  have ok: "rs_ok pf (sc_cfg S) s" by (rule table_okD(2) [OF sched_invD(1) [OF inv] s(1)])
  note a = account_chunk_effect [OF s(1)]
  have sA: "reqs ?A ?rid = Some (accounted_rs s)" using a(1) by (simp add: moves_def)
  note o = apply_outcome_final [where pf = pf, OF sA Some, unfolded closes_def]
  then obtain t where t: "moves ?rid (accounted_rs s) t ?A ?B" "closed_as l (accounted_rs s) t" by blast
  let ?s' = "(clear_res t)\<lparr>rs_current_group := nil_id\<rparr>"
  have sB: "reqs ?B ?rid = Some t" using t(1) by (simp add: moves_def)
  note e = settle_effect [OF sB, folded apply_completion_def [of pf r S, unfolded Let_def]]
  have mv: "moves ?rid s ?s' S ?S'" by (rule moves_trans [OF moves_trans [OF a(1) t(1)] e(1)])
  have t': "rs_request t = rs_request s" "rs_reservation t = rs_reservation s" "\<not> rs_in_flight t" "rs_lifecycle t = l"
    "rs_current_generation t = rs_current_generation s"
    using t(2) core_eqD [of t "(accounted_rs s)\<lparr>rs_lifecycle := l\<rparr>"] by (simp_all add: closed_as_def)
  have l: "l \<in> final_states" using Some by (auto simp: outcome_final_def final_states_def split: if_splits)
  have "tenant_left (tenant_id (rs_request s)) ?A ?B" using o by simp
  from tenant_left_trans [OF a(3) this] have "tenant_left (tenant_id (rs_request s)) S ?S'"
    unfolding tenant_left_def e(4) .
  moreover have "sc_mem ?S' = freed s (sc_mem S)"
    using e(2) a(2) o t'(2) by (simp add: frame_def freed_def)
  moreover have "same_alloc S ?S'" using e(3) a(2) o by (simp add: frame_def same_alloc_def)
  moreover have "counted (Some (rs_lifecycle ?s')) S ?S'"
    using counted_none_trans(1) [OF a(4)] counted_none_trans(2) [OF _ e(5)] o t'(4) by simp
  moreover have "finished s ?s'" using t' l by (simp add: finished_def)
  moreover have "rs_ok pf (sc_cfg S) ?s'" using rs_ok_closed [OF ok s(3,2) Some t(2)] by simp
  moreover have "same_progress (completed_rs pf (sc_cfg S) (StrongId (sc_next_attempt S)) (mr_outcome r) s) ?s'"
    using t(2) core_eqD [of t "(accounted_rs s)\<lparr>rs_lifecycle := l\<rparr>"] by (simp add: same_progress_def completed_rs_def Some closed_as_def)
  ultimately show ?thesis
    unfolding completion_moves_def using inv_finish [OF mv inv _ _ s(3)] mv t' by auto
qed

lemma apply_completion_inv:
  assumes "sched_inv pf {} S" "reqs S (mr_request_id r) = Some s" "rs_in_flight s" "is_live s"
  shows "completion_moves pf r s S (apply_completion pf r S)"
  using completion_step_live [OF assms] completion_step_final [OF assms]
  by (cases "outcome_final (mr_outcome r) (accounted_rs s)") blast+

lemma report_completion_inv:
  assumes "sched_inv pf {} S"
  shows "sched_inv pf {} (snd (report_completion pf r S))" "evolves S (snd (report_completion pf r S))"
proof -
  have "sched_inv pf {} (snd (report_completion pf r S)) \<and> evolves S (snd (report_completion pf r S))"
  proof (cases "completion_error r S")
    case None
    from completion_accepted [OF None] obtain s where "reqs S (mr_request_id r) = Some s" "rs_in_flight s" "is_live s" by metis
    from apply_completion_inv [OF assms this] None show ?thesis by (simp add: report_completion_def completion_moves_def)
  next
    case (Some p)
    then obtain e S' where "completion_error r S = Some (e, S')" by (cases p) simp
    with completion_error_untouched [OF this] assms show ?thesis
      by (simp add: report_completion_def sched_inv_quiet [of S S'] quiet_evolves)
  qed
  then show "sched_inv pf {} (snd (report_completion pf r S))" "evolves S (snd (report_completion pf r S))" by blast+
qed

end
