(* ===== verification/PF_Admission.thy ===== *)
theory PF_Admission
  imports PF_Completion
begin

text \<open>
  Admission preserves the scheduler invariant: a new request has a well-formed record on its first
  attempt, and a rejected submission changes no request.
\<close>

subsection \<open>Admission\<close>

lemma validate_max_retries: "err_code (validate_request req) = EC_ok \<Longrightarrow> 0 \<le> max_retries req"
  by (auto simp: validate_request_def mk_error_def split: if_splits)

text \<open>The record of an admitted request: queued, or completed at once when nothing remains.\<close>
definition new_rs :: "platform \<Rightarrow> PrefillRequest \<Rightarrow> Impl \<Rightarrow> Rs" where
  "new_rs pf req S =
     (let s = admitted_rs pf (sc_cfg S) req (StrongId (sc_next_attempt S)) (clock_now S) default_rs in
      if remaining_prefill_tokens req = 0
      then add_trace ''fully-cached prompt; no prefill work remains''
             (s\<lparr>rs_lifecycle := LC_completed, rs_completed_uncached := 0, rs_completed_token_total := 0\<rparr>)
      else s)"

lemma alloc_attempt_sel [simp]:
  "clock_now (S\<lparr>sc_next_attempt := n\<rparr>) = clock_now S" "the_rs (S\<lparr>sc_next_attempt := n\<rparr>) = the_rs S"
  "the_tenant (S\<lparr>sc_next_attempt := n\<rparr>) = the_tenant S" "the_tenant (S\<lparr>sc_requests := m\<rparr>) = the_tenant S"
  by (simp_all add: clock_now_def the_rs_def the_tenant_def fun_eq_iff)

lemma the_rs_new: "reqs S rid = None \<Longrightarrow> the_rs S rid = default_rs"
  by (simp add: the_rs_def lookup_default_def)

lemma modify_update_new: "map_of m k = None \<Longrightarrow> modify k f (AList.update k v m) = AList.update k (f v) m"
  by (simp add: modify_def AList.update_conv')

lemma admit_effect:
  assumes "reqs S (request_id req) = None"
  shows "sc_requests (admit pf req S) = AList.update (request_id req) (new_rs pf req S) (sc_requests S)"
    "sc_cfg (admit pf req S) = sc_cfg S" "sc_mem (admit pf req S) = sc_mem S" "same_alloc S (admit pf req S)"
    "st_admitted (sc_stats (admit pf req S)) = st_admitted (sc_stats S) + 1"
    "stat_of LC_completed (sc_stats (admit pf req S)) =
       stat_of LC_completed (sc_stats S) + (if remaining_prefill_tokens req = 0 then 1 else 0)"
    "l \<noteq> LC_completed \<Longrightarrow> stat_of l (sc_stats (admit pf req S)) = stat_of l (sc_stats S)"
  using assms
  by (simp_all add: admit_def Let_def alloc_attempt_def new_rs_def the_rs_new upd_rs_def [of "request_id req"]
      modify_update_new same_alloc_def stat_of_def)

lemma admit_tenant:
  assumes "reqs S (request_id req) = None"
  shows "tenant_core (the_tenant (admit pf req S) t) =
    (if t = tenant_id req
     then tenant_core (let ts = (the_tenant S t)\<lparr>ts_outstanding := ts_outstanding (the_tenant S t) + 1\<rparr>
                       in if remaining_prefill_tokens req = 0 then dec_outstanding ts else ts)
     else tenant_core (the_tenant S t))"
  using assms
  by (simp add: admit_def Let_def alloc_attempt_def tenant_core_def dec_outstanding_def)

lemma new_rs_sel:
  "rs_request (new_rs pf req S) = req" "rs_reservation (new_rs pf req S) = nil_id" "rs_in_flight (new_rs pf req S) = False"
  "rs_current_generation (new_rs pf req S) = nil_id" "rs_attempt (new_rs pf req S) = StrongId (sc_next_attempt S)"
  "rs_lifecycle (new_rs pf req S) = (if remaining_prefill_tokens req = 0 then LC_completed else LC_queued)"
  "rs_plan (new_rs pf req S) = plan pf (sc_cfg S) req (StrongId (sc_next_attempt S)) (StrongId 0)"
  "rs_next_chunk_index (new_rs pf req S) = 0" "rs_completed_uncached (new_rs pf req S) = 0" "rs_retries_used (new_rs pf req S) = 0"
  by (simp_all add: new_rs_def Let_def admitted_rs_def default_rs_def nil_id_def)

definition plan_fits :: "platform \<Rightarrow> SchedulerConfig \<Rightarrow> PrefillRequest \<Rightarrow> bool" where
  "plan_fits pf c req \<longleftrightarrow> remaining_prefill_tokens req = 0 \<or> chunk_count pf c req < 2 ^ 32"

lemma rs_ok_new:
  assumes "plan_fits pf (sc_cfg S) req" "0 \<le> max_retries req"
  shows "rs_ok pf (sc_cfg S) (new_rs pf req S)"
proof (rule rs_okI)
  show "length (pl_chunks (rs_plan (new_rs pf req S))) < 2 ^ 32"
    using assms(1) by (auto simp: new_rs_sel length_plan plan_fits_def)
  have "remaining_prefill_tokens req \<noteq> 0 \<Longrightarrow> has_pending_chunk (new_rs pf req S) \<and>
      rs_completed_uncached (new_rs pf req S) = ch_token_start (next_chunk (new_rs pf req S))"
    using chunk_first [of req pf "sc_cfg S" "StrongId (sc_next_attempt S)" "StrongId 0"]
    by (simp add: has_pending_chunk_def next_chunk_def new_rs_sel)
  then show "rs_lifecycle (new_rs pf req S) = LC_queued \<or> rs_in_flight (new_rs pf req S) \<Longrightarrow> has_pending_chunk (new_rs pf req S)"
    "rs_lifecycle (new_rs pf req S) = LC_queued \<or> rs_in_flight (new_rs pf req S) \<Longrightarrow>
      rs_completed_uncached (new_rs pf req S) = ch_token_start (next_chunk (new_rs pf req S))"
    by (auto simp: new_rs_sel split: if_splits)
qed (use assms(2) in \<open>auto simp: new_rs_sel split: if_splits\<close>)

text \<open>A new record that holds no memory and no generation.\<close>
lemma mem_new:
  assumes "mem_ok X S" "reqs S' = (reqs S)(rid \<mapsto> n)" "reqs S rid = None" "rid \<notin> X"
    "rs_reservation n = nil_id" "\<not> is_active_work n" "sc_mem S' = sc_mem S" "sc_next_reservation S' = sc_next_reservation S"
  shows "mem_ok X S'"
proof -
  note d = mem_okD [OF assms(1)]
  have look: "reqs S' r = (if r = rid then Some n else reqs S r)" for r by (simp add: assms(2))
  show ?thesis
  proof (rule mem_okI, unfold assms(7,8))
    fix r s assume s: "reqs S' r = Some s"
    show "rs_reservation s \<noteq> nil_id \<longleftrightarrow> is_active_work s \<or> r \<in> X"
      using s d(3) [of r s] assms(4-6) by (cases "r = rid") (auto simp: look)
    show "rs_reservation s \<noteq> nil_id \<Longrightarrow> ledger (sc_mem S) (rs_reservation s) = Some (unat (rs_reserved_bytes s))"
      using s d(4) [of r s] assms(5) by (cases "r = rid") (auto simp: look)
  next
    fix i assume i: "ledger (sc_mem S) i \<noteq> None"
    obtain r s where rs: "reqs S r = Some s" "rs_reservation s = i" using d(7) [OF i] by blast
    then have "reqs S' r = Some s" using assms(3) by (auto simp: look)
    then show "i \<noteq> nil_id \<and> unat (id_value i) < unat (sc_next_reservation S) \<and> (\<exists>rid s. reqs S' rid = Some s \<and> rs_reservation s = i)"
      using d(5,6) [OF i] rs(2) by blast
  next
    fix r1 s1 r2 s2 assume "reqs S' r1 = Some s1" "reqs S' r2 = Some s2"
      "rs_reservation s1 = rs_reservation s2" "rs_reservation s1 \<noteq> nil_id"
    then show "r1 = r2" using d(8) [of r1 s1 r2 s2] assms(5) by (auto simp: look split: if_splits)
  qed (rule d)+
qed

lemma gens_new:
  assumes "gens_ok S" "reqs S' = (reqs S)(rid \<mapsto> n)" "rs_current_generation n = nil_id" "\<not> rs_in_flight n"
    "sc_next_generation S' = sc_next_generation S"
  shows "gens_ok S'"
proof -
  note d = gens_okD [OF assms(1)]
  have look: "reqs S' r = (if r = rid then Some n else reqs S r)" for r by (simp add: assms(2))
  show ?thesis
  proof (rule gens_okI, unfold assms(5))
    fix r s assume s: "reqs S' r = Some s"
    show "unat (id_value (rs_current_generation s)) < unat (sc_next_generation S)"
      using s d(1) d(2) [of r s] assms(3) by (cases "r = rid") (auto simp: look nil_id_def)
    show "rs_in_flight s \<Longrightarrow> rs_current_generation s \<noteq> nil_id"
      using s d(3) [of r s] assms(4) by (cases "r = rid") (auto simp: look)
  next
    fix r1 s1 r2 s2 assume "reqs S' r1 = Some s1" "reqs S' r2 = Some s2" "rs_in_flight s1" "rs_in_flight s2"
      "rs_current_generation s1 = rs_current_generation s2"
    then show "r1 = r2" using d(4) [of r1 s1 r2 s2] assms(4) by (auto simp: look split: if_splits)
  qed (rule d(1))
qed

lemma inc_below: "x < c \<Longrightarrow> unat (x + 1) = Suc (unat x) \<and> 0 < x + 1" for x c :: u64
  using unat_Suc_fits [of x] unat_lt_64 [of c] by (simp add: word_less_nat_alt)

lemma admit_inv:
  assumes inv: "sched_inv pf {} S" and new: "reqs S (request_id req) = None"
    and fits: "plan_fits pf (sc_cfg S) req" "0 \<le> max_retries req"
    and room: "ts_outstanding (the_tenant S (tenant_id req)) < cap"
  shows "sched_inv pf {} (admit pf req S)" "evolves S (admit pf req S)"
proof -
  let ?S' = "admit pf req S" and ?n = "new_rs pf req S" and ?rid = "request_id req"
  note d = sched_invD [OF inv] and e = admit_effect [OF new, where pf = pf] and n = new_rs_sel [of pf req S]
  have R: "reqs ?S' = (reqs S)(?rid \<mapsto> ?n)" by (simp add: e(1) AList.update_conv')
  have sa: "sc_next_reservation ?S' = sc_next_reservation S" "sc_next_generation ?S' = sc_next_generation S"
    using e(4) by (simp_all add: same_alloc_def)
  have look: "reqs ?S' r = (if r = ?rid then Some ?n else reqs S r)" for r by (simp add: R)
  have sum: "asum f (sc_requests ?S') = asum f (sc_requests S) + f ?rid ?n" for f
    unfolding e(1) by (rule asum_update_new [OF new])
  have len: "length (sc_requests ?S') = Suc (length (sc_requests S))"
    using sum [of "\<lambda>_ _. 1"] by (simp add: asum_def sum_list_triv case_prod_unfold)
  have "table_ok pf ?S'"
    using d(1) rs_ok_new [OF fits] n(1) unfolding table_ok_def e(2) look
    by (auto simp: e(1) AList.distinct_update)
  moreover have "mem_ok {} ?S'" by (rule mem_new [OF d(2) R new]) (simp_all add: n is_active_work_def e(3) sa)
  moreover have "gens_ok ?S'" by (rule gens_new [OF d(5) R]) (simp_all add: n sa)
  moreover have "tenants_ok ?S'"
    unfolding tenants_ok_def
  proof
    fix t
    have lc: "live_count t ?S' = live_count t S + live_of t ?n" unfolding live_count_def by (rule sum)
    have tu: "unat (ts_outstanding (the_tenant S t)) = live_count t S" "ts_weight (the_tenant S t) = f64_one"
      "ts_normalized_service (the_tenant S t) = f64_zero" using d(3) by (simp_all add: tenants_ok_def)
    have up: "unat (ts_outstanding (the_tenant S t) + 1) = Suc (live_count t S)" "ts_outstanding (the_tenant S t) + 1 > 0"
      if "t = tenant_id req"
      using inc_below [OF room] that tu(1) by simp_all
    show "unat (ts_outstanding (the_tenant ?S' t)) = live_count t ?S' \<and> ts_weight (the_tenant ?S' t) = f64_one \<and>
        ts_normalized_service (the_tenant ?S' t) = f64_zero"
      using admit_tenant [OF new, of pf t] tu up lc
      by (auto simp: tenant_core_def dec_outstanding_def live_of_def is_live_def is_terminal_lifecycle_def n Let_def split: if_splits)
  qed
  moreover have "counters_ok ?S'"
    unfolding counters_ok_def
  proof (intro conjI ballI)
    show "st_admitted (sc_stats ?S') = of_nat (length (sc_requests ?S'))"
      using d(4) e(5) len by (simp add: counters_ok_def)
    fix l assume "l \<in> final_states"
    then show "stat_of l (sc_stats ?S') = of_nat (lc_count l ?S')"
      using d(4) e(6,7) sum [of "\<lambda>_ s. if rs_lifecycle s = l then 1 else 0"]
      by (cases "l = LC_completed") (auto simp: counters_ok_def lc_count_def n final_states_def)
  qed
  ultimately show "sched_inv pf {} ?S'" by (simp add: sched_inv_def)
  show "evolves S ?S'" using new by (auto simp: evolves_def look sa)
qed

lemma f64_one_not_zero: "\<not> f64_eq f64_one f64_zero"
proof -
  have e: "f64_exp f64_one = 1023" "f64_exp f64_zero = 0" "f64_man f64_one = 0" "f64_man f64_zero = 0"
    by (simp_all add: f64_exp_def f64_man_def f64_one_def f64_zero_def)
  then show ?thesis by (simp add: f64_eq_def f64_rank_def f64_is_inf_def f64_val_def pow2_def Let_def)
qed

text \<open>A submission is rejected without any essential change, or it admits the request.\<close>
lemma submit_cases:
  assumes w: "ts_weight (the_tenant S (tenant_id req)) = f64_one"
  shows "quiet S (snd (submit_with_tokens pf req toks S)) \<and> \<not> is_ok (fst (submit_with_tokens pf req toks S)) \<or>
    (\<exists>S1. quiet S S1 \<and> submit_with_tokens pf req toks S = (res_ok (), admit pf req S1) \<and>
       reqs S1 (request_id req) = None \<and> 0 \<le> max_retries req \<and> sc_cfg S1 = sc_cfg S \<and>
       ts_outstanding (the_tenant S1 (tenant_id req)) < cf_per_tenant_outstanding_limit (sc_cfg S))"
proof -
  note z = f64_one_not_zero
  obtain e toks' where r: "register_request req toks (sc_tokens S) = (e, toks')" by fastforce
  let ?T = "S\<lparr>sc_tokens := toks'\<rparr>"
  let ?U = "upd_tenant (tenant_id req)
    (\<lambda>ts. if f64_eq (ts_weight ts) f64_zero then ts\<lparr>ts_weight := tenant_weight req\<rparr> else ts) ?T"
  have T: "the_tenant ?T = the_tenant S" by (simp add: the_tenant_def fun_eq_iff)
  have q: "quiet S ?T" "quiet S ?U" using w z T by (auto simp: quiet_def)
  have rej: "quiet S V \<Longrightarrow> quiet S (upd_stats (count_rejection c) V)" for V c
    by (erule quiet_trans) (auto simp: quiet_def count_rejection_def stat_of_def)
  show ?thesis
    unfolding submit_with_tokens_def Let_def r
    by (cases e) (use q rej validate_max_retries in \<open>auto simp: res_err_def res_ok_def is_ok_def not_le\<close>)
qed

lemma submit_with_tokens_inv:
  assumes inv: "sched_inv pf {} S" and fits: "plan_fits pf (sc_cfg S) req"
  shows "sched_inv pf {} (snd (submit_with_tokens pf req toks S))" "evolves S (snd (submit_with_tokens pf req toks S))"
proof -
  have w: "ts_weight (the_tenant S (tenant_id req)) = f64_one"
    using sched_invD(3) [OF inv] by (simp add: tenants_ok_def)
  from submit_cases [OF w, of pf toks] consider "quiet S (snd (submit_with_tokens pf req toks S))"
    | S1 where "quiet S S1" "submit_with_tokens pf req toks S = (res_ok (), admit pf req S1)"
      "reqs S1 (request_id req) = None" "0 \<le> max_retries req" "sc_cfg S1 = sc_cfg S"
      "ts_outstanding (the_tenant S1 (tenant_id req)) < cf_per_tenant_outstanding_limit (sc_cfg S)"
    by blast
  then have "sched_inv pf {} (snd (submit_with_tokens pf req toks S)) \<and> evolves S (snd (submit_with_tokens pf req toks S))"
  proof cases
    case 1
    then show ?thesis using sched_inv_quiet [OF 1 inv] quiet_evolves [OF 1] by blast
  next
    case 2
    have "plan_fits pf (sc_cfg S1) req" using fits 2(5) by simp
    note a = admit_inv [OF sched_inv_quiet [OF 2(1) inv] 2(3) this 2(4) 2(6)]
    show ?thesis using a(1) evolves_trans [OF quiet_evolves [OF 2(1)] a(2)] 2(2) by simp
  qed
  then show "sched_inv pf {} (snd (submit_with_tokens pf req toks S))" "evolves S (snd (submit_with_tokens pf req toks S))"
    by blast+
qed

end
