(* ===== verification/PF_Withdraw.thy ===== *)
theory PF_Withdraw
  imports PF_Admission
begin

text \<open>
  Cancellation, forced retry, the worker registry and the recovery of a lost worker's requests
  preserve the scheduler invariant.
\<close>

subsection \<open>Cancellation\<close>

definition cancelled_rs :: "Rs \<Rightarrow> Rs" where
  "cancelled_rs s = add_trace ''cancelled while waiting''
     (let t = clear_res (s\<lparr>rs_lifecycle := LC_cancelled\<rparr>) in
      if is_nil (rs_current_group s) then t else t\<lparr>rs_current_group := nil_id\<rparr>)"

lemma cancelled_rs_sel [simp]:
  "rs_request (cancelled_rs s) = rs_request s" "rs_attempt (cancelled_rs s) = rs_attempt s"
  "rs_lifecycle (cancelled_rs s) = LC_cancelled" "rs_plan (cancelled_rs s) = rs_plan s"
  "rs_next_chunk_index (cancelled_rs s) = rs_next_chunk_index s"
  "rs_completed_uncached (cancelled_rs s) = rs_completed_uncached s"
  "rs_current_generation (cancelled_rs s) = rs_current_generation s" "rs_reservation (cancelled_rs s) = nil_id"
  "rs_in_flight (cancelled_rs s) = rs_in_flight s" "rs_retries_used (cancelled_rs s) = rs_retries_used s"
  by (simp_all add: cancelled_rs_def Let_def)

lemma cancel_waiting:
  assumes "reqs S rid = Some s" "is_live s" "\<not> rs_in_flight s"
  shows "moves rid s (cancelled_rs s) S (snd (cancel rid S))"
    "sc_mem (snd (cancel rid S)) = freed s (sc_mem S)" "same_alloc S (snd (cancel rid S))"
    "tenant_left (tenant_id (rs_request s)) S (snd (cancel rid S))" "counted (Some LC_cancelled) S (snd (cancel rid S))"
  using assms
  by (auto simp: cancel_def is_live_def Let_def request_effects cancelled_rs_def same_alloc_def tenant_left_def counted_def
      stat_of_def final_states_def)

lemma quiet_upd_rs:
  "(\<And>s. core (f s) = core s) \<Longrightarrow> quiet S (upd_rs rid f S)"
  by (auto simp: quiet_def option.map_comp o_def)

lemma quiet_log_now: "quiet S T \<Longrightarrow> quiet S (log_now k r a m T)"
  by (erule quiet_trans) (simp add: quiet_def)

lemma cancel_quiet:
  assumes "\<And>s. reqs S rid = Some s \<Longrightarrow> is_live s \<Longrightarrow> rs_in_flight s"
  shows "quiet S (snd (cancel rid S))"
proof (cases "reqs S rid")
  case (Some s)
  show ?thesis
  proof (cases "is_live s")
    case True
    then have "rs_in_flight s" using assms Some by blast
    with True Some show ?thesis
      by (simp add: cancel_def is_live_def) (intro quiet_log_now quiet_upd_rs, simp add: core_def add_trace_def)
  qed (simp add: cancel_def Some is_live_def)
qed (simp add: cancel_def)

lemma cancel_inv:
  assumes inv: "sched_inv pf {} S"
  shows "sched_inv pf {} (snd (cancel rid S))" "evolves S (snd (cancel rid S))"
proof -
  consider "quiet S (snd (cancel rid S))" | s where "reqs S rid = Some s" "is_live s" "\<not> rs_in_flight s"
    using cancel_quiet [of S rid] by blast
  then have "sched_inv pf {} (snd (cancel rid S)) \<and> evolves S (snd (cancel rid S))"
  proof cases
    case 1
    then show ?thesis using sched_inv_quiet [OF 1 inv] quiet_evolves [OF 1] by blast
  next
    case 2
    note e = cancel_waiting [OF 2]
    have ok: "rs_ok pf (sc_cfg S) (cancelled_rs s)"
      by (rule rs_ok_same_plan [OF table_okD(2) [OF sched_invD(1) [OF inv] 2(1)]]) (use 2(3) in simp_all)
    have f: "finished s (cancelled_rs s)" by (simp add: finished_def final_states_def)
    show ?thesis using inv_finish [OF e(1) inv f ok 2(2) e(2-4)] e(5) by simp
  qed
  then show "sched_inv pf {} (snd (cancel rid S))" "evolves S (snd (cancel rid S))" by blast+
qed

lemma cancel_generation_quiet: "quiet S (snd (cancel_generation rid g S))"
proof -
  have "core (add_trace m (s\<lparr>rs_cancel_pending := True\<rparr>)) = core s" for m s by (simp add: core_def add_trace_def)
  then show ?thesis by (simp add: cancel_generation_def quiet_upd_rs split: option.split)
qed

subsection \<open>Forced retry\<close>

definition withdrawn_rs :: "Rs \<Rightarrow> Rs" where
  "withdrawn_rs s =
     (if \<not> rs_in_flight s then s
      else let t = (clear_res s)\<lparr>rs_in_flight := False\<rparr>
           in if is_nil (rs_current_group s) then t else t\<lparr>rs_current_group := nil_id\<rparr>)"

lemma withdrawn_rs_sel [simp]:
  "rs_request (withdrawn_rs s) = rs_request s" "rs_attempt (withdrawn_rs s) = rs_attempt s"
  "rs_lifecycle (withdrawn_rs s) = rs_lifecycle s" "rs_plan (withdrawn_rs s) = rs_plan s"
  "rs_next_chunk_index (withdrawn_rs s) = rs_next_chunk_index s"
  "rs_completed_uncached (withdrawn_rs s) = rs_completed_uncached s"
  "rs_current_generation (withdrawn_rs s) = rs_current_generation s"
  "\<not> rs_in_flight (withdrawn_rs s)" "rs_retries_used (withdrawn_rs s) = rs_retries_used s"
  by (simp_all add: withdrawn_rs_def Let_def)

lemma withdrawn_rs_reservation:
  "rs_in_flight s \<or> rs_reservation s = nil_id \<Longrightarrow> rs_reservation (withdrawn_rs s) = nil_id"
  by (auto simp: withdrawn_rs_def Let_def)

lemma withdraw_effect:
  assumes "reqs S rid = Some s" "rs_in_flight s \<or> rs_reservation s = nil_id"
  shows "moves rid s (withdrawn_rs s) S (withdraw rid S)" "sc_mem (withdraw rid S) = freed s (sc_mem S)"
    "same_alloc S (withdraw rid S)" "same_tenants S (withdraw rid S)" "counted None S (withdraw rid S)"
    "sc_cfg (withdraw rid S) = sc_cfg S" "sc_next_attempt (withdraw rid S) = sc_next_attempt S"
  using assms
  by (auto simp: withdraw_def withdrawn_rs_def Let_def request_effects same_alloc_def same_tenants_def counted_def stat_of_def)

definition forced_rs :: "platform \<Rightarrow> SchedulerConfig \<Rightarrow> AttemptId \<Rightarrow> Rs \<Rightarrow> Rs" where
  "forced_rs pf c a s = add_trace (''forced retry; new attempt '' @ to_string_u64 (id_value a))
     (restarted_rs pf c a (withdrawn_rs s))"

lemma force_retry_effect:
  fixes pf :: platform
  assumes "reqs S rid = Some s" "is_live s" "rs_in_flight s \<or> rs_reservation s = nil_id"
    "rs_retries_used s < max_retries (rs_request s)"
  defines "S' \<equiv> snd (force_retry pf rid S)"
  shows "moves rid s (forced_rs pf (sc_cfg S) (StrongId (sc_next_attempt S)) s) S S'"
    "sc_mem S' = freed s (sc_mem S)" "same_alloc S S'" "same_tenants S S'" "counted None S S'"
proof -
  note w = withdraw_effect [OF assms(1,3)]
  have r: "reqs (withdraw rid S) rid = Some (withdrawn_rs s)" using w(1) by (simp add: moves_def)
  show "moves rid s (forced_rs pf (sc_cfg S) (StrongId (sc_next_attempt S)) s) S S'"
    by (rule moves_trans [OF w(1)])
      (use assms(1,2,4) r w(6,7) in \<open>auto simp: S'_def force_retry_def is_live_def Let_def alloc_attempt_def moves_def forced_rs_def\<close>)
  show "sc_mem S' = freed s (sc_mem S)" "same_alloc S S'" "same_tenants S S'" "counted None S S'"
    using assms(1,2,4) w
    by (auto simp: S'_def force_retry_def is_live_def Let_def alloc_attempt_def same_alloc_def same_tenants_def counted_def stat_of_def)
qed

lemma live_reservation:
  assumes "sched_inv pf {} S" "reqs S rid = Some s"
  shows "rs_in_flight s \<or> rs_reservation s = nil_id"
  using mem_okD(3) [OF sched_invD(2) [OF assms(1)] assms(2)] by (auto simp: is_active_work_def)

lemma live_lifecycle: "rs_ok pf c s \<Longrightarrow> is_live s \<Longrightarrow> rs_lifecycle s \<in> {LC_queued, LC_dispatched}"
  using live_final [of pf c s] rs_okD(3) [of pf c s] by (auto simp: final_states_def)

lemma force_retry_cases:
  "snd (force_retry pf rid S) = S \<or>
   (\<exists>s. reqs S rid = Some s \<and> is_live s \<and>
      (rs_retries_used s < max_retries (rs_request s) \<or> snd (force_retry pf rid S) = withdraw rid S))"
proof (cases "reqs S rid")
  case (Some s)
  then show ?thesis
    by (cases "is_live s"; cases "max_retries (rs_request s) \<le> rs_retries_used s") (simp_all add: force_retry_def is_live_def)
qed (simp add: force_retry_def)

lemma force_retry_inv:
  assumes inv: "sched_inv pf {} S"
  shows "sched_inv pf {} (snd (force_retry pf rid S))" "evolves S (snd (force_retry pf rid S))"
proof -
  let ?S' = "snd (force_retry pf rid S)"
  consider "?S' = S" | s where "reqs S rid = Some s" "is_live s" "rs_retries_used s < max_retries (rs_request s)"
    | s where "reqs S rid = Some s" "is_live s" "?S' = withdraw rid S"
    using force_retry_cases [of pf rid S] by blast
  then have "sched_inv pf {} ?S' \<and> evolves S ?S'"
  proof cases
    case 1
    then show ?thesis using inv by simp
  next
    case 2
    note ok = table_okD(2) [OF sched_invD(1) [OF inv] 2(1)]
    note e = force_retry_effect [OF 2(1,2) live_reservation [OF inv 2(1)] 2(3), of pf]
    let ?t = "forced_rs pf (sc_cfg S) (StrongId (sc_next_attempt S)) s"
    have t: "rs_ok pf (sc_cfg S) ?t"
      by (rule rs_ok_fresh_attempt [OF ok live_lifecycle [OF ok 2(2)] 2(3)]) (simp_all add: forced_rs_def restarted_rs_def)
    have w: "withdrawn s ?t"
      using withdrawn_rs_reservation [OF live_reservation [OF inv 2(1)]]
      by (simp add: withdrawn_def forced_rs_def restarted_rs_def nil_id_def)
    have l: "is_live ?t" by (simp add: is_live_def is_terminal_lifecycle_def forced_rs_def restarted_rs_def)
    show ?thesis using inv_withdraw [OF e(1) inv w t 2(2) l e(2-5)] by simp
  next
    case 3
    note ok = table_okD(2) [OF sched_invD(1) [OF inv] 3(1)]
    note e = withdraw_effect [OF 3(1) live_reservation [OF inv 3(1)]]
    have t: "rs_ok pf (sc_cfg S) (withdrawn_rs s)"
      by (rule rs_ok_same_plan [OF ok])
        (use rs_okD [OF ok] 3(2) same_chunk [of "withdrawn_rs s" s] in \<open>auto simp: is_live_def is_terminal_lifecycle_def\<close>)
    have w: "withdrawn s (withdrawn_rs s)"
      using withdrawn_rs_reservation [OF live_reservation [OF inv 3(1)]] by (simp add: withdrawn_def)
    have l: "is_live (withdrawn_rs s)" using 3(2) by (simp add: is_live_def)
    show ?thesis using inv_withdraw [OF e(1) inv w t 3(2) l e(2-5)] 3(3) by simp
  qed
  then show "sched_inv pf {} ?S'" "evolves S ?S'" by blast+
qed

subsection \<open>Workers\<close>

definition recovered_rs :: "Rs \<Rightarrow> Rs" where
  "recovered_rs s = add_trace ''recovered after worker loss''
     ((clear_res (s\<lparr>rs_in_flight := False, rs_recovered_work := True\<rparr>))
        \<lparr>rs_current_generation := StrongId 0, rs_lifecycle := LC_queued\<rparr>)"

lemma recover_effect:
  assumes "reqs S rid = Some s" "rs_in_flight s" "rs_lifecycle s = LC_dispatched"
  shows "moves rid s (recovered_rs s) S (recover_request rid S)"
    "sc_mem (recover_request rid S) = freed s (sc_mem S)" "same_alloc S (recover_request rid S)"
    "same_tenants S (recover_request rid S)" "counted None S (recover_request rid S)"
  using assms
  by (auto simp: recover_request_def recovered_rs_def Let_def request_effects same_alloc_def same_tenants_def counted_def stat_of_def)

lemma recover_idle:
  "(\<And>s. reqs S rid = Some s \<Longrightarrow> rs_in_flight s \<Longrightarrow> rs_lifecycle s \<noteq> LC_dispatched) \<Longrightarrow> recover_request rid S = S"
  by (cases "reqs S rid") (auto simp: recover_request_def)

lemma recover_request_inv:
  assumes inv: "sched_inv pf {} S"
  shows "sched_inv pf {} (recover_request rid S) \<and> evolves S (recover_request rid S)"
proof -
  consider "recover_request rid S = S" | s where "reqs S rid = Some s" "rs_in_flight s" "rs_lifecycle s = LC_dispatched"
    using recover_idle [of S rid] by blast
  then show ?thesis
  proof cases
    case 1
    then show ?thesis using inv by simp
  next
    case 2
    note ok = table_okD(2) [OF sched_invD(1) [OF inv] 2(1)]
    have t: "rs_ok pf (sc_cfg S) (recovered_rs s)"
      by (rule rs_ok_same_plan [OF ok])
        (use rs_okD [OF ok] 2 same_chunk [of "recovered_rs s" s] in \<open>auto simp: recovered_rs_def\<close>)
    have w: "withdrawn s (recovered_rs s)" by (simp add: withdrawn_def recovered_rs_def nil_id_def)
    have l: "is_live s" "is_live (recovered_rs s)"
      using 2 by (simp_all add: is_live_def is_terminal_lifecycle_def recovered_rs_def)
    note e = recover_effect [OF 2]
    show ?thesis using inv_withdraw [OF e(1) inv w t l e(2-5)] by simp
  qed
qed

lemma fold_inv:
  assumes "\<And>x S. I S \<Longrightarrow> I (f x S) \<and> evolves S (f x S)" "I S"
  shows "I (fold f xs S) \<and> evolves S (fold f xs S)"
  using assms(2)
proof (induction xs arbitrary: S)
  case (Cons x xs)
  show ?case using Cons.IH [of "f x S"] assms(1) [OF Cons.prems, of x] evolves_trans by (metis fold_simps(2))
qed simp

lemma quiet_inv: "quiet S S' \<Longrightarrow> sched_inv pf X S \<Longrightarrow> sched_inv pf X S' \<and> evolves S S'"
  using sched_inv_quiet quiet_evolves by blast

lemma quiet_workers [simp]:
  "quiet S (S\<lparr>sc_groups := g\<rparr>)" "quiet S (S\<lparr>sc_workers := w\<rparr>)" "quiet S (S\<lparr>sc_next_boot := b\<rparr>)"
  "quiet S (S\<lparr>sc_epoch := e\<rparr>)" "quiet S (S\<lparr>sc_attached_executor := x\<rparr>)" "quiet S (S\<lparr>sc_exec_calls := c\<rparr>)"
  "quiet S (S\<lparr>sc_next_boot := b, sc_workers := w\<rparr>)"
  by (simp_all add: quiet_def the_tenant_def)

lemma recover_group_inv:
  assumes "sched_inv pf {} S"
  shows "sched_inv pf {} (recover_group w kg S) \<and> evolves S (recover_group w kg S)"
proof (cases "gs_worker (snd kg) = w")
  case True
  note f = fold_inv [where I = "sched_inv pf {}" and f = recover_request, OF recover_request_inv assms, of "gs_outstanding (snd kg)"]
  let ?T = "fold recover_request (gs_outstanding (snd kg)) S"
  have "quiet ?T (recover_group w kg S)" by (simp add: recover_group_def Let_def True)
  from quiet_inv [OF this] f show ?thesis using evolves_trans by blast
qed (simp add: recover_group_def assms)

lemma worker_lost_inv:
  assumes "sched_inv pf {} S"
  shows "sched_inv pf {} (snd (worker_lost w S))" "evolves S (snd (worker_lost w S))"
proof -
  note f = fold_inv [where I = "sched_inv pf {}" and f = "recover_group w", OF recover_group_inv assms, of "sc_groups S"]
  let ?T = "fold (recover_group w) (sc_groups S) S"
  have "quiet ?T (snd (worker_lost w S))" unfolding worker_lost_def Let_def by (simp add: quiet_log_now)
  from quiet_inv [OF this] f show "sched_inv pf {} (snd (worker_lost w S))" "evolves S (snd (worker_lost w S))"
    using evolves_trans by blast+
qed

lemma register_worker_quiet: "quiet S (snd (register_worker w S))"
  by (simp add: register_worker_def Let_def quiet_log_now)

lemma unregister_worker_quiet: "quiet S (snd (unregister_worker w S))"
  by (simp add: unregister_worker_def quiet_log_now split: option.split)

lemma roll_epoch_quiet: "quiet S (snd (roll_epoch S))"
  by (simp add: roll_epoch_def Let_def quiet_log_now)

lemma attach_executor_quiet: "quiet S (attach_executor ex b S)"
  by (auto simp: attach_executor_def Let_def quiet_def the_tenant_def split: option.split)

end
