(* ===== verification/PF_Dispatch.thy ===== *)
theory PF_Dispatch
  imports PF_Withdraw
begin

text \<open>
  A scheduling cycle preserves the scheduler invariant: the expiry sweep, formation, the
  all-or-nothing reservation of a group with its roll-back, and the commit.
\<close>

subsection \<open>Acquiring memory\<close>

definition ready :: "Impl \<Rightarrow> RequestId \<Rightarrow> bool" where
  "ready S rid \<longleftrightarrow> (\<exists>s. reqs S rid = Some s \<and> is_candidate s)"

lemma candidate_live: "is_candidate s \<Longrightarrow> is_live s \<and> rs_lifecycle s \<notin> final_states"
  by (simp add: is_candidate_def is_live_def is_terminal_lifecycle_def final_states_def)

lemma rs_ok_reservation: "rs_ok pf c (s\<lparr>rs_reservation := r, rs_reserved_bytes := b\<rparr>) = rs_ok pf c s"
  by (simp add: rs_ok_def has_pending_chunk_def next_chunk_def)

text \<open>Taking a fresh reservation identity.\<close>
lemma mem_alloc:
  assumes "mem_ok X S" "reqs S' = reqs S" "sc_mem S' = sc_mem S" "sc_next_reservation S \<le> sc_next_reservation S'"
  shows "mem_ok X S'"
proof -
  note d = mem_okD [OF assms(1)]
  have le: "unat (sc_next_reservation S) \<le> unat (sc_next_reservation S')" using assms(4) by (simp add: word_le_nat_alt)
  show ?thesis
  proof (rule mem_okI, unfold assms(2,3))
    show "0 < unat (sc_next_reservation S')" using d(2) le by linarith
    fix i assume i: "ledger (sc_mem S) i \<noteq> None"
    show "i \<noteq> nil_id \<and> unat (id_value i) < unat (sc_next_reservation S') \<and> (\<exists>rid s. reqs S rid = Some s \<and> rs_reservation s = i)"
      using d(5,6,7) [OF i] le by auto
  qed (fact d)+
qed

lemma mem_reserve:
  assumes mv: "moves rid s (s\<lparr>rs_reservation := rv, rs_reserved_bytes := mb\<rparr>) S S'" and m: "mem_ok X S"
    and fresh: "rs_reservation s = nil_id" "rv \<noteq> nil_id" "ledger (sc_mem S) rv = None"
    and e: "gov_inv (sc_mem S')" "ledger (sc_mem S') = (ledger (sc_mem S))(rv \<mapsto> unat mb)"
      "unat (id_value rv) < unat (sc_next_reservation S)" "sc_next_reservation S' = sc_next_reservation S"
  shows "mem_ok (insert rid X) S'"
proof -
  let ?t = "s\<lparr>rs_reservation := rv, rs_reserved_bytes := mb\<rparr>"
  note d = mem_okD [OF m]
  have look: "reqs S' r = (if r = rid then Some ?t else reqs S r)" for r
    by (simp only: movesD(2) [OF mv] fun_upd_apply)
  have no: "rs_reservation s0 \<noteq> rv" if "reqs S r = Some s0" for r s0
    using d(4) [OF that] fresh(2,3) by auto
  show ?thesis
  proof (rule mem_okI, unfold e(4))
    show "gov_inv (sc_mem S')" "0 < unat (sc_next_reservation S)" by (fact e(1), fact d(2))
    fix r s0 assume s0: "reqs S' r = Some s0"
    show "rs_reservation s0 \<noteq> nil_id \<longleftrightarrow> is_active_work s0 \<or> r \<in> insert rid X"
      using s0 d(3) [of r s0] fresh(2) by (cases "r = rid") (auto simp: look)
    show "rs_reservation s0 \<noteq> nil_id \<Longrightarrow> ledger (sc_mem S') (rs_reservation s0) = Some (unat (rs_reserved_bytes s0))"
      using s0 d(4) [of r s0] no [of r s0] by (cases "r = rid") (auto simp: look e(2))
  next
    fix i assume i: "ledger (sc_mem S') i \<noteq> None"
    show "i \<noteq> nil_id \<and> unat (id_value i) < unat (sc_next_reservation S) \<and> (\<exists>rid s. reqs S' rid = Some s \<and> rs_reservation s = i)"
    proof (cases "i = rv")
      case True
      have "reqs S' rid = Some ?t" "rs_reservation ?t = i" using True by (simp_all add: look)
      then have "\<exists>r s. reqs S' r = Some s \<and> rs_reservation s = i" by (intro exI conjI)
      then show ?thesis using fresh(2) e(3) unfolding True by simp
    next
      case False
      then have i': "ledger (sc_mem S) i \<noteq> None" using i by (simp add: e(2))
      obtain r s1 where r: "reqs S r = Some s1" "rs_reservation s1 = i" using d(7) [OF i'] by blast
      then have "r \<noteq> rid" using movesD(1) [OF mv] fresh(1) d(5) [OF i'] by auto
      then have "reqs S' r = Some s1" using r(1) by (simp add: look)
      then show ?thesis using d(5,6) [OF i'] r(2) by blast
    qed
  next
    fix r1 s1 r2 s2 assume a: "reqs S' r1 = Some s1" "reqs S' r2 = Some s2"
      "rs_reservation s1 = rs_reservation s2" "rs_reservation s1 \<noteq> nil_id"
    then show "r1 = r2"
      using d(8) [of r1 s1 r2 s2] no [of r1 s1] no [of r2 s2] by (auto simp: look split: if_splits)
  qed
qed

text \<open>A change that leaves every reservation where it is.\<close>
lemma mem_keep:
  assumes mv: "moves rid s s' S S'" and m: "mem_ok X S"
    and s': "rs_reservation s' = rs_reservation s" "rs_reserved_bytes s' = rs_reserved_bytes s"
      "rs_reservation s' \<noteq> nil_id" "is_active_work s'"
    and e: "sc_mem S' = sc_mem S" "sc_next_reservation S' = sc_next_reservation S"
  shows "mem_ok (X - {rid}) S'"
proof -
  note d = mem_okD [OF m]
  have look: "reqs S' r = (if r = rid then Some s' else reqs S r)" for r
    by (simp only: movesD(2) [OF mv] fun_upd_apply)
  have old: "reqs S rid = Some s" by (rule movesD(1) [OF mv])
  have res: "\<exists>s1. reqs S r = Some s1 \<and> rs_reservation s1 = rs_reservation s0 \<and> rs_reserved_bytes s1 = rs_reserved_bytes s0"
    if "reqs S' r = Some s0" for r s0
    using that old s'(1,2) by (cases "r = rid") (auto simp: look)
  show ?thesis
  proof (rule mem_okI, unfold e)
    fix r s0 assume s0: "reqs S' r = Some s0"
    obtain s1 where s1: "reqs S r = Some s1" "rs_reservation s1 = rs_reservation s0" "rs_reserved_bytes s1 = rs_reserved_bytes s0"
      using res [OF s0] by blast
    show "rs_reservation s0 \<noteq> nil_id \<longleftrightarrow> is_active_work s0 \<or> r \<in> X - {rid}"
      using s0 d(3) [of r s0] s'(3,4) by (cases "r = rid") (auto simp: look)
    show "rs_reservation s0 \<noteq> nil_id \<Longrightarrow> ledger (sc_mem S) (rs_reservation s0) = Some (unat (rs_reserved_bytes s0))"
      using d(4) [OF s1(1)] s1 by simp
  next
    fix i assume i: "ledger (sc_mem S) i \<noteq> None"
    obtain r s1 where r: "reqs S r = Some s1" "rs_reservation s1 = i" using d(7) [OF i] by blast
    then have "\<exists>r s. reqs S' r = Some s \<and> rs_reservation s = i"
      using s'(1) old by (cases "r = rid") (auto simp: look)
    then show "i \<noteq> nil_id \<and> unat (id_value i) < unat (sc_next_reservation S) \<and> (\<exists>rid s. reqs S' rid = Some s \<and> rs_reservation s = i)"
      using d(5,6) [OF i] by blast
  next
    fix r1 s1 r2 s2 assume a: "reqs S' r1 = Some s1" "reqs S' r2 = Some s2"
      "rs_reservation s1 = rs_reservation s2" "rs_reservation s1 \<noteq> nil_id"
    obtain t1 where t1: "reqs S r1 = Some t1" "rs_reservation t1 = rs_reservation s1" using res [OF a(1)] by blast
    obtain t2 where t2: "reqs S r2 = Some t2" "rs_reservation t2 = rs_reservation s2" using res [OF a(2)] by blast
    show "r1 = r2" by (rule d(8) [OF t1(1) t2(1)]) (use a t1 t2 in simp_all)
  qed (fact d)+
qed

text \<open>A fresh generation.\<close>
lemma gens_fresh:
  assumes mv: "moves rid s s' S S'" and g: "gens_ok S"
    and s': "rs_current_generation s' = StrongId (sc_next_generation S)"
    and e: "unat (sc_next_generation S') = Suc (unat (sc_next_generation S))"
  shows "gens_ok S'"
proof -
  note d = gens_okD [OF g]
  have look: "reqs S' r = (if r = rid then Some s' else reqs S r)" for r
    by (simp only: movesD(2) [OF mv] fun_upd_apply)
  have old: "rs_current_generation s0 \<noteq> StrongId (sc_next_generation S)" if "reqs S r = Some s0" for r s0
    using d(2) [OF that] by auto
  show ?thesis
  proof (rule gens_okI, unfold e)
    fix r s0 assume s0: "reqs S' r = Some s0"
    show "unat (id_value (rs_current_generation s0)) < Suc (unat (sc_next_generation S))"
      using s0 d(2) [of r s0] s' by (cases "r = rid") (auto simp: look less_Suc_eq)
    show "rs_in_flight s0 \<Longrightarrow> rs_current_generation s0 \<noteq> nil_id"
      using s0 d(1) d(3) [of r s0] s' by (cases "r = rid") (auto simp: look nil_id_def)
  next
    fix r1 s1 r2 s2 assume a: "reqs S' r1 = Some s1" "reqs S' r2 = Some s2" "rs_in_flight s1" "rs_in_flight s2"
      "rs_current_generation s1 = rs_current_generation s2"
    then show "r1 = r2"
      using d(4) [of r1 s1 r2 s2] old [of r1 s1] old [of r2 s2] s' by (auto simp: look split: if_splits)
  qed simp
qed

subsection \<open>Reserving for a group\<close>

lemma reserve_step:
  assumes inv: "sched_inv pf X S" and s: "reqs S rid = Some s" "is_candidate s" "rid \<notin> X"
    and room: "Suc (unat (sc_next_reservation S)) < 2 ^ 64"
  defines "S1 \<equiv> S\<lparr>sc_next_reservation := sc_next_reservation S + 1\<rparr>" and "rv \<equiv> StrongId (sc_next_reservation S)"
  shows "sched_inv pf X S1" "evolves S S1" "rv \<noteq> nil_id"
    "is_ok (fst (reserve rv rid mb RK_reserved (sc_mem S))) \<Longrightarrow>
      sched_inv pf (insert rid X) (upd_rs rid (\<lambda>s. s\<lparr>rs_reservation := rv, rs_reserved_bytes := mb\<rparr>)
        (S1\<lparr>sc_mem := snd (reserve rv rid mb RK_reserved (sc_mem S))\<rparr>))"
    "evolves S (upd_rs rid (\<lambda>s. s\<lparr>rs_reservation := rv, rs_reserved_bytes := mb\<rparr>) (S1\<lparr>sc_mem := m\<rparr>))"
proof -
  note d = sched_invD [OF inv]
  have up: "unat (sc_next_reservation S + 1) = Suc (unat (sc_next_reservation S))" using room by (simp add: unat_Suc_fits)
  then have le: "sc_next_reservation S \<le> sc_next_reservation S + 1" by (simp add: word_le_nat_alt)
  have tn: "the_tenant S1 = the_tenant S" "the_tenant (S1\<lparr>sc_mem := m\<rparr>) = the_tenant S" for m
    by (simp_all add: S1_def the_tenant_def fun_eq_iff)
  have "table_ok pf S1" using d(1) by (simp add: table_ok_def S1_def)
  moreover have m1: "mem_ok X S1" by (rule mem_alloc [OF d(2)]) (use le in \<open>simp_all add: S1_def\<close>)
  moreover have "tenants_ok S1" using d(3) by (simp add: tenants_ok_def live_count_def tn) (simp add: S1_def)
  moreover have "counters_ok S1" using d(4) by (simp add: counters_ok_def lc_count_def S1_def)
  moreover have "gens_ok S1" using d(5) by (simp add: gens_ok_def S1_def)
  ultimately show "sched_inv pf X S1" by (simp add: sched_inv_def)
  show nn: "rv \<noteq> nil_id" using mem_okD(2) [OF d(2)] by (simp add: rv_def nil_id_def unat_gt_0)
  show "evolves S S1" by (simp add: evolves_def S1_def)
  let ?t = "s\<lparr>rs_reservation := rv, rs_reserved_bytes := mb\<rparr>"
  let ?S2 = "\<lambda>m. upd_rs rid (\<lambda>s. s\<lparr>rs_reservation := rv, rs_reserved_bytes := mb\<rparr>) (S1\<lparr>sc_mem := m\<rparr>)"
  have mv: "moves rid s ?t S (?S2 m)" and mv1: "moves rid s ?t S1 (?S2 m)" for m
    using s(1) by (auto simp: moves_def S1_def)
  show "evolves S (?S2 m)" for m
    by (rule evolves_moves [OF mv]) (simp_all add: evolve_def is_active_work_def S1_def)
  assume ok: "is_ok (fst (reserve rv rid mb RK_reserved (sc_mem S)))"
  let ?T = "?S2 (snd (reserve rv rid mb RK_reserved (sc_mem S)))"
  have na: "\<not> is_active_work s" using s(2) by (simp add: is_candidate_def is_active_work_def)
  have "mem_ok (insert rid X) ?T"
  proof (rule mem_reserve [OF mv1 m1])
    show "rs_reservation s = nil_id" using mem_okD(3) [OF d(2) s(1)] na s(3) by blast
    show "ledger (sc_mem S1) rv = None" using gov.reserve_fresh [OF ok] by (simp add: S1_def)
    show "gov_inv (sc_mem ?T)" using mem_okD(1) [OF d(2)] by (simp add: reserve_inv)
    show "ledger (sc_mem ?T) = (ledger (sc_mem S1))(rv \<mapsto> unat mb)" using ok by (simp add: ledger_reserve S1_def)
  qed (use nn up in \<open>simp_all add: rv_def S1_def\<close>)
  moreover have "rs_ok pf (sc_cfg S) ?t" using table_okD(2) [OF d(1) s(1)] by (simp add: rs_ok_reservation)
  then have "table_ok pf ?T" by (intro table_moves [OF mv d(1)]) simp_all
  moreover have "tenants_ok ?T"
    by (rule tenants_keep [OF mv d(6,3)]) (simp_all add: is_live_def same_tenants_def tn)
  moreover have "counters_ok ?T"
    by (rule counters_moves [OF mv d(6,4)]) (use candidate_live [OF s(2)] in \<open>simp_all add: counted_def S1_def\<close>)
  moreover have "gens_ok ?T" by (rule gens_moves [OF mv d(5)]) (simp_all add: S1_def)
  ultimately show "sched_inv pf (insert rid X) ?T" by (simp add: sched_inv_def)
qed

text \<open>The request without its reservation.\<close>
definition bare :: "Rs \<Rightarrow> Rs" where
  "bare s = s\<lparr>rs_reservation := nil_id, rs_reserved_bytes := 0\<rparr>"

lemma bare_sel [simp]:
  "is_candidate (bare s) = is_candidate s" "bare (s\<lparr>rs_reservation := r, rs_reserved_bytes := b\<rparr>) = bare s" "bare (bare s) = bare s"
  by (simp_all add: bare_def is_candidate_def has_pending_chunk_def)

text \<open>Only reservations of the given requests differ; at most that many were allocated.\<close>
definition reserved_for :: "RequestId list \<Rightarrow> Impl \<Rightarrow> Impl \<Rightarrow> bool" where
  "reserved_for rids S S' \<longleftrightarrow>
     (\<forall>r. map_option bare (reqs S' r) = map_option bare (reqs S r) \<and> (r \<notin> set rids \<longrightarrow> reqs S' r = reqs S r)) \<and>
     keys (sc_requests S') = keys (sc_requests S) \<and>
     sc_next_generation S' = sc_next_generation S \<and>
     unat (sc_next_reservation S') \<le> unat (sc_next_reservation S) + length rids"

lemma ready_bare: "ready S r \<longleftrightarrow> map_option is_candidate (map_option bare (reqs S r)) = Some True"
  by (auto simp: ready_def)

lemma reserved_ready: "reserved_for rids S S' \<Longrightarrow> ready S' r = ready S r"
  by (simp only: ready_bare reserved_for_def)

lemma reserved_for_trans: "reserved_for a S T \<Longrightarrow> reserved_for b T U \<Longrightarrow> reserved_for (a @ b) S U"
  by (simp add: reserved_for_def)

lemma reserve_all_inv:
  assumes "reserve_all rids acc S = (good, acc', S')" "sched_inv pf X S" "distinct rids" "set rids \<inter> X = {}"
    "\<And>r. r \<in> set rids \<Longrightarrow> ready S r" "unat (sc_next_reservation S) + length rids < 2 ^ 64"
  shows "\<exists>new. acc' = acc @ new \<and> sched_inv pf (X \<union> fst ` set new) S' \<and> evolves S S' \<and>
    distinct (map fst new) \<and> fst ` set new \<subseteq> set rids \<and> (good \<longrightarrow> map fst new = rids) \<and>
    (\<forall>(r, rv) \<in> set new. \<exists>s. reqs S' r = Some s \<and> rs_reservation s = rv) \<and> reserved_for rids S S'"
  using assms
proof (induction rids arbitrary: acc S X)
  case Nil
  then show ?case by (intro exI [of _ "[]"]) (auto simp: reserved_for_def)
next
  case (Cons rid rids)
  obtain s where s: "reqs S rid = Some s" "is_candidate s" using Cons.prems(5) [of rid] by (auto simp: ready_def)
  let ?mb = "ch_memory_estimate_bytes (next_chunk s)" and ?rv = "StrongId (sc_next_reservation S) :: ReservationId"
  let ?S1 = "S\<lparr>sc_next_reservation := sc_next_reservation S + 1\<rparr>"
  let ?m = "snd (reserve ?rv rid ?mb RK_reserved (sc_mem S))"
  let ?S2 = "upd_rs rid (\<lambda>s. s\<lparr>rs_reservation := ?rv, rs_reserved_bytes := ?mb\<rparr>) (?S1\<lparr>sc_mem := ?m\<rparr>)"
  have nx: "rid \<notin> X" and room: "Suc (unat (sc_next_reservation S)) < 2 ^ 64" using Cons.prems(4,6) by auto
  have up: "unat (sc_next_reservation S + 1) = Suc (unat (sc_next_reservation S))" using room by (simp add: unat_Suc_fits)
  note st = reserve_step [OF Cons.prems(2) s nx room]
  show ?case
  proof (cases "fst (reserve ?rv rid ?mb RK_reserved (sc_mem S))")
    case (Inl e)
    have m: "?m = sc_mem S" using Inl by (auto simp: reserve_def res_ok_def res_err_def split: if_splits)
    have "good = False \<and> acc' = acc \<and> S' = ?S1"
      using Cons.prems(1) Inl m
      by (cases "reserve ?rv rid ?mb RK_reserved (sc_mem S)") (simp add: Let_def alloc_reservation_def the_rs_eq [OF s(1)])
    then show ?thesis using st(1,2) up by (intro exI [of _ "[]"]) (simp add: reserved_for_def)
  next
    case (Inr u)
    then have ok: "is_ok (fst (reserve ?rv rid ?mb RK_reserved (sc_mem S)))" by simp
    have rec: "reserve_all rids (acc @ [(rid, ?rv)]) ?S2 = (good, acc', S')"
      using Cons.prems(1) Inr
      by (cases "reserve ?rv rid ?mb RK_reserved (sc_mem S)") (simp add: Let_def alloc_reservation_def the_rs_eq [OF s(1)])
    have r2: "reserved_for [rid] S ?S2" using s(1) up by (auto simp: reserved_for_def)
    note ih = Cons.IH [OF rec st(4) [OF ok]]
    have "\<exists>new. acc' = (acc @ [(rid, ?rv)]) @ new \<and> sched_inv pf (insert rid X \<union> fst ` set new) S' \<and> evolves ?S2 S' \<and>
      distinct (map fst new) \<and> fst ` set new \<subseteq> set rids \<and> (good \<longrightarrow> map fst new = rids) \<and>
      (\<forall>(r, rv) \<in> set new. \<exists>s. reqs S' r = Some s \<and> rs_reservation s = rv) \<and> reserved_for rids ?S2 S'"
    proof (rule ih)
      show "ready ?S2 r" if "r \<in> set rids" for r
        using Cons.prems(5) [of r] that reserved_ready [OF r2] by simp
    qed (use Cons.prems(3,4,6) up in auto)
    then obtain new where new: "acc' = (acc @ [(rid, ?rv)]) @ new" "sched_inv pf (insert rid X \<union> fst ` set new) S'" "evolves ?S2 S'"
      "distinct (map fst new)" "fst ` set new \<subseteq> set rids" "good \<longrightarrow> map fst new = rids"
      "\<forall>(r, rv) \<in> set new. \<exists>s. reqs S' r = Some s \<and> rs_reservation s = rv" "reserved_for rids ?S2 S'"
      by blast
    have rs: "reqs S' rid = Some (s\<lparr>rs_reservation := ?rv, rs_reserved_bytes := ?mb\<rparr>)"
      using new(8) Cons.prems(3) s(1) by (simp add: reserved_for_def)
    have "reserved_for (rid # rids) S S'" using reserved_for_trans [OF r2 new(8)] by simp
    moreover have "evolves S S'" by (rule evolves_trans [OF st(5) new(3)])
    ultimately show ?thesis
      using new rs Cons.prems(3) by (intro exI [of _ "(rid, ?rv) # new"]) auto
  qed
qed

subsection \<open>Rolling back\<close>

definition unreserve :: "RequestId \<times> ReservationId \<Rightarrow> Impl \<Rightarrow> Impl" where
  "unreserve p S = upd_rs (fst p) bare (upd_mem (\<lambda>m. snd (release (snd p) m)) S)"

lemma upd_mem_rs: "upd_mem g (upd_rs r f S) = upd_rs r f (upd_mem g S)"
  by (simp add: upd_mem_def upd_rs_def)

lemma roll_back_fold: "roll_back acc S = fold unreserve acc S"
proof -
  let ?M = "\<lambda>(_, rv). upd_mem (\<lambda>m. snd (release rv m))"
  have swap: "fold ?M acc (upd_rs r f S) = upd_rs r f (fold ?M acc S)" for acc r f S
    by (induction acc arbitrary: S) (auto simp: upd_mem_rs)
  have bare: "(\<lambda>s. s\<lparr>rs_reservation := nil_id, rs_reserved_bytes := 0\<rparr>) = bare" by (simp add: bare_def fun_eq_iff)
  show ?thesis
    unfolding roll_back_def Let_def bare
    by (induction acc arbitrary: S) (auto simp: unreserve_def swap [symmetric])
qed

lemma unreserve_inv:
  assumes inv: "sched_inv pf X S" and s: "reqs S rid = Some s" "rs_reservation s = rv" "is_candidate s" "rid \<in> X"
  shows "sched_inv pf (X - {rid}) (unreserve (rid, rv) S)" "evolves S (unreserve (rid, rv) S)"
proof -
  have nn: "rv \<noteq> nil_id" using mem_okD(3) [OF sched_invD(2) [OF inv] s(1)] s(2,4) by blast
  have mv: "moves rid s (bare s) S (unreserve (rid, rv) S)" using s(1) by (auto simp: moves_def unreserve_def)
  have w: "withdrawn s (bare s)" using s(3) by (simp add: withdrawn_def bare_def is_candidate_def)
  have ok: "rs_ok pf (sc_cfg S) (bare s)"
    using table_okD(2) [OF sched_invD(1) [OF inv] s(1)] by (simp add: bare_def rs_ok_reservation)
  have l: "is_live s" "is_live (bare s)" using candidate_live [OF s(3)] by (simp_all add: bare_def is_live_def)
  have "sc_mem (unreserve (rid, rv) S) = freed s (sc_mem S)" using nn s(2) by (simp add: unreserve_def freed_def)
  moreover have "same_alloc S (unreserve (rid, rv) S)" "same_tenants S (unreserve (rid, rv) S)" "counted None S (unreserve (rid, rv) S)"
    by (simp_all add: unreserve_def same_alloc_def same_tenants_def counted_def)
  ultimately show "sched_inv pf (X - {rid}) (unreserve (rid, rv) S)" "evolves S (unreserve (rid, rv) S)"
    using inv_withdraw [OF mv inv w ok l] by blast+
qed

lemma unreserve_sel [simp]:
  "sc_next_generation (unreserve p S) = sc_next_generation S" "sc_next_reservation (unreserve p S) = sc_next_reservation S"
  "keys (sc_requests (unreserve p S)) = keys (sc_requests S)"
  "reqs (unreserve p S) = (reqs S)(fst p := map_option bare (reqs S (fst p)))"
  by (simp_all add: unreserve_def)

lemma roll_back_inv:
  assumes "sched_inv pf X S" "distinct (map fst acc)" "fst ` set acc \<subseteq> X"
    "\<And>r rv. (r, rv) \<in> set acc \<Longrightarrow> \<exists>s. reqs S r = Some s \<and> rs_reservation s = rv \<and> is_candidate s"
  shows "sched_inv pf (X - fst ` set acc) (fold unreserve acc S) \<and> evolves S (fold unreserve acc S) \<and>
    reserved_for (map fst acc) S (fold unreserve acc S)"
  using assms
proof (induction acc arbitrary: S X)
  case Nil
  then show ?case by (simp add: reserved_for_def)
next
  case (Cons p acc)
  obtain rid rv where p: "p = (rid, rv)" by (cases p)
  obtain s where s: "reqs S rid = Some s" "rs_reservation s = rv" "is_candidate s" using Cons.prems(4) [of rid rv] p by auto
  have x: "rid \<in> X" using Cons.prems(3) p by auto
  note u = unreserve_inv [OF Cons.prems(1) s x]
  have "sched_inv pf (X - {rid} - fst ` set acc) (fold unreserve acc (unreserve p S)) \<and>
      evolves (unreserve p S) (fold unreserve acc (unreserve p S)) \<and>
      reserved_for (map fst acc) (unreserve p S) (fold unreserve acc (unreserve p S))"
  proof (rule Cons.IH)
    fix r rv' assume a: "(r, rv') \<in> set acc"
    then have "r \<noteq> rid" using Cons.prems(2) p by force
    then show "\<exists>s. reqs (unreserve p S) r = Some s \<and> rs_reservation s = rv' \<and> is_candidate s"
      using Cons.prems(4) [of r rv'] a p by simp
  qed (use u(1) Cons.prems(2,3) p in auto)
  then have ih: "sched_inv pf (X - {rid} - fst ` set acc) (fold unreserve acc (unreserve p S))"
      "evolves (unreserve (rid, rv) S) (fold unreserve acc (unreserve p S))"
      "reserved_for (map fst acc) (unreserve p S) (fold unreserve acc (unreserve p S))"
    by (simp_all add: p)
  have "reserved_for [rid] S (unreserve p S)" using s(1) by (simp add: reserved_for_def p)
  note r = reserved_for_trans [OF this ih(3)]
  have "X - fst ` set (p # acc) = X - {rid} - fst ` set acc" by (auto simp: p)
  with ih(1) evolves_trans [OF u(2) ih(2)] r show ?case by (simp only: p list.map fst_conv append.simps fold_simps simp_thms)
qed

subsection \<open>Committing a group\<close>

lemma dispatched_rs_sel [simp]:
  "rs_request (dispatched_rs n g w x s) = rs_request s" "rs_attempt (dispatched_rs n g w x s) = rs_attempt s"
  "rs_lifecycle (dispatched_rs n g w x s) = LC_dispatched" "rs_plan (dispatched_rs n g w x s) = rs_plan s"
  "rs_next_chunk_index (dispatched_rs n g w x s) = rs_next_chunk_index s"
  "rs_completed_uncached (dispatched_rs n g w x s) = rs_completed_uncached s"
  "rs_current_generation (dispatched_rs n g w x s) = x" "rs_reservation (dispatched_rs n g w x s) = rs_reservation s"
  "rs_reserved_bytes (dispatched_rs n g w x s) = rs_reserved_bytes s" "rs_in_flight (dispatched_rs n g w x s)"
  "rs_retries_used (dispatched_rs n g w x s) = rs_retries_used s"
  "rs_current_group (dispatched_rs n g w x s) = g" "rs_dispatched_worker (dispatched_rs n g w x s) = w"
  by (simp_all add: dispatched_rs_def)

lemma rs_ok_dispatched:
  assumes "rs_ok pf c s" "is_candidate s"
  shows "rs_ok pf c (dispatched_rs n g w x s)"
proof -
  note k = same_chunk [of "dispatched_rs n g w x s" s, OF dispatched_rs_sel(4,5)]
  have q: "rs_lifecycle s = LC_queued" "has_pending_chunk s" using assms(2) by (simp_all add: is_candidate_def)
  have "rs_completed_uncached s = ch_token_start (next_chunk s)" using rs_okD(7) [OF assms(1)] q(1) by blast
  then show ?thesis by (intro rs_ok_same_plan [OF assms(1)]) (use q in \<open>simp_all add: k\<close>)
qed

lemma commit_step:
  assumes inv: "sched_inv pf X S" and s: "reqs S rid = Some s" "is_candidate s" "rid \<in> X"
    and mv: "moves rid s (dispatched_rs n g w (StrongId (sc_next_generation S)) s) S S'"
    and e: "sc_mem S' = sc_mem S" "sc_next_reservation S' = sc_next_reservation S"
      "unat (sc_next_generation S') = Suc (unat (sc_next_generation S))" "same_tenants S S'" "counted None S S'"
  shows "sched_inv pf (X - {rid}) S'" "evolves S S'"
proof -
  let ?t = "dispatched_rs n g w (StrongId (sc_next_generation S)) s"
  note d = sched_invD [OF inv]
  have l: "is_live s" "is_live ?t" "rs_lifecycle s \<notin> final_states"
    using candidate_live [OF s(2)] by (simp_all add: is_live_def is_terminal_lifecycle_def)
  have act: "is_active_work ?t" by (simp add: is_active_work_def)
  have res: "rs_reservation ?t \<noteq> nil_id" using mem_okD(3) [OF d(2) s(1)] s(3) by simp
  show "sched_inv pf (X - {rid}) S'"
    unfolding sched_inv_def
  proof (intro conjI)
    show "table_ok pf S'" by (rule table_moves [OF mv d(1) _ rs_ok_dispatched [OF table_okD(2) [OF d(1) s(1)] s(2)]]) simp
    show "mem_ok (X - {rid}) S'" by (rule mem_keep [OF mv d(2) _ _ res act e(1,2)]) simp_all
    show "tenants_ok S'" by (rule tenants_keep [OF mv d(6,3) _ _ e(4)]) (use l in simp_all)
    show "counters_ok S'" by (rule counters_moves [OF mv d(6,4) l(3)]) (use e(5) in \<open>simp add: final_states_def\<close>)
    show "gens_ok S'" by (rule gens_fresh [OF mv d(5) _ e(3)]) simp
  qed
  show "evolves S S'"
    by (rule evolves_moves [OF mv]) (use l act e(3) in \<open>simp_all add: evolve_def word_le_nat_alt\<close>)
qed

text \<open>The state and the group record after one member of the commit loop.\<close>
definition commit_one :: "Nanoseconds \<Rightarrow> GroupId \<Rightarrow> WorkerId \<Rightarrow> RequestId \<Rightarrow> Rs \<Rightarrow> u64 \<Rightarrow> Impl \<Rightarrow> Impl" where
  "commit_one now gid w rid s n S =
     (let A = upd_rs rid (dispatched_rs now gid w (StrongId (sc_next_generation S))) (S\<lparr>sc_next_generation := sc_next_generation S + 1\<rparr>);
          B = (if rs_first_dispatch_time s = 0
               then upd_stats (\<lambda>st. st\<lparr>st_queue_latency_total_ns := st_queue_latency_total_ns st + (now - rs_admit_time s),
                      st_queue_latency_samples := st_queue_latency_samples st + 1\<rparr>) A
               else A)
      in upd_stats (\<lambda>st. st\<lparr>st_scheduled_tokens := st_scheduled_tokens st + n\<rparr>) B)"

definition commit_member :: "Generation \<Rightarrow> WorkerId \<Rightarrow> RequestId \<Rightarrow> nat \<Rightarrow> Gs \<Rightarrow> Gs" where
  "commit_member gen w rid i g =
     g\<lparr>gs_group := (gs_group g)\<lparr>eg_members := (eg_members (gs_group g))
           [i := (eg_members (gs_group g) ! i)\<lparr>em_generation := gen, em_assigned_worker := w\<rparr>]\<rparr>,
       gs_outstanding := insort_insert rid (gs_outstanding g)\<rparr>"

lemma commit_members_Cons:
  assumes "reqs S rid = Some s"
  shows "commit_members now gid w i (rid # rids) (g, b) S =
    commit_members now gid w (Suc i) rids
      (commit_member (StrongId (sc_next_generation S)) w rid i g, b + em_memory_estimate_bytes (eg_members (gs_group g) ! i))
      (commit_one now gid w rid s (em_token_count (eg_members (gs_group g) ! i)) S)"
proof -
  have the: "the_rs (S\<lparr>sc_next_generation := sc_next_generation S + 1\<rparr>) rid = s" using assms by (simp add: the_rs_eq)
  have sel: "em_memory_estimate_bytes (m\<lparr>em_generation := x, em_assigned_worker := w\<rparr>) = em_memory_estimate_bytes m"
    "em_token_count (m\<lparr>em_generation := x, em_assigned_worker := w\<rparr>) = em_token_count m" for m :: ExecutableMember and x
    by simp_all
  show ?thesis
    by (simp only: commit_members.simps Let_def alloc_generation_def prod.case the commit_one_def commit_member_def sel)
qed

lemma commit_one_effect:
  fixes now :: Nanoseconds and gid :: GroupId and w :: WorkerId and n :: u64
  assumes "reqs S rid = Some s" "Suc (unat (sc_next_generation S)) < 2 ^ 64"
  defines "S' \<equiv> commit_one now gid w rid s n S"
  shows "moves rid s (dispatched_rs now gid w (StrongId (sc_next_generation S)) s) S S'"
    "sc_mem S' = sc_mem S" "sc_next_reservation S' = sc_next_reservation S"
    "unat (sc_next_generation S') = Suc (unat (sc_next_generation S))" "same_tenants S S'" "counted None S S'"
proof -
  have up: "unat (sc_next_generation S + 1) = Suc (unat (sc_next_generation S))" using assms(2) by (simp add: unat_Suc_fits)
  have tn: "the_tenant (S\<lparr>sc_next_generation := n\<rparr>) = the_tenant S" for n by (simp add: the_tenant_def fun_eq_iff)
  show "moves rid s (dispatched_rs now gid w (StrongId (sc_next_generation S)) s) S S'"
    using assms(1) by (auto simp: moves_def S'_def commit_one_def Let_def)
  show "sc_mem S' = sc_mem S" "sc_next_reservation S' = sc_next_reservation S"
    "unat (sc_next_generation S') = Suc (unat (sc_next_generation S))" "same_tenants S S'" "counted None S S'"
    using up by (simp_all add: S'_def commit_one_def Let_def same_tenants_def counted_def stat_of_def tn)
qed

text \<open>Only the given requests differ; each took one generation.\<close>
definition committed :: "RequestId list \<Rightarrow> Impl \<Rightarrow> Impl \<Rightarrow> bool" where
  "committed rids S S' \<longleftrightarrow> (\<forall>r. r \<notin> set rids \<longrightarrow> reqs S' r = reqs S r) \<and>
     keys (sc_requests S') = keys (sc_requests S) \<and> sc_next_reservation S' = sc_next_reservation S \<and>
     unat (sc_next_generation S') = unat (sc_next_generation S) + length rids"

lemma committed_trans: "committed a S T \<Longrightarrow> committed b T U \<Longrightarrow> committed (a @ b) S U"
  by (simp add: committed_def)

lemma commit_members_inv:
  assumes "sched_inv pf X S" "distinct rids" "set rids \<subseteq> X" "\<And>r. r \<in> set rids \<Longrightarrow> ready S r"
    "unat (sc_next_generation S) + length rids < 2 ^ 64"
  shows "sched_inv pf (X - set rids) (snd (commit_members now gid w i rids acc S)) \<and>
    evolves S (snd (commit_members now gid w i rids acc S)) \<and> committed rids S (snd (commit_members now gid w i rids acc S))"
  using assms
proof (induction rids arbitrary: i acc S X)
  case Nil
  then show ?case by (simp add: committed_def)
next
  case (Cons rid rids)
  obtain s where s: "reqs S rid = Some s" "is_candidate s" using Cons.prems(4) [of rid] by (auto simp: ready_def)
  obtain g b where acc: "acc = (g, b)" by fastforce
  let ?C = "commit_one now gid w rid s (em_token_count (eg_members (gs_group g) ! i)) S"
  obtain acc' where rec: "commit_members now gid w i (rid # rids) acc S = commit_members now gid w (Suc i) rids acc' ?C"
    unfolding acc using commit_members_Cons [OF s(1)] by blast
  have x: "rid \<in> X" using Cons.prems(3) by simp
  have room: "Suc (unat (sc_next_generation S)) < 2 ^ 64" using Cons.prems(5) by simp
  note e = commit_one_effect [OF s(1) room, of now gid w "em_token_count (eg_members (gs_group g) ! i)"]
  note st = commit_step [OF Cons.prems(1) s x e]
  have ih: "sched_inv pf (X - {rid} - set rids) (snd (commit_members now gid w (Suc i) rids acc' ?C)) \<and>
    evolves ?C (snd (commit_members now gid w (Suc i) rids acc' ?C)) \<and>
    committed rids ?C (snd (commit_members now gid w (Suc i) rids acc' ?C))"
  proof (rule Cons.IH [OF st(1)])
    fix r assume r: "r \<in> set rids"
    then have "r \<noteq> rid" using Cons.prems(2) by auto
    then show "ready ?C r" using Cons.prems(4) [of r] r movesD(2) [OF e(1)] by (simp add: ready_def)
  qed (use Cons.prems(2,3,5) e(4) in auto)
  have "committed [rid] S ?C" using movesD(2,3) [OF e(1)] e(3,4) by (simp add: committed_def)
  note c = committed_trans [OF this conjunct2 [OF conjunct2 [OF ih]]]
  have "X - set (rid # rids) = X - {rid} - set rids" by auto
  with ih c show ?case unfolding rec using evolves_trans [OF st(2)] by (simp only: append.simps simp_thms)
qed

subsection \<open>Dispatching the groups\<close>

definition touched :: "RequestId list \<Rightarrow> Impl \<Rightarrow> Impl \<Rightarrow> bool" where
  "touched rids S S' \<longleftrightarrow> (\<forall>r. r \<notin> set rids \<longrightarrow> reqs S' r = reqs S r) \<and>
     keys (sc_requests S') = keys (sc_requests S) \<and>
     unat (sc_next_reservation S') \<le> unat (sc_next_reservation S) + length rids \<and>
     unat (sc_next_generation S') \<le> unat (sc_next_generation S) + length rids"

lemma touched_trans: "touched a S T \<Longrightarrow> touched b T U \<Longrightarrow> touched (a @ b) S U"
  by (simp add: touched_def)

lemma touched_refl [simp]: "touched rids S S"
  by (simp add: touched_def)

lemma trace_all_quiet: "quiet S (trace_all m rids S) \<and> touched rids S (trace_all m rids S)"
proof (induction rids arbitrary: S)
  case (Cons r rids)
  have q: "quiet S (upd_rs r (add_trace m) S)" by (rule quiet_upd_rs) simp
  have t: "touched [r] S (upd_rs r (add_trace m) S)" by (simp add: touched_def)
  show ?case
    using Cons.IH [of "upd_rs r (add_trace m) S"] quiet_trans [OF q] touched_trans [OF t] by (simp add: trace_all_def)
qed (simp add: trace_all_def)

lemma trace_all_sel [simp]:
  "sc_next_reservation (trace_all m rids S) = sc_next_reservation S" "sc_next_generation (trace_all m rids S) = sc_next_generation S"
  using trace_all_quiet [of S m rids] by (simp_all add: quiet_def)

definition group_ready :: "Impl \<Rightarrow> OpenGroup \<Rightarrow> bool" where
  "group_ready S g \<longleftrightarrow> distinct (og_rids g) \<and> (\<forall>r \<in> set (og_rids g). ready S r)"

definition room :: "nat \<Rightarrow> Impl \<Rightarrow> bool" where
  "room n S \<longleftrightarrow> unat (sc_next_reservation S) + n < 2 ^ 64 \<and> unat (sc_next_generation S) + n < 2 ^ 64"

lemma commit_group_inv:
  assumes "sched_inv pf X S" "group_ready S g" "X = set (og_rids g)" "unat (sc_next_generation S) + length (og_rids g) < 2 ^ 64"
  shows "sched_inv pf {} (snd (commit_group now w g (b, S))) \<and> evolves S (snd (commit_group now w g (b, S))) \<and>
    committed (og_rids g) S (snd (commit_group now w g (b, S)))"
proof -
  obtain gs n T where T: "commit_members now (eg_group_id (og_group g)) w 0 (og_rids g)
      (\<lparr>gs_group = og_group g, gs_worker = w, gs_outstanding = []\<rparr>, 0) S = ((gs, n), T)" by (metis surj_pair)
  let ?U = "snd (commit_group now w g (b, S))"
  have c: "sched_inv pf (X - set (og_rids g)) T" "evolves S T" "committed (og_rids g) S T"
    using commit_members_inv [of pf X S "og_rids g" now "eg_group_id (og_group g)" w 0
        "(\<lparr>gs_group = og_group g, gs_worker = w, gs_outstanding = []\<rparr>, 0)"] assms T
    by (simp_all add: group_ready_def)
  have U: "?U = upd_stats (\<lambda>st. st\<lparr>st_groups_formed := st_groups_formed st + 1,
      st_group_size_distribution := modify_default 0 (of_nat (length (og_rids g))) (\<lambda>n. n + 1) (st_group_size_distribution st)\<rparr>)
      (T\<lparr>sc_workers := modify w (\<lambda>x. x\<lparr>ws_busy_units := ws_busy_units x + 1\<rparr>) (sc_workers T),
         sc_groups := AList.update (eg_group_id (og_group g)) gs (sc_groups T)\<rparr>)"
    unfolding commit_group_def prod.case Let_def T by simp
  have q: "quiet T ?U" unfolding U by (simp add: quiet_def stat_of_def the_tenant_def)
  have "sched_inv pf {} T" using c(1) assms(3) by simp
  from quiet_inv [OF q this] show ?thesis
    using evolves_trans [OF c(2)] c(3) unfolding U by (simp add: committed_def)
qed

lemma reserved_touched: "reserved_for rids S T \<Longrightarrow> touched rids S T"
  by (simp add: reserved_for_def touched_def)

lemma touched_same:
  "touched a S T \<Longrightarrow> touched b T U \<Longrightarrow> set b \<subseteq> set a \<Longrightarrow> sc_next_generation U = sc_next_generation T \<Longrightarrow>
   sc_next_reservation U = sc_next_reservation T \<Longrightarrow> touched a S U"
  by (auto simp: touched_def)

lemma fold_unreserve_sel:
  "sc_next_generation (fold unreserve acc S) = sc_next_generation S"
  "sc_next_reservation (fold unreserve acc S) = sc_next_reservation S"
  by (induction acc arbitrary: S) simp_all

lemma dispatch_failed:
  fixes m :: string
  assumes inv: "sched_inv pf {} S" and g: "group_ready S g" "room (length (og_rids g)) S"
    and r: "reserve_all (og_rids g) [] S = (False, acc, T)"
  defines "U \<equiv> trace_all m (og_rids g) (roll_back acc T)"
  shows "sched_inv pf {} U \<and> evolves S U \<and> touched (og_rids g) S U"
proof -
  obtain new where new: "acc = [] @ new" "sched_inv pf ({} \<union> fst ` set new) T" "evolves S T" "distinct (map fst new)"
      "fst ` set new \<subseteq> set (og_rids g)" "\<forall>(r, rv) \<in> set new. \<exists>s. reqs T r = Some s \<and> rs_reservation s = rv"
      "reserved_for (og_rids g) S T"
    using reserve_all_inv [OF r inv] g by (auto simp: group_ready_def room_def)
  let ?V = "fold unreserve acc T"
  have "sched_inv pf (({} \<union> fst ` set new) - fst ` set acc) ?V \<and> evolves T ?V \<and> reserved_for (map fst acc) T ?V"
  proof (rule roll_back_inv [OF new(2)])
    fix r rv assume a: "(r, rv) \<in> set acc"
    then have n: "(r, rv) \<in> set new" "r \<in> set (og_rids g)" using new(1,5) by force+
    obtain s where s: "reqs T r = Some s" "rs_reservation s = rv" using bspec [OF new(6) n(1)] by auto
    have "ready T r" using reserved_ready [OF new(7)] g(1) n(2) by (simp add: group_ready_def)
    then show "\<exists>s. reqs T r = Some s \<and> rs_reservation s = rv \<and> is_candidate s" using s by (auto simp: ready_def)
  qed (use new in auto)
  then have V: "sched_inv pf {} ?V" "evolves T ?V" "touched (map fst acc) T ?V"
    using new(1) reserved_touched by simp_all
  have t: "touched (og_rids g) S ?V"
    by (rule touched_same [OF reserved_touched [OF new(7)] V(3)]) (use new(1,5) in \<open>auto simp: fold_unreserve_sel\<close>)
  note q = trace_all_quiet [of ?V m "og_rids g"]
  have "U = trace_all m (og_rids g) ?V" unfolding U_def roll_back_fold ..
  moreover have "touched (og_rids g) S (trace_all m (og_rids g) ?V)"
    by (rule touched_same [OF t conjunct2 [OF q]]) simp_all
  ultimately show ?thesis
    using quiet_inv [OF conjunct1 [OF q] V(1)] evolves_trans [OF new(3) V(2)] evolves_trans by blast
qed

lemma dispatch_one_inv:
  assumes inv: "sched_inv pf {} S" and g: "group_ready S g" "room (length (og_rids g)) S"
  shows "sched_inv pf {} (snd (dispatch_one now g (b, S))) \<and> evolves S (snd (dispatch_one now g (b, S))) \<and>
    touched (og_rids g) S (snd (dispatch_one now g (b, S)))"
proof (cases "eg_members (og_group g) = []")
  case False
  show ?thesis
  proof (cases "choose_worker (eg_backend (og_group g)) S")
    case None
    then show ?thesis
      using False trace_all_quiet [of S _ "og_rids g"] quiet_inv [OF _ inv] by (simp add: dispatch_one_def)
  next
    case (Some w)
    obtain good acc T where r: "reserve_all (og_rids g) [] S = (good, acc, T)" by (metis surj_pair)
    show ?thesis
    proof (cases good)
      case False
      then show ?thesis
        using \<open>eg_members (og_group g) \<noteq> []\<close> Some r dispatch_failed [OF inv g] by (simp add: dispatch_one_def)
    next
      case True
      obtain new where new: "acc = [] @ new" "sched_inv pf ({} \<union> fst ` set new) T" "evolves S T" "map fst new = og_rids g"
          "reserved_for (og_rids g) S T"
        using reserve_all_inv [OF r inv] g True by (auto simp: group_ready_def room_def)
      have x: "fst ` set new = set (og_rids g)" using new(4) by (metis list.set_map)
      have "sched_inv pf (set (og_rids g)) T" using new(2) x by simp
      moreover have "group_ready T g" using g(1) reserved_ready [OF new(5)] by (simp add: group_ready_def)
      moreover have "unat (sc_next_generation T) + length (og_rids g) < 2 ^ 64"
        using g(2) new(5) by (simp add: room_def reserved_for_def)
      ultimately have c: "sched_inv pf {} (snd (commit_group now w g (b, T)))" "evolves T (snd (commit_group now w g (b, T)))"
          "committed (og_rids g) T (snd (commit_group now w g (b, T)))"
        using commit_group_inv [of pf "set (og_rids g)" T g now w b] by simp_all
      moreover have "touched (og_rids g) S (snd (commit_group now w g (b, T)))"
        using c(3) new(5) by (simp add: touched_def committed_def reserved_for_def)
      moreover have "dispatch_one now g (b, S) = commit_group now w g (b, T)"
        using \<open>eg_members (og_group g) \<noteq> []\<close> Some r True by (simp add: dispatch_one_def)
      ultimately show ?thesis using evolves_trans [OF new(3)] by simp
    qed
  qed
qed (simp add: dispatch_one_def inv)

end
