(* ===== verification/PF_Formation.thy ===== *)
theory PF_Formation
  imports PF_Dispatch
begin

text \<open>
  Formation partitions the candidates into groups of one compatibility key, within the
  group limits, and the whole cycle preserves the scheduler invariant.
\<close>

subsection \<open>Open groups\<close>

text \<open>The member carries the identity, the attempt and the next chunk of its request.\<close>
definition member_of :: "Rs \<Rightarrow> RequestId \<Rightarrow> ExecutableMember \<Rightarrow> bool" where
  "member_of s r m \<longleftrightarrow> em_request_id m = r \<and> em_attempt_id m = rs_attempt s \<and>
     em_token_start m = ch_token_start (next_chunk s) \<and> em_token_count m = ch_token_count (next_chunk s)"

lemma member_of_for: "member_of s rid (member_for rid s idx)"
  by (simp add: member_of_def member_for_def Let_def)

text \<open>
  The state of an open group, for the request records \<open>f\<close> at the start of formation.  A single
  member may exceed the limits: the code checks them only when a chunk joins an existing group.
\<close>
definition og_ok :: "SchedulerConfig \<Rightarrow> (RequestId \<Rightarrow> Rs) \<Rightarrow> OpenGroup \<Rightarrow> bool" where
  "og_ok c f g \<longleftrightarrow>
     og_rids g \<noteq> [] \<and> list_all2 (\<lambda>r m. member_of (f r) r m) (og_rids g) (eg_members (og_group g)) \<and>
     eg_key (og_group g) = og_key g \<and> eg_backend (og_group g) = ck_backend (og_key g) \<and>
     (\<forall>r \<in> set (og_rids g). make_compat_key (rs_request (f r)) c = og_key g) \<and>
     og_total_tokens g = sum_list (map (\<lambda>r. ch_token_count (next_chunk (f r))) (og_rids g)) \<and>
     eg_total_token_count (og_group g) = og_total_tokens g \<and>
     length (og_rids g) < 2 ^ 32 \<and>
     (length (og_rids g) = 1 \<or>
        length (og_rids g) \<le> unat (cf_max_requests_per_group c) \<and> og_total_tokens g \<le> cf_max_tokens_per_group c \<and>
        og_total_compute g \<le> cf_max_compute_per_group c \<and> og_max_mem g \<le> cf_max_memory_per_group c)"

lemma og_ok_new: "og_ok c f (new_group gid (make_compat_key (rs_request (f rid)) c) rid (f rid))"
  by (simp add: og_ok_def new_group_def Let_def default_group_def member_of_for)

lemma og_ok_join:
  assumes g: "og_ok c f g" and k: "cd_compatible (compatible_with_group c g (next_chunk (f rid)) (make_compat_key (rs_request (f rid)) c))"
  shows "og_ok c f (join_group rid (f rid) g)"
proof -
  have len: "length (eg_members (og_group g)) = length (og_rids g)" "length (og_rids g) < 2 ^ 32"
    using g list_all2_lengthD by (fastforce simp: og_ok_def)+
  have c: "og_key g = make_compat_key (rs_request (f rid)) c" "group_size (og_group g) < cf_max_requests_per_group c"
      "og_total_tokens g + ch_token_count (next_chunk (f rid)) \<le> cf_max_tokens_per_group c"
      "og_total_compute g + ch_compute_estimate (next_chunk (f rid)) \<le> cf_max_compute_per_group c"
      "max (og_max_mem g) (ch_memory_estimate_bytes (next_chunk (f rid))) \<le> cf_max_memory_per_group c"
    using k by (simp_all add: compatible_with_group_def decision_def not_le not_less split: if_splits)
  have "unat (group_size (og_group g)) = length (og_rids g)"
    using len by (simp add: group_size_def unat_of_nat take_bit_nat_eq_self)
  then have "length (og_rids g) < unat (cf_max_requests_per_group c)" using c(2) by (simp add: word_less_nat_alt)
  moreover have "unat (cf_max_requests_per_group c) < 2 ^ 32" using unsigned_less [of "cf_max_requests_per_group c"] by simp
  ultimately have "Suc (length (og_rids g)) \<le> unat (cf_max_requests_per_group c) \<and> Suc (length (og_rids g)) < 2 ^ 32" by linarith
  then show ?thesis
    using g c by (simp add: og_ok_def join_group_def Let_def list_all2_appendI member_of_for)
qed

lemma og_rids_join [simp]: "og_rids (join_group rid s g) = og_rids g @ [rid]"
  by (simp add: join_group_def Let_def)

lemma place_some:
  assumes "place c rid s k gs = Some gs'"
  obtains as g bs where "gs = as @ g # bs" "gs' = as @ join_group rid s g # bs"
    "cd_compatible (compatible_with_group c g (next_chunk s) k)"
  using assms
proof (induction gs arbitrary: gs' thesis)
  case (Cons x gs)
  show ?case
  proof (cases "cd_compatible (compatible_with_group c x (next_chunk s) k)")
    case True
    then show ?thesis using Cons.prems(1) [of "[]" x gs] Cons.prems(2) by simp
  next
    case False
    then obtain gs1 where gs1: "place c rid s k gs = Some gs1" "gs' = x # gs1" using Cons.prems(2) by auto
    then obtain as g bs where "gs = as @ g # bs" "gs1 = as @ join_group rid s g # bs"
      "cd_compatible (compatible_with_group c g (next_chunk s) k)" using Cons.IH by blast
    then show ?thesis using Cons.prems(1) [of "x # as" g bs] gs1(2) by simp
  qed
qed simp

abbreviation placed :: "OpenGroup list \<Rightarrow> RequestId multiset" where
  "placed gs \<equiv> mset (concat (map og_rids gs))"

lemma form_one_step:
  assumes f: "the_rs S rid = f rid" "is_candidate (f rid)" and ok: "\<And>g. g \<in> set gs \<Longrightarrow> og_ok (sc_cfg S) f g"
  obtains gs' S' where "form_one rid (gs, S) = (gs', S')" "quiet S S'" "\<And>r. r \<noteq> rid \<Longrightarrow> reqs S' r = reqs S r"
    "\<And>g. g \<in> set gs' \<Longrightarrow> og_ok (sc_cfg S) f g" "placed gs' = add_mset rid (placed gs)"
proof (cases "place (sc_cfg S) rid (f rid) (make_compat_key (rs_request (f rid)) (sc_cfg S)) gs")
  case None
  let ?g = "new_group (StrongId (sc_next_group S)) (make_compat_key (rs_request (f rid)) (sc_cfg S)) rid (f rid)"
  show ?thesis
  proof (rule that)
    show "form_one rid (gs, S) = (gs @ [?g], S\<lparr>sc_next_group := sc_next_group S + 1\<rparr>)"
      using f None by (simp add: form_one_def Let_def alloc_group_def)
    show "quiet S (S\<lparr>sc_next_group := sc_next_group S + 1\<rparr>)" by (simp add: quiet_def the_tenant_def)
    show "placed (gs @ [?g]) = add_mset rid (placed gs)" by (simp add: new_group_def Let_def)
  qed (use ok og_ok_new in auto)
next
  case (Some gs')
  obtain as g bs where p: "gs = as @ g # bs" "gs' = as @ join_group rid (f rid) g # bs"
    "cd_compatible (compatible_with_group (sc_cfg S) g (next_chunk (f rid)) (make_compat_key (rs_request (f rid)) (sc_cfg S)))"
    using place_some [OF Some] by blast
  show ?thesis
  proof (rule that)
    show "form_one rid (gs, S) = (gs', upd_rs rid (add_trace ''packed into group (compatible)'') S)"
      using f Some by (simp add: form_one_def Let_def)
    show "quiet S (upd_rs rid (add_trace ''packed into group (compatible)'') S)" by (rule quiet_upd_rs) simp
    show "og_ok (sc_cfg S) f x" if "x \<in> set gs'" for x
      using that ok og_ok_join [where f = f and rid = rid, OF _ p(3)] unfolding p by auto
    show "placed gs' = add_mset rid (placed gs)" by (simp add: p)
  qed simp
qed

lemma form_fold:
  assumes "distinct cs" "\<And>r. r \<in> set cs \<Longrightarrow> the_rs S r = f r \<and> is_candidate (f r)"
    "\<And>g. g \<in> set gs \<Longrightarrow> og_ok (sc_cfg S) f g"
  shows "\<exists>gs' S'. fold form_one cs (gs, S) = (gs', S') \<and> quiet S S' \<and> (\<forall>g \<in> set gs'. og_ok (sc_cfg S) f g) \<and>
    placed gs' = placed gs + mset cs"
  using assms
proof (induction cs arbitrary: gs S)
  case (Cons rid cs)
  have f: "the_rs S rid = f rid" "is_candidate (f rid)" using Cons.prems(2) [of rid] by simp_all
  obtain gs1 S1 where s1: "form_one rid (gs, S) = (gs1, S1)" "quiet S S1" "\<And>r. r \<noteq> rid \<Longrightarrow> reqs S1 r = reqs S r"
    "\<And>g. g \<in> set gs1 \<Longrightarrow> og_ok (sc_cfg S) f g" "placed gs1 = add_mset rid (placed gs)"
    using form_one_step [OF f Cons.prems(3)] by blast
  have cfg: "sc_cfg S1 = sc_cfg S" using s1(2) by (simp add: quiet_def)
  have "\<exists>gs' S'. fold form_one cs (gs1, S1) = (gs', S') \<and> quiet S1 S' \<and> (\<forall>g \<in> set gs'. og_ok (sc_cfg S1) f g) \<and>
      placed gs' = placed gs1 + mset cs"
  proof (rule Cons.IH)
    fix r assume r: "r \<in> set cs"
    then have "r \<noteq> rid" using Cons.prems(1) by auto
    then have "reqs S1 r = reqs S r" by (rule s1(3))
    then show "the_rs S1 r = f r \<and> is_candidate (f r)"
      using Cons.prems(2) [of r] r by (simp add: the_rs_def lookup_default_def)
  qed (use Cons.prems(1) s1(4) cfg in auto)
  then obtain gs2 S2 where s2: "fold form_one cs (gs1, S1) = (gs2, S2)" "quiet S1 S2"
      "\<forall>g \<in> set gs2. og_ok (sc_cfg S) f g" "placed gs2 = placed gs1 + mset cs" unfolding cfg by blast
  have "fold form_one (rid # cs) (gs, S) = (gs2, S2)" by (simp add: s1(1) s2(1))
  moreover have "placed gs2 = placed gs + mset (rid # cs)" by (simp add: s2(4) s1(5))
  ultimately show ?case using quiet_trans [OF s1(2) s2(2)] s2(3) by blast
qed simp

subsection \<open>The groups of a cycle\<close>

lemma dispatch_fold_inv:
  assumes "sched_inv pf {} S" "distinct (concat (map og_rids gs))" "\<And>r. r \<in> set (concat (map og_rids gs)) \<Longrightarrow> ready S r"
    "room (length (concat (map og_rids gs))) S"
  shows "sched_inv pf {} (snd (fold (dispatch_one now) gs (b, S))) \<and> evolves S (snd (fold (dispatch_one now) gs (b, S))) \<and>
    touched (concat (map og_rids gs)) S (snd (fold (dispatch_one now) gs (b, S)))"
  using assms
proof (induction gs arbitrary: b S)
  case (Cons g gs)
  obtain b1 S1 where s1: "dispatch_one now g (b, S) = (b1, S1)" by fastforce
  have gr: "group_ready S g" "room (length (og_rids g)) S" using Cons.prems(2-4) by (auto simp: group_ready_def room_def)
  have d: "sched_inv pf {} S1" "evolves S S1" "touched (og_rids g) S S1"
    using dispatch_one_inv [OF Cons.prems(1) gr, of now b] s1 by simp_all
  have "sched_inv pf {} (snd (fold (dispatch_one now) gs (b1, S1))) \<and> evolves S1 (snd (fold (dispatch_one now) gs (b1, S1))) \<and>
    touched (concat (map og_rids gs)) S1 (snd (fold (dispatch_one now) gs (b1, S1)))"
  proof (rule Cons.IH [OF d(1)])
    fix r assume r: "r \<in> set (concat (map og_rids gs))"
    then have "r \<notin> set (og_rids g)" using Cons.prems(2) by auto
    then have "reqs S1 r = reqs S r" using d(3) by (simp add: touched_def)
    moreover have "ready S r" using Cons.prems(3) [of r] r by simp
    ultimately show "ready S1 r" by (simp add: ready_def)
  next
    show "room (length (concat (map og_rids gs))) S1" using Cons.prems(4) d(3) by (simp add: room_def touched_def)
  qed (use Cons.prems(2) in simp)
  then show ?case using evolves_trans [OF d(2)] touched_trans [OF d(3)] s1 by simp
qed simp

lemma touch_tenants_quiet: "quiet S (touch_tenants cs S)"
proof -
  have "quiet S (fold (\<lambda>r S. upd_tenant (tenant_id (rs_request (the_rs S r))) (\<lambda>t. t) S) cs S)"
  proof (induction cs arbitrary: S)
    case (Cons r cs)
    have "quiet S (upd_tenant (tenant_id (rs_request (the_rs S r))) (\<lambda>t. t) S)" by (simp add: quiet_def)
    from quiet_trans [OF this Cons.IH] show ?case by simp
  qed simp
  then show ?thesis by (simp add: touch_tenants_def)
qed

lemma touch_tenants_reqs [simp]: "sc_requests (touch_tenants cs S) = sc_requests S"
proof -
  have "sc_requests (fold (\<lambda>r S. upd_tenant (tenant_id (rs_request (the_rs S r))) (\<lambda>t. t) S) cs S) = sc_requests S"
    by (induction cs arbitrary: S) simp_all
  then show ?thesis by (simp add: touch_tenants_def)
qed

lemma age_waiting_reqs:
  "reqs (age_waiting S) r = map_option (\<lambda>s. if is_waiting s then s\<lparr>rs_aging_cycles := rs_aging_cycles s + 1\<rparr> else s) (reqs S r)"
  by (simp add: age_waiting_def map_of_map [unfolded o_def])

lemma age_waiting_quiet: "quiet S (refresh_gauges (age_waiting S))"
proof -
  have "map fst (map (\<lambda>(k, s). (k, h s)) m) = map fst m" for h :: "Rs \<Rightarrow> Rs" and m :: "(RequestId \<times> Rs) list"
    by (induction m) auto
  then have k: "keys (sc_requests (age_waiting S)) = keys (sc_requests S)" by (simp add: age_waiting_def)
  have "map_option core (reqs (age_waiting S) r) = map_option core (reqs S r)" for r
    by (cases "reqs S r") (simp_all add: age_waiting_reqs core_def)
  then show ?thesis
    using k by (simp add: quiet_def refresh_gauges_def stat_of_def) (simp add: age_waiting_def the_tenant_def)
qed

lemma in_candidates: "distinct (keys (sc_requests S)) \<Longrightarrow> r \<in> set (candidates S) \<longleftrightarrow> ready S r"
  by (auto simp: candidates_def ready_def map_of_eq_Some_iff image_iff)

lemma distinct_candidates: "distinct (keys (sc_requests S)) \<Longrightarrow> distinct (candidates S)"
  by (simp add: candidates_def distinct_map_filter)

lemma length_candidates: "length (candidates S) \<le> length (sc_requests S)"
  by (simp add: candidates_def)

lemma sweep_one_sel [simp]:
  "sc_next_reservation (sweep_one now r S) = sc_next_reservation S" "sc_next_generation (sweep_one now r S) = sc_next_generation S"
  "keys (sc_requests (sweep_one now r S)) = keys (sc_requests S)" "sc_cfg (sweep_one now r S) = sc_cfg S"
  by (simp_all add: sweep_one_def expire_request_def Let_def del: map_map)

lemma sweep_sel [simp]:
  "sc_next_reservation (sweep now S) = sc_next_reservation S" "sc_next_generation (sweep now S) = sc_next_generation S"
  "keys (sc_requests (sweep now S)) = keys (sc_requests S)" "sc_cfg (sweep now S) = sc_cfg S"
proof -
  have "sc_next_reservation (fold (sweep_one now) rs S) = sc_next_reservation S \<and>
    sc_next_generation (fold (sweep_one now) rs S) = sc_next_generation S \<and>
    keys (sc_requests (fold (sweep_one now) rs S)) = keys (sc_requests S) \<and> sc_cfg (fold (sweep_one now) rs S) = sc_cfg S" for rs
    by (induction rs arbitrary: S) simp_all
  then show "sc_next_reservation (sweep now S) = sc_next_reservation S" "sc_next_generation (sweep now S) = sc_next_generation S"
    "keys (sc_requests (sweep now S)) = keys (sc_requests S)" "sc_cfg (sweep now S) = sc_cfg S"
    by (simp_all only: sweep_def)
qed

text \<open>The stages of a cycle: the swept state, the groups, the state and the batch they are dispatched to.\<close>
lemma run_cycle_stages:
  assumes inv: "sched_inv pf {} S"
  obtains U opn W where "U = sweep (clock_now S) (tick S)" "sched_inv pf {} U" "evolves S U" "quiet U W"
    "\<forall>g \<in> set opn. og_ok (sc_cfg U) (the_rs U) g" "placed opn = mset (candidates U)"
    "\<And>r. r \<in> set (concat (map og_rids opn)) \<Longrightarrow> ready W r"
    "distinct (concat (map og_rids opn))" "length (concat (map og_rids opn)) \<le> length (sc_requests S)"
    "run_cycle S = (res_ok (fst (dispatch_groups (clock_now S) opn W)),
       refresh_gauges (age_waiting (snd (dispatch_groups (clock_now S) opn W))))"
proof -
  let ?now = "clock_now S" and ?U = "sweep (clock_now S) (tick S)"
  let ?V = "touch_tenants (candidates ?U) ?U" and ?cs = "sort_by (sorter ?now ?U) (candidates ?U)"
  have qt: "quiet S (tick S)" by (simp add: quiet_def)
  note sw = sweep_inv [OF sched_inv_quiet [OF qt inv], of ?now]
  have dk: "distinct (keys (sc_requests ?U))" using sched_invD(6) [OF sw(1)] .
  have v: "the_rs ?V = the_rs ?U" by (rule the_rs_cong) simp
  have cfgV: "sc_cfg ?V = sc_cfg ?U" using touch_tenants_quiet [of ?U "candidates ?U"] by (simp add: quiet_def)
  have "\<exists>gs' S'. fold form_one ?cs ([], ?V) = (gs', S') \<and> quiet ?V S' \<and> (\<forall>g \<in> set gs'. og_ok (sc_cfg ?V) (the_rs ?U) g) \<and>
      placed gs' = placed [] + mset ?cs"
  proof (rule form_fold)
    fix r assume "r \<in> set ?cs"
    then have "ready ?U r" using in_candidates [OF dk] by simp
    then show "the_rs ?V r = the_rs ?U r \<and> is_candidate (the_rs ?U r)" by (auto simp: v ready_def the_rs_eq)
  qed (simp_all add: distinct_candidates [OF dk])
  then obtain opn W where w: "form_groups ?cs ?V = (opn, W)" "quiet ?V W" "\<forall>g \<in> set opn. og_ok (sc_cfg ?U) (the_rs ?U) g"
      "placed opn = mset (candidates ?U)" unfolding form_groups_def cfgV by auto
  have qW: "quiet ?U W" by (rule quiet_trans [OF touch_tenants_quiet w(2)])
  have len: "length (concat (map og_rids opn)) = length (candidates ?U)" using w(4) by (metis size_mset)
  show ?thesis
  proof (rule that [OF refl sw(1) _ qW w(3,4)])
    show "evolves S ?U" by (rule evolves_trans [OF quiet_evolves [OF qt] sw(2)])
    show "distinct (concat (map og_rids opn))"
      using w(4) distinct_candidates [OF dk] mset_eq_imp_distinct_iff by blast
    have "keys (sc_requests ?U) = keys (sc_requests S)" by simp
    then have "length (sc_requests ?U) = length (sc_requests S)" by (metis length_map)
    then show "length (concat (map og_rids opn)) \<le> length (sc_requests S)" using len length_candidates [of ?U] by simp
    fix r assume "r \<in> set (concat (map og_rids opn))"
    then have "ready ?U r" using w(4) in_candidates [OF dk] by (metis set_mset_mset)
    then obtain s where s: "reqs ?U r = Some s" "is_candidate s" by (auto simp: ready_def)
    obtain s' where "reqs W r = Some s'" "core s' = core s" using quiet_reqs_back [OF qW s(1)] by blast
    then show "ready W r"
      using s(2) core_eqD [of s' s] by (auto simp: ready_def is_candidate_def has_pending_chunk_def)
  next
    show "run_cycle S = (res_ok (fst (dispatch_groups ?now opn W)), refresh_gauges (age_waiting (snd (dispatch_groups ?now opn W))))"
      by (simp add: run_cycle_def Let_def w(1) split: prod.split)
  qed
qed

lemma run_cycle_inv:
  assumes inv: "sched_inv pf {} S" and r: "room (length (sc_requests S)) S"
  shows "sched_inv pf {} (snd (run_cycle S))" "evolves S (snd (run_cycle S))"
proof -
  obtain U opn W where st: "U = sweep (clock_now S) (tick S)" "sched_inv pf {} U" "evolves S U" "quiet U W"
    "\<forall>g \<in> set opn. og_ok (sc_cfg U) (the_rs U) g" "placed opn = mset (candidates U)"
    "\<And>r. r \<in> set (concat (map og_rids opn)) \<Longrightarrow> ready W r"
    "distinct (concat (map og_rids opn))" "length (concat (map og_rids opn)) \<le> length (sc_requests S)"
    "run_cycle S = (res_ok (fst (dispatch_groups (clock_now S) opn W)),
       refresh_gauges (age_waiting (snd (dispatch_groups (clock_now S) opn W))))"
    by (rule run_cycle_stages [OF inv]) (rule that; assumption)
  have "room (length (concat (map og_rids opn))) W" using r st(4,9) unfolding st(1) by (simp add: room_def quiet_def)
  then have d: "sched_inv pf {} (snd (dispatch_groups (clock_now S) opn W))" "evolves W (snd (dispatch_groups (clock_now S) opn W))"
    using dispatch_fold_inv [OF sched_inv_quiet [OF st(4,2)] st(8,7)] by (simp_all add: dispatch_groups_def)
  let ?D = "snd (dispatch_groups (clock_now S) opn W)"
  note a = quiet_inv [OF age_waiting_quiet d(1)]
  show "sched_inv pf {} (snd (run_cycle S))" using a by (simp add: st(10))
  have "evolves S ?D" by (rule evolves_trans [OF st(3) evolves_trans [OF quiet_evolves [OF st(4)] d(2)]])
  from evolves_trans [OF this conjunct2 [OF a]] show "evolves S (snd (run_cycle S))" by (simp add: st(10))
qed

text \<open>A cycle keeps the set of requests and takes at most one identity of each kind per request.\<close>
lemma run_cycle_alloc:
  assumes inv: "sched_inv pf {} S" and r: "room (length (sc_requests S)) S"
  shows "keys (sc_requests (snd (run_cycle S))) = keys (sc_requests S)"
    "unat (sc_next_reservation (snd (run_cycle S))) \<le> unat (sc_next_reservation S) + length (sc_requests S)"
    "unat (sc_next_generation (snd (run_cycle S))) \<le> unat (sc_next_generation S) + length (sc_requests S)"
proof -
  obtain U opn W where st: "U = sweep (clock_now S) (tick S)" "sched_inv pf {} U" "evolves S U" "quiet U W"
    "\<forall>g \<in> set opn. og_ok (sc_cfg U) (the_rs U) g" "placed opn = mset (candidates U)"
    "\<And>r. r \<in> set (concat (map og_rids opn)) \<Longrightarrow> ready W r"
    "distinct (concat (map og_rids opn))" "length (concat (map og_rids opn)) \<le> length (sc_requests S)"
    "run_cycle S = (res_ok (fst (dispatch_groups (clock_now S) opn W)),
       refresh_gauges (age_waiting (snd (dispatch_groups (clock_now S) opn W))))"
    by (rule run_cycle_stages [OF inv]) (rule that; assumption)
  let ?D = "snd (dispatch_groups (clock_now S) opn W)"
  have rm: "room (length (concat (map og_rids opn))) W" using r st(4,9) unfolding st(1) by (simp add: room_def quiet_def)
  have t: "touched (concat (map og_rids opn)) W ?D"
    using dispatch_fold_inv [OF sched_inv_quiet [OF st(4,2)] st(8,7) rm] by (simp add: dispatch_groups_def)
  have q: "quiet ?D (snd (run_cycle S))" unfolding st(10) by (simp add: age_waiting_quiet)
  have "keys (sc_requests U) = keys (sc_requests S)" "sc_next_reservation U = sc_next_reservation S"
    "sc_next_generation U = sc_next_generation S" unfolding st(1) by simp_all
  then show "keys (sc_requests (snd (run_cycle S))) = keys (sc_requests S)"
    "unat (sc_next_reservation (snd (run_cycle S))) \<le> unat (sc_next_reservation S) + length (sc_requests S)"
    "unat (sc_next_generation (snd (run_cycle S))) \<le> unat (sc_next_generation S) + length (sc_requests S)"
    using t q st(4,9) by (simp_all add: touched_def quiet_def)
qed

end
