(* ===== verification/PF_Reach.thy ===== *)
theory PF_Reach
  imports PF_Formation
begin

text \<open>
  Executions of the scheduler: one rule per public operation, the reachable states, and the
  invariant and the evolution of requests along an execution.
\<close>

subsection \<open>Steps\<close>

text \<open>
  Every public operation that changes the state.  A submitted plan has fewer than \<open>2 ^ 32\<close>
  chunks, the range of the code's chunk index; a cycle finds enough unused values in its 64-bit
  identity counters.  \<open>call\<close> is a call of an executor by the in-process driver.
\<close>
inductive sched_step :: "platform \<Rightarrow> Impl \<Rightarrow> Impl \<Rightarrow> bool" for pf where
  submitted: "plan_fits pf (sc_cfg S) req \<Longrightarrow> sched_step pf S (snd (submit_with_tokens pf req toks S))"
| cycled: "room (length (sc_requests S)) S \<Longrightarrow> sched_step pf S (snd (run_cycle S))"
| reported: "sched_step pf S (snd (report_completion pf r S))"
| cancelled: "sched_step pf S (snd (cancel rid S))"
| generation_cancelled: "sched_step pf S (snd (cancel_generation rid g S))"
| retried: "sched_step pf S (snd (force_retry pf rid S))"
| registered: "sched_step pf S (snd (register_worker w S))"
| unregistered: "sched_step pf S (snd (unregister_worker wid S))"
| lost: "sched_step pf S (snd (worker_lost wid S))"
| rolled: "sched_step pf S (snd (roll_epoch S))"
| attached: "sched_step pf S (attach_executor ex b S)"
| called: "sched_step pf S (S\<lparr>sc_exec_calls := Suc (sc_exec_calls S)\<rparr>)"

inductive run :: "platform \<Rightarrow> Impl \<Rightarrow> Impl \<Rightarrow> bool" for pf where
  run_refl: "run pf S S"
| run_step: "run pf S T \<Longrightarrow> sched_step pf T U \<Longrightarrow> run pf S U"

inductive_cases run_stepE: "run pf S U"

definition reachable :: "platform \<Rightarrow> Impl \<Rightarrow> bool" where
  "reachable pf S \<longleftrightarrow> (\<exists>c cl. run pf (mk_scheduler pf c cl) S)"

lemma step_run: "sched_step pf S T \<Longrightarrow> run pf S T"
  by (rule run_step [OF run_refl])

lemma run_trans: "run pf T U \<Longrightarrow> run pf S T \<Longrightarrow> run pf S U"
  by (induction rule: run.induct) (auto intro: run_step)

lemma step_inv:
  assumes "sched_step pf S T" "sched_inv pf {} S"
  shows "sched_inv pf {} T \<and> evolves S T"
  using assms(1)
proof (cases rule: sched_step.cases)
  case submitted
  then show ?thesis using submit_with_tokens_inv [OF assms(2)] by simp
next
  case cycled
  then show ?thesis using run_cycle_inv [OF assms(2)] by simp
next
  case reported
  then show ?thesis using report_completion_inv [OF assms(2)] by simp
next
  case cancelled
  then show ?thesis using cancel_inv [OF assms(2)] by simp
next
  case retried
  then show ?thesis using force_retry_inv [OF assms(2)] by simp
next
  case lost
  then show ?thesis using worker_lost_inv [OF assms(2)] by simp
qed (use quiet_inv [OF _ assms(2)] cancel_generation_quiet register_worker_quiet unregister_worker_quiet roll_epoch_quiet
      attach_executor_quiet in simp_all)

lemma run_inv: "run pf S T \<Longrightarrow> sched_inv pf {} S \<Longrightarrow> sched_inv pf {} T \<and> evolves S T"
proof (induction rule: run.induct)
  case (run_step S T U)
  then show ?case using step_inv evolves_trans by blast
qed simp

lemma init_inv: "sched_inv pf {} (mk_scheduler pf c cl)"
proof -
  have "table_ok pf (mk_scheduler pf c cl)" by (simp add: table_ok_def mk_scheduler_def)
  moreover have "mem_ok {} (mk_scheduler pf c cl)"
    by (rule mem_okI) (simp_all add: mk_scheduler_def gov_inv_mk, simp_all add: ledger_def mk_governor_def)
  moreover have "tenants_ok (mk_scheduler pf c cl)"
    by (simp add: tenants_ok_def live_count_def the_tenant_def mk_scheduler_def default_tenant_def lookup_default_def)
  moreover have "counters_ok (mk_scheduler pf c cl)"
    by (simp add: counters_ok_def lc_count_def mk_scheduler_def zero_stats_def stat_of_def)
  moreover have "gens_ok (mk_scheduler pf c cl)" by (simp add: gens_ok_def mk_scheduler_def)
  ultimately show ?thesis by (simp add: sched_inv_def)
qed

lemma reachable_inv: "reachable pf S \<Longrightarrow> sched_inv pf {} S"
  using run_inv init_inv by (auto simp: reachable_def)

lemma reachable_init: "reachable pf (mk_scheduler pf c cl)"
  unfolding reachable_def by (blast intro: run_refl)

lemma reachable_step: "reachable pf S \<Longrightarrow> sched_step pf S T \<Longrightarrow> reachable pf T"
  unfolding reachable_def by (blast intro: run_step)

lemma reachable_run: "reachable pf S \<Longrightarrow> run pf S T \<Longrightarrow> reachable pf T"
  unfolding reachable_def by (blast intro: run_trans)

end
