(* ===== verification/PF_Demo.thy ===== *)
theory PF_Demo
  imports PF_Reach
begin

text \<open>
  A short execution used to instantiate the properties: one request of four tokens is
  submitted, dispatched to the local worker and completed.
\<close>

subsection \<open>A cycle with one waiting request\<close>

lemma lone_cycle:
  assumes tab: "sc_requests S = [(rid, s)]" and c: "is_candidate s" "deadline (rs_request s) = None" "max_queue_delay (rs_request s) = None"
    and w: "choose_worker (ck_backend (make_compat_key (rs_request s) (sc_cfg S))) S = Some w"
    and m: "ch_memory_estimate_bytes (next_chunk s) = 0" "\<not> is_active (StrongId (sc_next_reservation S)) (sc_mem S)"
  shows "sc_requests (snd (run_cycle S)) = [(rid, dispatched_rs (clock_now S) (StrongId (sc_next_group S)) w (StrongId (sc_next_generation S))
     (s\<lparr>rs_reservation := StrongId (sc_next_reservation S), rs_reserved_bytes := 0\<rparr>))]" "sc_epoch (snd (run_cycle S)) = sc_epoch S"
    "\<exists>b dg. run_cycle S = (res_ok b, snd (run_cycle S)) \<and> dg \<in> set (db_groups b)"
proof -
  let ?now = "clock_now S" and ?T = "tick S"
  have lc: "rs_lifecycle s = LC_queued" "\<not> rs_in_flight s" using c(1) by (simp_all add: is_candidate_def)
  have the: "the_rs S rid = s" by (simp add: the_rs_def lookup_default_def tab)
  have U: "sweep ?now ?T = ?T"
    using c lc by (simp add: sweep_def tab sweep_one_def the Let_def past_deadline_def waited_too_long_def is_terminal_lifecycle_def)
  have cs: "candidates ?T = [rid]" using c(1) by (simp add: candidates_def tab)
  let ?g = "new_group (StrongId (sc_next_group S)) (make_compat_key (rs_request s) (sc_cfg S)) rid s"
  let ?W = "?T\<lparr>sc_next_group := sc_next_group S + 1\<rparr>"
  have F: "form_groups [rid] ?T = ([?g], ?W)"
    using c(1) by (simp add: form_groups_def form_one_def the Let_def alloc_group_def)
  have theW: "the_rs ?W rid = s" "the_rs (?W\<lparr>sc_next_reservation := n\<rparr>) rid = s" for n by (simp_all add: the_rs_def lookup_default_def tab)
  have cw: "choose_worker (eg_backend (og_group ?g)) ?W = Some w"
    using w by (simp add: choose_worker_def new_group_def Let_def)
  have mem: "eg_members (og_group ?g) \<noteq> []" "og_rids ?g = [rid]" by (simp_all add: new_group_def Let_def)
  let ?X = "upd_rs rid (\<lambda>s. s\<lparr>rs_reservation := StrongId (sc_next_reservation S), rs_reserved_bytes := 0\<rparr>)
      (?W\<lparr>sc_next_reservation := sc_next_reservation S + 1, sc_mem := snd (reserve (StrongId (sc_next_reservation S)) rid 0 RK_reserved (sc_mem S))\<rparr>)"
  have R: "reserve_all [rid] [] ?W = (True, [(rid, StrongId (sc_next_reservation S))], ?X)"
    using m by (simp add: Let_def alloc_reservation_def theW reserve_def res_ok_def)
  obtain b Y where Y: "commit_group ?now w ?g (empty_batch, ?X) = (b, Y)" by fastforce
  have "snd (commit_group ?now w ?g (empty_batch, ?X)) = Y" by (simp add: Y)
  then have y: "sc_requests Y = [(rid, dispatched_rs (clock_now S) (StrongId (sc_next_group S)) w (StrongId (sc_next_generation S))
     (s\<lparr>rs_reservation := StrongId (sc_next_reservation S), rs_reserved_bytes := 0\<rparr>))]" "sc_epoch Y = sc_epoch S"
    by (auto simp: commit_group_def mem(2) Let_def alloc_generation_def upd_rs_def modify_def tab new_group_def default_group_def)
  have "fst (commit_group ?now w ?g (empty_batch, ?X)) = b" by (simp add: Y)
  then have ne: "db_groups b \<noteq> []" by (auto simp: commit_group_def Let_def split: prod.splits)
  have "dispatch_groups ?now [?g] ?W = (b, Y)" using mem by (simp add: dispatch_groups_def dispatch_one_def cw R Y del: reserve_all.simps)
  then have r: "run_cycle S = (res_ok b, refresh_gauges (age_waiting Y))"
    by (simp add: run_cycle_def Let_def U cs touch_tenants_def F)
  show "sc_requests (snd (run_cycle S)) = [(rid, dispatched_rs (clock_now S) (StrongId (sc_next_group S)) w (StrongId (sc_next_generation S))
     (s\<lparr>rs_reservation := StrongId (sc_next_reservation S), rs_reserved_bytes := 0\<rparr>))]" "sc_epoch (snd (run_cycle S)) = sc_epoch S"
    by (simp_all add: r refresh_gauges_def age_waiting_def y is_waiting_def)
  show "\<exists>b dg. run_cycle S = (res_ok b, snd (run_cycle S)) \<and> dg \<in> set (db_groups b)"
    unfolding r using ne by (cases "db_groups b") (auto intro!: exI [of _ b])
qed
subsection \<open>The execution\<close>

definition demo_request :: PrefillRequest where
  "demo_request = default_request\<lparr>request_id := StrongId 7, tenant_id := StrongId 3, prompt_token_count := 4\<rparr>"

definition demo_start :: Impl where
  "demo_start = mk_scheduler sample_platform sample_config (\<lambda>_. 5)"

definition demo_queued :: Impl where
  "demo_queued = snd (submit_with_tokens sample_platform demo_request [1, 2, 3, 4] demo_start)"

definition demo_running :: Impl where
  "demo_running = snd (run_cycle demo_queued)"

definition demo_result :: MemberResult where
  "demo_result = default_member_result\<lparr>mr_request_id := StrongId 7, mr_attempt_id := StrongId 1,
     mr_generation := StrongId 1, mr_epoch := StrongId 1\<rparr>"

definition demo_done :: Impl where
  "demo_done = snd (report_completion sample_platform demo_result demo_running)"

lemma demo_valid: "err_code (validate_request demo_request) = EC_ok"
  by (simp add: validate_request_def demo_request_def default_request_def nil_id_def mk_error_def)

lemma demo_remaining: "remaining_prefill_tokens demo_request = 4"
  by (simp add: demo_request_def remaining_prefill_tokens_def default_request_def)

lemma demo_chunk:
  "effective_chunk_token_count sample_platform sample_config demo_request = 4"
  "chunk_count sample_platform sample_config demo_request = 1"
proof -
  show e: "effective_chunk_token_count sample_platform sample_config demo_request = 4"
    by (simp add: effective_chunk_token_count_def demo_remaining bound_chunk_def Let_def)
      (simp add: demo_request_def default_request_def sample_config_def)
  show "chunk_count sample_platform sample_config demo_request = 1"
    by (simp add: chunk_count_def e demo_remaining)
qed

lemma demo_submit:
  "submit_with_tokens sample_platform demo_request [1, 2, 3, 4] demo_start =
     (res_ok (), admit sample_platform demo_request
        (upd_tenant (StrongId 3) (\<lambda>ts. if f64_eq (ts_weight ts) f64_zero then ts\<lparr>ts_weight := tenant_weight demo_request\<rparr> else ts)
           (demo_start\<lparr>sc_tokens := [(StrongId 7, [1, 2, 3, 4])]\<rparr>)))"
proof -
  have "register_request demo_request [1, 2, 3, 4] [] = (res_ok (), [(StrongId 7, [1, 2, 3, 4])])"
    by (simp add: register_request_def demo_request_def default_request_def)
  then show ?thesis
    using demo_valid demo_remaining
    by (simp add: submit_with_tokens_def Let_def demo_start_def mk_scheduler_def sample_config_def default_config_def res_ok_def)
      (simp add: demo_request_def the_tenant_def upd_tenant_def modify_default_def lookup_default_def default_tenant_def
        f64_one_not_zero)
qed

definition demo_rs :: Rs where
  "demo_rs = admitted_rs sample_platform sample_config demo_request (StrongId 1) 5 default_rs"

lemma demo_queued_state:
  "sc_requests demo_queued = [(StrongId 7, demo_rs)]" "sc_epoch demo_queued = StrongId 1"
  "sc_next_generation demo_queued = 1" "sc_next_reservation demo_queued = 1" "sc_cfg demo_queued = sample_config"
  "sc_workers demo_queued = [(StrongId 0, \<lparr>ws_desc = local_worker, ws_busy_units = 0, ws_local_exec = None\<rparr>)]"
  "sc_mem demo_queued = mk_governor (usable_memory_bytes sample_platform sample_config) (cf_memory_headroom_bytes sample_config)"
  unfolding demo_queued_def demo_submit demo_rs_def
  by (simp_all add: admit_def Let_def alloc_attempt_def demo_remaining demo_start_def mk_scheduler_def)
    (simp add: demo_request_def the_rs_def lookup_default_def clock_now_def)

lemma demo_candidate: "is_candidate demo_rs" "ch_memory_estimate_bytes (next_chunk demo_rs) = 0"
proof -
  let ?cs = "pl_chunks (plan sample_platform sample_config demo_request (StrongId 1) (StrongId 0))"
  have r: "remaining_prefill_tokens demo_request \<noteq> 0" by (simp add: demo_remaining)
  have c: "?cs = [chunk_at sample_platform sample_config demo_request (StrongId 1) (StrongId 0) 0]"
    using plan_closed [OF r] by (simp add: demo_chunk)
  have s: "rs_plan demo_rs = plan sample_platform sample_config demo_request (StrongId 1) (StrongId 0)"
      "rs_next_chunk_index demo_rs = 0" "rs_lifecycle demo_rs = LC_queued" "\<not> rs_in_flight demo_rs"
    by (simp_all add: demo_rs_def admitted_rs_def default_rs_def)
  show "is_candidate demo_rs" by (simp add: is_candidate_def has_pending_chunk_def s c)
  have "memory_estimate_bytes demo_request = 0" by (simp add: demo_request_def default_request_def)
  then show "ch_memory_estimate_bytes (next_chunk demo_rs) = 0"
    by (simp add: next_chunk_def s c chunk_at_def mk_chunk_def proportional_def Let_def)
qed

lemma demo_running_state:
  "\<exists>g w. sc_requests demo_running = [(StrongId 7, dispatched_rs 5 g w (StrongId 1)
      (demo_rs\<lparr>rs_reservation := StrongId 1, rs_reserved_bytes := 0\<rparr>))]"
  "sc_epoch demo_running = StrongId 1"
  "\<exists>b dg. run_cycle demo_queued = (res_ok b, demo_running) \<and> dg \<in> set (db_groups b)"
  "rs_dispatched_worker (the_rs demo_running (StrongId 7)) = StrongId 0"
proof -
  have rq: "rs_request demo_rs = demo_request" by (simp add: demo_rs_def admitted_rs_def)
  have d: "deadline (rs_request demo_rs) = None" "max_queue_delay (rs_request demo_rs) = None"
    unfolding rq by (simp_all add: demo_request_def default_request_def)
  have w: "choose_worker (ck_backend (make_compat_key (rs_request demo_rs) (sc_cfg demo_queued))) demo_queued = Some (StrongId 0)"
    unfolding rq by (simp add: choose_worker_def demo_queued_state worker_eligible_def local_worker_def default_worker_def
        make_compat_key_def demo_request_def default_request_def Let_def)
  have m: "\<not> is_active (StrongId (sc_next_reservation demo_queued)) (sc_mem demo_queued)"
    by (simp add: demo_queued_state is_active_def mk_governor_def)
  have cl: "clock_now demo_queued = 5"
    unfolding demo_queued_def demo_submit
    by (simp add: clock_now_def admit_def Let_def alloc_attempt_def demo_remaining demo_start_def mk_scheduler_def log_now_def log_at_def
        tick_def upd_rs_def upd_stats_def upd_tenant_def)
  note l = lone_cycle [OF demo_queued_state(1) demo_candidate(1) d w demo_candidate(2) m]
  show "\<exists>g w. sc_requests demo_running = [(StrongId 7, dispatched_rs 5 g w (StrongId 1)
      (demo_rs\<lparr>rs_reservation := StrongId 1, rs_reserved_bytes := 0\<rparr>))]"
    using l(1) by (auto simp: demo_running_def demo_queued_state cl)
  show "sc_epoch demo_running = StrongId 1" using l(2) by (simp add: demo_running_def demo_queued_state)
  show "\<exists>b dg. run_cycle demo_queued = (res_ok b, demo_running) \<and> dg \<in> set (db_groups b)"
    using l(3) unfolding demo_running_def .
  show "rs_dispatched_worker (the_rs demo_running (StrongId 7)) = StrongId 0"
    using l(1) by (simp add: demo_running_def the_rs_def lookup_default_def)
qed

lemma demo_accepted: "is_ok (fst (report_completion sample_platform demo_result demo_running))"
proof -
  obtain g w where r: "sc_requests demo_running = [(StrongId 7, dispatched_rs 5 g w (StrongId 1)
      (demo_rs\<lparr>rs_reservation := StrongId 1, rs_reserved_bytes := 0\<rparr>))]" using demo_running_state(1) by blast
  have "rs_attempt demo_rs = StrongId 1" by (simp add: demo_rs_def admitted_rs_def)
  then have "completion_error demo_result demo_running = None"
    using r demo_running_state(2)
    by (simp add: completion_error_def demo_result_def default_member_result_def nil_id_def is_terminal_lifecycle_def)
  then show ?thesis by (simp add: report_completion_def)
qed

lemma demo_reachable:
  "reachable sample_platform demo_start" "reachable sample_platform demo_queued"
  "reachable sample_platform demo_running" "reachable sample_platform demo_done"
proof -
  show a: "reachable sample_platform demo_start" unfolding demo_start_def by (rule reachable_init)
  have "plan_fits sample_platform (sc_cfg demo_start) demo_request"
    by (simp add: plan_fits_def demo_start_def mk_scheduler_def demo_chunk)
  from reachable_step [OF a submitted [OF this]] show b: "reachable sample_platform demo_queued" unfolding demo_queued_def .
  have "room (length (sc_requests demo_queued)) demo_queued" by (simp add: room_def demo_queued_state)
  from reachable_step [OF b cycled [OF this]] show c: "reachable sample_platform demo_running" unfolding demo_running_def .
  show "reachable sample_platform demo_done" unfolding demo_done_def by (rule reachable_step [OF c reported])
qed

lemma demo_plan: "length (pl_chunks (rs_plan demo_rs)) = 1"
  using demo_remaining by (simp add: demo_rs_def admitted_rs_def length_plan demo_chunk)

lemma demo_done_state: "\<exists>s. reqs demo_done (StrongId 7) = Some s \<and> rs_lifecycle s = LC_completed"
proof -
  obtain g w where r: "sc_requests demo_running = [(StrongId 7, dispatched_rs 5 g w (StrongId 1)
      (demo_rs\<lparr>rs_reservation := StrongId 1, rs_reserved_bytes := 0\<rparr>))]" using demo_running_state(1) by blast
  let ?s = "dispatched_rs 5 g w (StrongId 1) (demo_rs\<lparr>rs_reservation := StrongId 1, rs_reserved_bytes := 0\<rparr>)"
  have s: "reqs demo_running (mr_request_id demo_result) = Some ?s" "rs_in_flight ?s" "is_live ?s"
    using r by (simp_all add: demo_result_def is_live_def is_terminal_lifecycle_def)
  have ok: "completion_error demo_result demo_running = None"
    using demo_accepted by (auto simp: report_completion_def split: option.splits prod.splits)
  have fin: "outcome_final (mr_outcome demo_result) (accounted_rs ?s) = Some LC_completed"
    using demo_plan
    by (simp add: outcome_final_def demo_result_def default_member_result_def)
      (simp add: accounted_rs_def dispatched_rs_def Let_def demo_rs_def admitted_rs_def default_rs_def)
  from apply_completion_inv [OF reachable_inv [OF demo_reachable(3)] s]
  obtain s' where "moves (mr_request_id demo_result) ?s s' demo_running (apply_completion sample_platform demo_result demo_running)"
      "rs_lifecycle s' = LC_completed"
    unfolding completion_moves_def same_progress_def completed_rs_def fin by auto
  moreover have "demo_done = apply_completion sample_platform demo_result demo_running"
    by (simp add: demo_done_def report_completion_def ok)
  moreover have "mr_request_id demo_result = StrongId 7" by (simp add: demo_result_def)
  ultimately show ?thesis by (simp add: moves_def)
qed

end
