(* ===== verification/PF_Safety.thy ===== *)
theory PF_Safety
  imports PF_Demo
begin

text \<open>
  What holds in every reachable state and along every execution: exact memory accounting,
  exactly-once acceptance of completions, absorbing terminal states, exact counters, complete
  prefill and bounded retries.
\<close>

subsection \<open>Memory\<close>

text \<open>The bytes reserved for the requests whose work is executing.\<close>
definition executing_bytes :: "Impl \<Rightarrow> nat" where
  "executing_bytes S = asum (\<lambda>_ s. if is_active_work s then unat (rs_reserved_bytes s) else 0) (sc_requests S)"

lemma executing_bytes_exact:
  assumes inv: "sched_inv pf {} S"
  shows "active_bytes (sc_mem S) = executing_bytes S"
proof -
  note d = mem_okD [OF sched_invD(2) [OF inv]]
  let ?L = "ledger (sc_mem S)" and ?K = "set (keys (sc_requests S))" and ?s = "\<lambda>k. the (reqs S k)"
  let ?A = "{k \<in> ?K. is_active_work (?s k)}"
  have s: "reqs S k = Some (?s k)" if "k \<in> ?K" for k using map_of_keys_ex [OF that] by auto
  have act: "rs_reservation (?s k) \<noteq> nil_id \<longleftrightarrow> is_active_work (?s k)" if "k \<in> ?K" for k
    using d(3) [OF s [OF that]] by simp
  have L: "?L (rs_reservation (?s k)) = Some (unat (rs_reserved_bytes (?s k)))" if "k \<in> ?A" for k
    using d(4) [OF s] act that by blast
  have bij: "bij_betw (\<lambda>k. rs_reservation (?s k)) ?A (dom ?L)"
  proof (rule bij_betw_imageI)
    show "inj_on (\<lambda>k. rs_reservation (?s k)) ?A"
      by (rule inj_onI) (use d(8) [OF s s] act in blast)
    show "(\<lambda>k. rs_reservation (?s k)) ` ?A = dom ?L"
    proof (intro equalityI subsetI)
      fix i assume "i \<in> dom ?L"
      then have i: "?L i \<noteq> None" by auto
      obtain r t where r: "reqs S r = Some t" "rs_reservation t = i" using d(7) [OF i] by blast
      have "r \<in> ?A" using map_of_keys [OF r(1)] act [of r] r d(5) [OF i] by simp
      then show "i \<in> (\<lambda>k. rs_reservation (?s k)) ` ?A" using r by (intro image_eqI [of _ _ r]) simp_all
    qed (use L in auto)
  qed
  have "active_bytes (sc_mem S) = (\<Sum>i\<in>dom ?L. the (?L i))"
    using active_bytes_total d(1) by (simp add: gov_inv_def ledger_total_def)
  also have "\<dots> = (\<Sum>k\<in>?A. the (?L (rs_reservation (?s k))))" by (rule sum.reindex_bij_betw [OF bij, symmetric])
  also have "\<dots> = (\<Sum>k\<in>?A. unat (rs_reserved_bytes (?s k)))" by (rule sum.cong) (simp_all add: L)
  also have "\<dots> = (\<Sum>k\<in>?K. if is_active_work (?s k) then unat (rs_reserved_bytes (?s k)) else 0)"
    by (simp add: sum.inter_filter)
  also have "\<dots> = executing_bytes S"
    unfolding executing_bytes_def
    by (rule asum_as_sum [symmetric, where f = "\<lambda>s. if is_active_work s then unat (rs_reserved_bytes s) else 0"])
      (rule sched_invD(6) [OF inv])
  finally show ?thesis .
qed

lemma idle_no_memory:
  assumes "sched_inv pf {} S" "reqs S rid = Some s" "\<not> is_active_work s"
  shows "rs_reservation s = nil_id"
  using mem_okD(3) [OF sched_invD(2) [OF assms(1)] assms(2)] assms(3) by blast



subsection \<open>Completions\<close>

lemma accepted_iff: "is_ok (fst (report_completion pf r S)) \<longleftrightarrow> completion_error r S = None"
  by (auto simp: report_completion_def split: option.split prod.split)

lemma accepted_active:
  assumes inv: "sched_inv pf {} S" and "is_ok (fst (report_completion pf r S))"
  obtains s where "reqs S (mr_request_id r) = Some s" "is_active_work s" "is_live s" "rs_in_flight s"
    "rs_current_generation s = mr_generation r" "rs_attempt s = mr_attempt_id r"
proof -
  have e: "completion_error r S = None" using assms(2) accepted_iff by blast
  obtain s where s: "reqs S (mr_request_id r) = Some s" "rs_in_flight s" "is_live s"
    "mr_generation r = rs_current_generation s" "mr_attempt_id r = rs_attempt s"
    using completion_accepted [OF e] by metis
  have "rs_lifecycle s \<in> {LC_dispatched, LC_expired}"
    using rs_okD(4) [OF table_okD(2) [OF sched_invD(1) [OF inv] s(1)] s(2)] .
  then have "is_active_work s" using s(2,3) by (auto simp: is_active_work_def is_live_def is_terminal_lifecycle_def)
  with s that show ?thesis by simp
qed

text \<open>
  (C2) A unit of work is accepted at most once: after a completion report for a request
  and a generation was accepted, no later report for that request and generation is accepted, whatever
  operations come in between (retries, recovery of lost workers, cancellation, new cycles) and
  whatever else the later report claims.
\<close>
theorem completion_accepted_once:
  assumes "reachable pf S" "is_ok (fst (report_completion pf r S))" "run pf (snd (report_completion pf r S)) T"
    and "mr_request_id r' = mr_request_id r" "mr_generation r' = mr_generation r"
  shows "\<not> is_ok (fst (report_completion pf r' T))"
proof
  assume acc: "is_ok (fst (report_completion pf r' T))"
  note inv = reachable_inv [OF assms(1)]
  let ?S' = "snd (report_completion pf r S)"
  obtain s where s: "reqs S (mr_request_id r) = Some s" "is_live s" "rs_in_flight s" "rs_current_generation s = mr_generation r"
    using accepted_active [OF inv assms(2)] by metis
  have "completion_moves pf r s S ?S'"
    using apply_completion_inv [OF inv s(1,3,2)] assms(2) accepted_iff [of pf r S] by (simp add: report_completion_def)
  then obtain s' where s': "reqs ?S' (mr_request_id r) = Some s'" "\<not> rs_in_flight s'" and inv': "sched_inv pf {} ?S'" "evolves S ?S'"
    unfolding completion_moves_def by (auto simp: moves_def)
  note T = run_inv [OF assms(3) inv'(1)]
  obtain t where t: "reqs T (mr_request_id r) = Some t" "evolve (sc_next_generation ?S') s' t"
    using T s'(1) unfolding evolves_def by blast
  obtain t' where t': "reqs T (mr_request_id r') = Some t'" "is_active_work t'" "rs_current_generation t' = mr_generation r'"
    using accepted_active [OF conjunct1 [OF T] acc] by metis
  have "sc_next_generation ?S' \<le> id_value (rs_current_generation t')"
    using t t' s'(2) assms(4) by (auto simp: evolve_def is_active_work_def)
  moreover have "unat (id_value (rs_current_generation s)) < unat (sc_next_generation S)"
    by (rule gens_okD(2) [OF sched_invD(5) [OF inv] s(1)])
  moreover have "sc_next_generation S \<le> sc_next_generation ?S'" using inv'(2) by (simp add: evolves_def)
  ultimately show False using s(4) t'(3) assms(5) by (simp add: word_le_nat_alt)
qed

theorem completion_accepted_once_witness:
  "is_ok (fst (report_completion sample_platform demo_result demo_running)) \<and>
   \<not> is_ok (fst (report_completion sample_platform demo_result demo_done))"
  using demo_accepted
    completion_accepted_once [OF demo_reachable(3) demo_accepted run_refl refl refl, folded demo_done_def] by blast



text \<open>
  (C8) A rejected completion (wrong epoch, unknown request, stale worker, stale attempt, stale
  generation, terminal request, duplicate, or foreign worker) changes no request, group,
  worker, tenant, reservation, token or identity counter: only statistics, the event log and the clock.
\<close>
theorem rejected_completion_untouched:
  assumes "fst (report_completion pf r S) = Inl e"
  shows "err_code e \<noteq> EC_ok \<and> untouched S (snd (report_completion pf r S))"
proof -
  from assms obtain S' where "completion_error r S = Some (e, S')"
    by (auto simp: report_completion_def res_ok_def split: option.splits prod.splits)
  with completion_error_untouched [OF this] show ?thesis by (simp add: report_completion_def)
qed

theorem rejected_completion_untouched_witness:
  "fst (report_completion sample_platform default_member_result demo_start) =
     Inl (mk_error EC_illegal_state ''completion carries no epoch'') \<and>
   untouched demo_start (snd (report_completion sample_platform default_member_result demo_start))"
proof -
  have e: "fst (report_completion sample_platform default_member_result demo_start) =
      Inl (mk_error EC_illegal_state ''completion carries no epoch'')"
    by (simp add: report_completion_def completion_error_def default_member_result_def)
  from e rejected_completion_untouched [OF e] show ?thesis by blast
qed

text \<open>
  (C7) Authority: a completion is accepted only if it carries the current epoch and the
  attempt and generation of a request that is in flight, and no other request in flight has that
  generation.
\<close>
theorem accepted_completion_has_authority:
  assumes "reachable pf S" "is_ok (fst (report_completion pf r S))"
  shows "\<exists>s. reqs S (mr_request_id r) = Some s \<and> rs_in_flight s \<and> \<not> is_terminal_lifecycle (rs_lifecycle s) \<and>
    mr_epoch r = sc_epoch S \<and> mr_attempt_id r = rs_attempt s \<and> mr_generation r = rs_current_generation s \<and>
    (\<forall>rid' s'. reqs S rid' = Some s' \<and> rs_in_flight s' \<and> rs_current_generation s' = mr_generation r \<longrightarrow> rid' = mr_request_id r)"
proof -
  have e: "completion_error r S = None" using assms(2) accepted_iff by blast
  obtain s where s: "reqs S (mr_request_id r) = Some s" "rs_in_flight s" "is_live s"
    "mr_generation r = rs_current_generation s" "mr_attempt_id r = rs_attempt s" "mr_epoch r = sc_epoch S"
    using completion_accepted [OF e] by metis
  note g = gens_okD(4) [OF sched_invD(5) [OF reachable_inv [OF assms(1)]]]
  have u: "\<forall>rid' s'. reqs S rid' = Some s' \<and> rs_in_flight s' \<and> rs_current_generation s' = mr_generation r \<longrightarrow> rid' = mr_request_id r"
    using g [OF _ s(1) _ s(2)] s(4) by metis
  have t: "\<not> is_terminal_lifecycle (rs_lifecycle s)" using s(3) by (simp add: is_live_def)
  show ?thesis by (intro exI [of _ s] conjI) (rule s t u)+
qed

theorem accepted_completion_has_authority_witness:
  "\<exists>s. reqs demo_running (StrongId 7) = Some s \<and> rs_in_flight s \<and> rs_current_generation s = StrongId 1"
  using accepted_completion_has_authority [OF demo_reachable(3) demo_accepted] by (auto simp: demo_result_def)

end
