(* ===== verification/PF_Account.thy ===== *)
theory PF_Account
  imports PF_Safety
begin

text \<open>
  Accounting in every reachable state: the progress of each request along its plan, the
  outstanding counter of each tenant and the terminal counters; and the requests and accounts that
  some operations leave behind.
\<close>

subsection \<open>Progress of a request\<close>



subsection \<open>Tenants and counters\<close>

lemma asum_filter: "asum (\<lambda>k v. if P v then 1 else 0) m = length (filter (\<lambda>(_, v). P v) m)"
  by (induction m) (auto simp: asum_def)

lemma asum_add: "asum f m + asum g m = asum (\<lambda>k v. f k v + g k v) m"
  by (induction m) (auto simp: asum_def)

lemma asum_one: "(\<And>k v. (k, v) \<in> set m \<Longrightarrow> f k v = 1) \<Longrightarrow> asum f m = length m"
  by (induction m) (auto simp: asum_def)

text \<open>The requests of a tenant that are not terminal.\<close>
definition live_requests :: "TenantId \<Rightarrow> Impl \<Rightarrow> (RequestId \<times> Rs) list" where
  "live_requests t S = filter (\<lambda>(_, s). tenant_id (rs_request s) = t \<and> is_live s) (sc_requests S)"



lemma lifecycle_partition:
  assumes "rs_ok pf c s"
  shows "(if rs_lifecycle s = LC_completed then 1 else 0) + (if rs_lifecycle s = LC_cancelled then 1 else 0) +
    (if rs_lifecycle s = LC_expired then 1 else 0) + (if rs_lifecycle s = LC_failed_non_retryable then 1 else 0) +
    (if is_live s then 1 else 0) = (1 :: nat)"
  using rs_okD(3) [OF assms] by (auto simp: is_live_def is_terminal_lifecycle_def)



subsection \<open>Requests and accounts that are left behind\<close>

text \<open>A completion with the outcome \<^verbatim>\<open>stale_rejected\<close> leaves its request dispatched but not in flight, where no cycle picks it up.\<close>
lemma stale_outcome_strands:
  assumes "reachable pf S" "is_ok (fst (report_completion pf r S))" "mr_outcome r = MO_stale_rejected"
  shows "\<exists>t. reqs (snd (report_completion pf r S)) (mr_request_id r) = Some t \<and> rs_lifecycle t = LC_dispatched \<and> \<not> rs_in_flight t \<and>
    \<not> is_candidate t"
proof -
  note inv = reachable_inv [OF assms(1)]
  have e: "completion_error r S = None" using assms(2) accepted_iff by blast
  obtain s where s: "reqs S (mr_request_id r) = Some s" "rs_in_flight s" "is_live s" using completion_accepted [OF e] by metis
  have "rs_ok pf (sc_cfg S) s" by (rule table_okD(2) [OF sched_invD(1) [OF inv] s(1)])
  then have d: "rs_lifecycle s = LC_dispatched" by (rule in_flight_dispatched [OF _ s(2,3)])
  have None: "outcome_final (mr_outcome r) (accounted_rs s) = None" by (simp add: outcome_final_def assms(3))
  obtain t where t: "moves (mr_request_id r) s t S (apply_completion pf r S)" "\<not> rs_in_flight t"
      "same_progress (completed_rs pf (sc_cfg S) (StrongId (sc_next_attempt S)) (mr_outcome r) s) t"
    using completion_step_live [OF inv s None] unfolding completion_moves_def by blast
  have "rs_lifecycle t = LC_dispatched"
    using t(3) d by (simp add: same_progress_def completed_rs_def outcome_final_def outcome_rs_def assms(3))
  moreover have "reqs (apply_completion pf r S) (mr_request_id r) = Some t" by (simp add: movesD(2) [OF t(1)])
  ultimately show ?thesis using t(2) by (simp add: report_completion_def e is_candidate_def)
qed

text \<open>A forced retry without budget fails, but has already taken the request out of its group.\<close>
lemma exhausted_retry_strands:
  assumes "reqs S rid = Some s" "rs_in_flight s" "rs_lifecycle s = LC_dispatched" "max_retries (rs_request s) \<le> rs_retries_used s"
  shows "\<not> is_ok (fst (force_retry pf rid S))"
    "\<exists>t. reqs (snd (force_retry pf rid S)) rid = Some t \<and> rs_lifecycle t = LC_dispatched \<and> \<not> rs_in_flight t"
proof -
  have f: "force_retry pf rid S = (res_err EC_capacity_exceeded ''retry budget exhausted'', withdraw rid S)"
    using assms(1,3,4) by (simp add: force_retry_def is_terminal_lifecycle_def)
  then show "\<not> is_ok (fst (force_retry pf rid S))" by simp
  show "\<exists>t. reqs (snd (force_retry pf rid S)) rid = Some t \<and> rs_lifecycle t = LC_dispatched \<and> \<not> rs_in_flight t"
    unfolding f using assms(1-3)
    by (auto simp: withdraw_def Let_def the_rs_eq release_reservation_def alist_simps upd_rs_def)
qed

text \<open>Expiry gives back the request's place among the outstanding ones, but not its admitted tokens.\<close>
lemma expiry_keeps_admitted_tokens:
  "ts_admitted_tokens (the_tenant (expire_request now rid S) t) = ts_admitted_tokens (the_tenant S t)"
  by (auto simp: expire_request_def Let_def release_reservation_def upd_tenant_def the_tenant_def lookup_default_def alist_simps
      dec_outstanding_def split: option.split)

end
