(* ===== verification/PF_Order.thy ===== *)
theory PF_Order
  imports PF_Account "HOL-Library.Product_Lexorder"
begin

text \<open>
  The comparison that orders the candidates of a cycle is a strict total order, so the order
  does not depend on the iteration order of the request table nor on the sorting algorithm.
\<close>

subsection \<open>The order as a lexicographic key\<close>

type_synonym order_key = "bool \<times> int \<times> int \<times> int \<times> (int \<times> rat) \<times> int \<times> int \<times> u64"

definition order_key :: "Nanoseconds \<Rightarrow> Impl \<Rightarrow> RequestId \<Rightarrow> order_key" where
  "order_key now S a = (let s = the_rs S a; r = rs_request s in
     (\<not> urgent now (sc_cfg S) s, effective_deadline s, - priority r, - LatencyClass_code (latency_class r),
      f64_rank (share_of S s), - uint (rs_aging_cycles s), rs_admit_time s, id_value a))"

text \<open>
  Requests the comparison is meant for: the tenant's share is a number, and the latency class is
  an enumerator or a value without one.
\<close>
definition comparable :: "Impl \<Rightarrow> RequestId set" where
  "comparable S = {a. \<not> f64_is_nan (share_of S (the_rs S a)) \<and>
     (let l = latency_class (rs_request (the_rs S a)) in LatencyClass_of_code (LatencyClass_code l) = l)}"

lemma latency_code_eq:
  "LatencyClass_of_code (LatencyClass_code l) = l \<Longrightarrow> LatencyClass_of_code (LatencyClass_code l') = l' \<Longrightarrow>
   LatencyClass_code l = LatencyClass_code l' \<longleftrightarrow> l = l'"
  by metis

lemma comparableD:
  assumes "a \<in> comparable S"
  shows "\<not> f64_is_nan (share_of S (the_rs S a))"
    "LatencyClass_of_code (LatencyClass_code (latency_class (rs_request (the_rs S a)))) = latency_class (rs_request (the_rs S a))"
  using assms unfolding comparable_def Let_def by blast+

lemma sorter_key:
  assumes "a \<in> comparable S" "b \<in> comparable S"
  shows "sorter now S a b \<longleftrightarrow> order_key now S a < order_key now S b"
proof -
  have n: "\<not> f64_is_nan (share_of S (the_rs S a))" "\<not> f64_is_nan (share_of S (the_rs S b))"
    by (rule comparableD [OF assms(1)], rule comparableD [OF assms(2)])
  have eq: "f64_eq (share_of S (the_rs S a)) (share_of S (the_rs S b)) \<longleftrightarrow>
      f64_rank (share_of S (the_rs S a)) = f64_rank (share_of S (the_rs S b))"
    using n by (simp add: f64_eq_def)
  have lt: "f64_lt (share_of S (the_rs S a)) (share_of S (the_rs S b)) \<longleftrightarrow>
      f64_rank (share_of S (the_rs S a)) < f64_rank (share_of S (the_rs S b))"
    using n by (simp add: f64_lt_def less_prod_def' order.order_iff_strict)
  note l = latency_code_eq [OF comparableD(2) [OF assms(1)] comparableD(2) [OF assms(2)]]
  show ?thesis
    unfolding sorter_def order_key_def Let_def eq lt less_prod_def' fst_conv snd_conv
    using l by (auto simp: word_less_def word_uint_eq_iff [of "rs_aging_cycles _"])
qed

lemma order_key_inject: "order_key now S a = order_key now S b \<longleftrightarrow> a = b"
  by (auto simp: order_key_def Let_def StrongId.expand)

interpretation candidate_order: strict_order "sorter now S" "comparable S" for now S
proof
  fix a b c assume abc: "a \<in> comparable S" "b \<in> comparable S" "c \<in> comparable S"
  show "\<not> sorter now S a a" using abc by (simp add: sorter_key)
  show "sorter now S a b \<Longrightarrow> sorter now S b c \<Longrightarrow> sorter now S a c" using abc by (auto simp: sorter_key)
  show "a \<noteq> b \<Longrightarrow> sorter now S a b \<or> sorter now S b a"
    using abc order_key_inject [of now S a b] by (auto simp: sorter_key neq_iff)
qed

subsection \<open>Fairness inputs\<close>

lemma tenant_share_default:
  assumes "ts_weight t = f64_one" "ts_normalized_service t = f64_zero"
  shows "tenant_share t = f64_zero"
proof -
  have e: "f64_exp f64_one = 1023" "f64_exp f64_zero = 0" "f64_man f64_one = 0" "f64_man f64_zero = 0"
    by (simp_all add: f64_exp_def f64_man_def f64_one_def f64_zero_def)
  have s: "\<not> f64_sign f64_one" "\<not> f64_sign f64_zero" by (simp_all add: f64_sign_def f64_one_def f64_zero_def)
  have v: "f64_val f64_zero = 0" by (simp add: f64_val_def e Let_def)
  have v1: "f64_val f64_one \<noteq> 0" by (simp add: f64_val_def e pow2_def Let_def)
  have "tenant_share t = f64_div f64_zero f64_one"
    unfolding tenant_share_def assms by simp
  also have "\<dots> = f64_zero"
    using e s v v1 by (simp add: f64_div_def f64_is_nan_def f64_is_inf_def f64_signed_zero_def Let_def) (simp add: f64_zero_def)
  finally show ?thesis .
qed

lemma reachable_share: "reachable pf S \<Longrightarrow> share_of S s = f64_zero"
  using sched_invD(3) [OF reachable_inv] by (simp add: share_of_def tenants_ok_def tenant_share_default)

lemma zero_not_nan: "\<not> f64_is_nan f64_zero"
  by (simp add: f64_is_nan_def f64_exp_def f64_zero_def)



subsection \<open>Determinism of the dispatch order\<close>

text \<open>
  (C22) The order in which a cycle considers its candidates is determined by their data alone: in
  a reachable state whose latency classes are enumerators, sorting the candidates in any
  iteration order \<open>cs\<close> of the hash table gives the same list, that list is sorted by the comparison, and every
  sorted arrangement of the candidates (whatever algorithm produced it) is that list.
\<close>
theorem candidate_order_deterministic:
  assumes "reachable pf S" and "mset cs = mset (candidates S)"
    and "\<And>rid s. reqs S rid = Some s \<Longrightarrow> LatencyClass_of_code (LatencyClass_code (latency_class (rs_request s))) = latency_class (rs_request s)"
  shows "sort_by (sorter now S) cs = sort_by (sorter now S) (candidates S) \<and>
    sorted_wrt (sorter now S) (sort_by (sorter now S) cs) \<and>
    (\<forall>ys. mset ys = mset (candidates S) \<and> sorted_wrt (sorter now S) ys \<longrightarrow> ys = sort_by (sorter now S) cs)"
proof -
  have dk: "distinct (keys (sc_requests S))" by (rule sched_invD(6) [OF reachable_inv [OF assms(1)]])
  have dom: "set cs \<subseteq> comparable S"
  proof
    fix a assume "a \<in> set cs"
    then have "ready S a" using in_candidates [OF dk] assms(2) by (metis set_mset_mset)
    then obtain s where "reqs S a = Some s" by (auto simp: ready_def)
    then show "a \<in> comparable S"
      using assms(3) reachable_share [OF assms(1)] zero_not_nan by (simp add: comparable_def the_rs_eq)
  qed
  have dist: "distinct cs" using distinct_candidates [OF dk] mset_eq_imp_distinct_iff [OF assms(2)] by simp
  have sorted: "sorted_wrt (sorter now S) (sort_by (sorter now S) cs)" by (rule candidate_order.sorted_sort_by [OF dom dist])
  have "ys = sort_by (sorter now S) cs" if "mset ys = mset (candidates S)" "sorted_wrt (sorter now S) ys" for ys
  proof (rule candidate_order.sorted_unique [OF that(2) sorted])
    show "mset ys = mset (sort_by (sorter now S) cs)" using that(1) assms(2) by simp
    show "set ys \<subseteq> comparable S" using dom that(1) assms(2) by (metis set_mset_mset)
  qed
  with candidate_order.sort_by_perm [OF assms(2) dist dom] sorted show ?thesis by blast
qed

theorem candidate_order_deterministic_witness:
  "candidates demo_queued = [StrongId 7] \<and> sort_by (sorter 9 demo_queued) [StrongId 7] = sort_by (sorter 9 demo_queued) (candidates demo_queued)"
proof -
  have c: "candidates demo_queued = [StrongId 7]" by (simp add: candidates_def demo_queued_state demo_candidate)
  have l: "latency_class (rs_request s) = LAT_standard" if "reqs demo_queued rid = Some s" for rid s
    using that by (auto simp: demo_queued_state demo_rs_def admitted_rs_def demo_request_def default_request_def split: if_splits)
  have "LatencyClass_of_code (LatencyClass_code LAT_standard) = LAT_standard" by (simp add: LatencyClass_of_code_def)
  then show ?thesis
    using c l candidate_order_deterministic [OF demo_reachable(2), of "[StrongId 7]" 9] by simp
qed

end
