(* ===== verification/PF_Batch.thy ===== *)
theory PF_Batch
  imports PF_Account
begin

text \<open>
  The batch a cycle returns: every dispatched group has one compatibility key, respects the
  group limits, and each of its members names the request, attempt, generation, chunk, group and worker that
  the scheduler recorded, so that its completion will be accepted.
\<close>

subsection \<open>The commit loop\<close>

lemma commit_member_sel [simp]:
  "gs_worker (commit_member x w r i g) = gs_worker g" "eg_key (gs_group (commit_member x w r i g)) = eg_key (gs_group g)"
  "eg_total_token_count (gs_group (commit_member x w r i g)) = eg_total_token_count (gs_group g)"
  "eg_members (gs_group (commit_member x w r i g)) = (eg_members (gs_group g))
     [i := (eg_members (gs_group g) ! i)\<lparr>em_generation := x, em_assigned_worker := w\<rparr>]"
  "set (gs_outstanding (commit_member x w r i g)) = insert r (set (gs_outstanding g))"
  by (simp_all add: commit_member_def set_insort_insert)

lemma commit_members_group:
  assumes "commit_members now gid w i rids (g, b) S = ((g', b'), S')" "distinct rids" "\<And>r. r \<in> set rids \<Longrightarrow> reqs S r \<noteq> None"
    "i + length rids \<le> length (eg_members (gs_group g))" "unat (sc_next_generation S) + length rids < 2 ^ 64"
  shows "gs_worker g' = gs_worker g \<and> eg_key (gs_group g') = eg_key (gs_group g) \<and>
    eg_total_token_count (gs_group g') = eg_total_token_count (gs_group g) \<and>
    set (gs_outstanding g') = set (gs_outstanding g) \<union> set rids \<and>
    length (eg_members (gs_group g')) = length (eg_members (gs_group g)) \<and>
    (\<forall>k. k < i \<longrightarrow> eg_members (gs_group g') ! k = eg_members (gs_group g) ! k) \<and>
    (\<forall>r. r \<notin> set rids \<longrightarrow> reqs S' r = reqs S r) \<and> keys (sc_requests S') = keys (sc_requests S) \<and>
    (\<forall>j < length rids. \<exists>gen. reqs S' (rids ! j) = Some (dispatched_rs now gid w gen (the_rs S (rids ! j))) \<and>
       eg_members (gs_group g') ! (i + j) = (eg_members (gs_group g) ! (i + j))\<lparr>em_generation := gen, em_assigned_worker := w\<rparr>)"
  using assms
proof (induction rids arbitrary: i g b S)
  case (Cons rid rids)
  obtain s where s: "reqs S rid = Some s" using Cons.prems(3) [of rid] by auto
  have room: "Suc (unat (sc_next_generation S)) < 2 ^ 64" using Cons.prems(5) by simp
  let ?x = "StrongId (sc_next_generation S) :: Generation" and ?ms = "eg_members (gs_group g)"
  let ?g = "commit_member ?x w rid i g" and ?C = "commit_one now gid w rid s (em_token_count (?ms ! i)) S"
  note e = commit_one_effect [OF s room, of now gid w "em_token_count (?ms ! i)"]
  have rec: "commit_members now gid w (Suc i) rids (?g, b + em_memory_estimate_bytes (?ms ! i)) ?C = ((g', b'), S')"
    using Cons.prems(1) unfolding commit_members_Cons [OF s] .
  have look: "reqs ?C r = (if r = rid then Some (dispatched_rs now gid w ?x s) else reqs S r)" for r
    by (simp only: movesD(2) [OF e(1)] fun_upd_apply)
  have the: "the_rs ?C r = the_rs S r" if "r \<noteq> rid" for r using look [of r] that by (simp add: the_rs_def lookup_default_def)
  have len: "i < length ?ms" "Suc i + length rids \<le> length (eg_members (gs_group ?g))" using Cons.prems(4) by simp_all
  have gen: "unat (sc_next_generation ?C) + length rids < 2 ^ 64" using Cons.prems(5) e(4) by simp
  have some: "reqs ?C r \<noteq> None" if "r \<in> set rids" for r using Cons.prems(3) [of r] that by (simp add: look)
  have dist: "distinct rids" "rid \<notin> set rids" using Cons.prems(2) by simp_all
  note ih = Cons.IH [OF rec dist(1) some len(2) gen]
  have below: "eg_members (gs_group g') ! k = eg_members (gs_group ?g) ! k" if "k < Suc i" for k using ih that by blast
  have step: "\<exists>gen. reqs S' ((rid # rids) ! j) = Some (dispatched_rs now gid w gen (the_rs S ((rid # rids) ! j))) \<and>
       eg_members (gs_group g') ! (i + j) = (?ms ! (i + j))\<lparr>em_generation := gen, em_assigned_worker := w\<rparr>"
    if "j < length (rid # rids)" for j
  proof (cases j)
    case 0
    have "reqs S' rid = Some (dispatched_rs now gid w ?x s)" using ih dist(2) look [of rid] by simp
    moreover have "eg_members (gs_group g') ! i = (?ms ! i)\<lparr>em_generation := ?x, em_assigned_worker := w\<rparr>"
      using below [of i] len(1) by simp
    ultimately show ?thesis unfolding 0 using the_rs_eq [OF s] by auto
  next
    case (Suc k)
    then have k: "k < length rids" using that by simp
    have "rids ! k \<noteq> rid" using dist(2) k nth_mem by fastforce
    moreover obtain gen where "reqs S' (rids ! k) = Some (dispatched_rs now gid w gen (the_rs ?C (rids ! k)))"
      "eg_members (gs_group g') ! (Suc i + k) = (eg_members (gs_group ?g) ! (Suc i + k))\<lparr>em_generation := gen, em_assigned_worker := w\<rparr>"
      using ih k by blast
    ultimately show ?thesis unfolding Suc using the by auto
  qed
  have frame: "reqs S' r = reqs S r" if "r \<notin> set (rid # rids)" for r using ih that look [of r] by simp
  have front: "eg_members (gs_group g') ! k = ?ms ! k" if "k < i" for k using below [of k] that by simp
  show ?case using ih step frame front movesD(3) [OF e(1)] by simp
qed simp

subsection \<open>Dispatched groups\<close>

text \<open>The request executes exactly the work the member describes.\<close>
definition working :: "Impl \<Rightarrow> WorkerId \<Rightarrow> GroupId \<Rightarrow> RequestId \<Rightarrow> ExecutableMember \<Rightarrow> bool" where
  "working S w gid r m \<longleftrightarrow> (\<exists>s. reqs S r = Some s \<and> is_active_work s \<and> rs_current_generation s = em_generation m \<and>
     rs_dispatched_worker s = w \<and> rs_current_group s = gid \<and> member_of s r m)"

definition dispatched_as :: "Impl \<Rightarrow> OpenGroup \<Rightarrow> DispatchedGroup \<Rightarrow> bool" where
  "dispatched_as S g dg \<longleftrightarrow>
     list_all2 (working S (dg_assigned_worker dg) (dg_group_id dg)) (og_rids g) (eg_members (dg_group dg)) \<and>
     eg_key (dg_group dg) = og_key g \<and> eg_total_token_count (dg_group dg) = og_total_tokens g"

lemma member_of_same:
  "rs_attempt t = rs_attempt s \<Longrightarrow> rs_plan t = rs_plan s \<Longrightarrow> rs_next_chunk_index t = rs_next_chunk_index s \<Longrightarrow>
   member_of t r m = member_of s r m"
  by (simp add: member_of_def next_chunk_def)

lemma member_of_committed:
  "member_of s r (m\<lparr>em_generation := x, em_assigned_worker := w\<rparr>) = member_of s r m"
  by (simp add: member_of_def)

lemma commit_group_batch:
  assumes g: "group_ready S g" "og_ok c f g" and gen: "unat (sc_next_generation S) + length (og_rids g) < 2 ^ 64"
    and same: "\<And>r m. r \<in> set (og_rids g) \<Longrightarrow> member_of (the_rs S r) r m = member_of (f r) r m"
  shows "\<exists>dg. db_groups (fst (commit_group now w g (b, S))) = db_groups b @ [dg] \<and>
    dispatched_as (snd (commit_group now w g (b, S))) g dg"
proof -
  let ?gid = "eg_group_id (og_group g)" and ?g0 = "\<lparr>gs_group = og_group g, gs_worker = w, gs_outstanding = []\<rparr>"
  obtain gs n T where T: "commit_members now ?gid w 0 (og_rids g) (?g0, 0) S = ((gs, n), T)" by (metis surj_pair)
  have len: "length (og_rids g) = length (eg_members (og_group g))" using g(2) list_all2_lengthD by (auto simp: og_ok_def)
  have some: "reqs S r \<noteq> None" if "r \<in> set (og_rids g)" for r using g(1) that by (auto simp: group_ready_def ready_def)
  have dist: "distinct (og_rids g)" using g(1) by (simp add: group_ready_def)
  note c = commit_members_group [OF T dist some _ gen, simplified, OF eq_imp_le [OF len]]
  have at: "working T w ?gid (og_rids g ! j) (eg_members (gs_group gs) ! j)" if j: "j < length (og_rids g)" for j
  proof -
    obtain x where x: "reqs T (og_rids g ! j) = Some (dispatched_rs now ?gid w x (the_rs S (og_rids g ! j)))"
        "eg_members (gs_group gs) ! j = (eg_members (og_group g) ! j)\<lparr>em_generation := x, em_assigned_worker := w\<rparr>"
      using c j by blast
    have "member_of (f (og_rids g ! j)) (og_rids g ! j) (eg_members (og_group g) ! j)"
      using g(2) j len by (simp add: og_ok_def list_all2_conv_all_nth)
    then have "member_of (the_rs S (og_rids g ! j)) (og_rids g ! j) (eg_members (og_group g) ! j)" using same j by simp
    then show ?thesis
      unfolding working_def x using member_of_same [of "dispatched_rs now ?gid w x (the_rs S (og_rids g ! j))" "the_rs S (og_rids g ! j)"]
      by (simp add: is_active_work_def member_of_committed)
  qed
  let ?U = "snd (commit_group now w g (b, S))"
  have U: "reqs ?U = reqs T" unfolding commit_group_def prod.case Let_def T by simp
  have dg: "\<exists>rv. db_groups (fst (commit_group now w g (b, S))) = db_groups b @ [\<lparr>dg_group_id = ?gid, dg_group = gs_group gs,
      dg_assigned_worker = w, dg_reservation_id = rv, dg_reserved_bytes = n\<rparr>]"
    unfolding commit_group_def prod.case Let_def T by simp
  have "list_all2 (working ?U w ?gid) (og_rids g) (eg_members (gs_group gs))"
    using at c len by (simp add: list_all2_conv_all_nth working_def U)
  moreover have "eg_key (gs_group gs) = og_key g" "eg_total_token_count (gs_group gs) = og_total_tokens g"
    using c g(2) by (simp_all add: og_ok_def)
  ultimately show ?thesis using dg by (auto simp: dispatched_as_def)
qed

text \<open>The records of the group are, up to their reservations, those of formation.\<close>
definition formed_from :: "(RequestId \<Rightarrow> Rs) \<Rightarrow> Impl \<Rightarrow> RequestId \<Rightarrow> bool" where
  "formed_from f S r \<longleftrightarrow> rs_attempt (the_rs S r) = rs_attempt (f r) \<and> rs_plan (the_rs S r) = rs_plan (f r) \<and>
     rs_next_chunk_index (the_rs S r) = rs_next_chunk_index (f r)"

lemma formed_reserved:
  assumes "reserved_for rids S T" "formed_from f S r" "reqs S r \<noteq> None"
  shows "formed_from f T r"
proof -
  obtain s where s: "reqs S r = Some s" using assms(3) by auto
  have "map_option bare (reqs T r) = Some (bare s)" using assms(1) s by (simp add: reserved_for_def)
  then obtain t where t: "reqs T r = Some t" "bare t = bare s" by auto
  have "rs_attempt t = rs_attempt s" "rs_plan t = rs_plan s" "rs_next_chunk_index t = rs_next_chunk_index s"
    using arg_cong [OF t(2), of rs_attempt] arg_cong [OF t(2), of rs_plan] arg_cong [OF t(2), of rs_next_chunk_index]
    by (simp_all add: bare_def)
  then show ?thesis using assms(2) by (simp add: formed_from_def the_rs_eq [OF s] the_rs_eq [OF t(1)])
qed

lemma dispatch_one_batch:
  assumes inv: "sched_inv pf {} S" and g: "group_ready S g" "room (length (og_rids g)) S" "og_ok c f g"
    and same: "\<And>r. r \<in> set (og_rids g) \<Longrightarrow> formed_from f S r"
  shows "db_groups (fst (dispatch_one now g (b, S))) = db_groups b \<or>
    (\<exists>dg. db_groups (fst (dispatch_one now g (b, S))) = db_groups b @ [dg] \<and>
       dispatched_as (snd (dispatch_one now g (b, S))) g dg)"
proof (cases "eg_members (og_group g) = [] \<or> choose_worker (eg_backend (og_group g)) S = None")
  case True
  then show ?thesis by (auto simp: dispatch_one_def add_note_def)
next
  case False
  then obtain w where w: "eg_members (og_group g) \<noteq> []" "choose_worker (eg_backend (og_group g)) S = Some w" by auto
  obtain good acc T where r: "reserve_all (og_rids g) [] S = (good, acc, T)" by (metis surj_pair)
  show ?thesis
  proof (cases good)
    case False
    then show ?thesis using w r by (simp add: dispatch_one_def add_note_def)
  next
    case True
    have res: "reserved_for (og_rids g) S T" using reserve_all_inv [OF r inv] g by (auto simp: group_ready_def room_def)
    have "group_ready T g" using g(1) reserved_ready [OF res] by (simp add: group_ready_def)
    moreover have "unat (sc_next_generation T) + length (og_rids g) < 2 ^ 64" using g(2) res by (simp add: room_def reserved_for_def)
    moreover have "member_of (the_rs T r) r m = member_of (f r) r m" if r: "r \<in> set (og_rids g)" for r m
    proof -
      have "reqs S r \<noteq> None" using g(1) r by (auto simp: group_ready_def ready_def)
      then have "formed_from f T r" by (rule formed_reserved [OF res same [OF r]])
      then show ?thesis by (intro member_of_same) (simp_all add: formed_from_def)
    qed
    ultimately have "\<exists>dg. db_groups (fst (commit_group now w g (b, T))) = db_groups b @ [dg] \<and>
        dispatched_as (snd (commit_group now w g (b, T))) g dg"
      by (intro commit_group_batch [OF _ g(3)])
    moreover have "dispatch_one now g (b, S) = commit_group now w g (b, T)" using w r True by (simp add: dispatch_one_def)
    ultimately show ?thesis by simp
  qed
qed

lemma dispatched_as_frame:
  "dispatched_as S g dg \<Longrightarrow> (\<And>r. r \<in> set (og_rids g) \<Longrightarrow> reqs T r = reqs S r) \<Longrightarrow> dispatched_as T g dg"
  unfolding dispatched_as_def working_def by (auto simp: list_all2_conv_all_nth)

lemma dispatch_fold_batch:
  assumes "sched_inv pf {} S" "distinct (concat (map og_rids gs))" "\<And>r. r \<in> set (concat (map og_rids gs)) \<Longrightarrow> ready S r"
    "room (length (concat (map og_rids gs))) S" "\<And>g. g \<in> set gs \<Longrightarrow> og_ok c f g"
    "\<And>r. r \<in> set (concat (map og_rids gs)) \<Longrightarrow> formed_from f S r"
    "\<And>dg. dg \<in> set (db_groups b) \<Longrightarrow> \<exists>g \<in> set done. dispatched_as S g dg"
    "\<And>g r. g \<in> set done \<Longrightarrow> r \<in> set (og_rids g) \<Longrightarrow> r \<notin> set (concat (map og_rids gs))"
    "dg \<in> set (db_groups (fst (fold (dispatch_one now) gs (b, S))))"
  shows "\<exists>g \<in> set (done @ gs). dispatched_as (snd (fold (dispatch_one now) gs (b, S))) g dg"
  using assms
proof (induction gs arbitrary: b S "done")
  case (Cons g gs)
  obtain b1 S1 where s1: "dispatch_one now g (b, S) = (b1, S1)" by fastforce
  have gr: "group_ready S g" "room (length (og_rids g)) S" using Cons.prems(2-4) by (auto simp: group_ready_def room_def)
  have d: "sched_inv pf {} S1" "touched (og_rids g) S S1"
    using dispatch_one_inv [OF Cons.prems(1) gr, of now b] s1 by simp_all
  have fr: "reqs S1 r = reqs S r" if "r \<notin> set (og_rids g)" for r using d(2) that by (simp add: touched_def)
  have other: "r \<notin> set (og_rids g)" if "r \<in> set (concat (map og_rids gs))" for r using Cons.prems(2) that by auto
  have one: "db_groups b1 = db_groups b \<or> (\<exists>dg. db_groups b1 = db_groups b @ [dg] \<and> dispatched_as S1 g dg)"
    using dispatch_one_batch [OF Cons.prems(1) gr, of c f now b] Cons.prems(5,6) s1 by simp
  have "\<exists>g' \<in> set ((done @ [g]) @ gs). dispatched_as (snd (fold (dispatch_one now) gs (b1, S1))) g' dg"
  proof (rule Cons.IH [OF d(1)])
    show "ready S1 r" "formed_from f S1 r" if r: "r \<in> set (concat (map og_rids gs))" for r
      using Cons.prems(3,6) [of r] r fr [OF other [OF r]] by (simp_all add: ready_def formed_from_def the_rs_def lookup_default_def)
    show "room (length (concat (map og_rids gs))) S1" using Cons.prems(4) d(2) by (simp add: room_def touched_def)
    show "\<exists>g' \<in> set (done @ [g]). dispatched_as S1 g' x" if x: "x \<in> set (db_groups b1)" for x
    proof (cases "x \<in> set (db_groups b)")
      case True
      then obtain g' where g': "g' \<in> set done" "dispatched_as S g' x" using Cons.prems(7) by blast
      have "dispatched_as S1 g' x"
        by (rule dispatched_as_frame [OF g'(2) fr]) (use Cons.prems(8) [OF g'(1)] in auto)
      then show ?thesis using g'(1) by auto
    next
      case False
      then show ?thesis using one x by auto
    qed
    show "r \<notin> set (concat (map og_rids gs))" if "g' \<in> set (done @ [g])" "r \<in> set (og_rids g')" for g' r
      using that Cons.prems(8) [of g' r] other [of r] by auto
  qed (use Cons.prems(2,5,9) s1 in auto)
  then show ?case using s1 by simp
qed auto

subsection \<open>The batch of a cycle\<close>

lemma quiet_formed:
  assumes "quiet S T" "reqs S r \<noteq> None"
  shows "formed_from (the_rs S) T r"
proof -
  obtain s where s: "reqs S r = Some s" using assms(2) by auto
  obtain t where t: "reqs T r = Some t" "core t = core s" using quiet_reqs_back [OF assms(1) s] by blast
  show ?thesis using core_eqD [OF t(2)] by (simp add: formed_from_def the_rs_eq [OF s] the_rs_eq [OF t(1)])
qed

lemma working_aged: "working S w gid r m \<Longrightarrow> working (refresh_gauges (age_waiting S)) w gid r m"
proof -
  assume "working S w gid r m"
  then obtain s where s: "reqs S r = Some s" "is_active_work s" "rs_current_generation s = em_generation m"
    "rs_dispatched_worker s = w" "rs_current_group s = gid" "member_of s r m" unfolding working_def by blast
  have "\<not> is_waiting s" using s(2) by (simp add: is_active_work_def is_waiting_def)
  then have "reqs (refresh_gauges (age_waiting S)) r = Some s" by (simp add: refresh_gauges_def age_waiting_reqs s(1))
  then show ?thesis unfolding working_def using s(2-6) by blast
qed

lemma evolves_request:
  assumes "evolves S T" "reqs S r = Some s" "reqs T r = Some t"
  shows "rs_request t = rs_request s"
proof -
  obtain t' where "reqs T r = Some t'" "evolve (sc_next_generation S) s t'" using assms(1,2) unfolding evolves_def by blast
  then show ?thesis using assms(3) by (simp add: evolve_def)
qed

lemma run_cycle_batch:
  assumes inv: "sched_inv pf {} S" and rm: "room (length (sc_requests S)) S" and c: "run_cycle S = (res_ok b, T)"
    and dg: "dg \<in> set (db_groups b)"
  obtains g U where "og_ok (sc_cfg S) (the_rs U) g" "dispatched_as T g dg" "evolves U T"
    "\<And>r. r \<in> set (og_rids g) \<Longrightarrow> ready U r" "U = sweep (clock_now S) (tick S)" "distinct (og_rids g)"
proof -
  obtain U opn W where st: "U = sweep (clock_now S) (tick S)" "sched_inv pf {} U" "evolves S U" "quiet U W"
    "\<forall>g \<in> set opn. og_ok (sc_cfg U) (the_rs U) g" "placed opn = mset (candidates U)"
    "\<And>r. r \<in> set (concat (map og_rids opn)) \<Longrightarrow> ready W r"
    "distinct (concat (map og_rids opn))" "length (concat (map og_rids opn)) \<le> length (sc_requests S)"
    "run_cycle S = (res_ok (fst (dispatch_groups (clock_now S) opn W)),
       refresh_gauges (age_waiting (snd (dispatch_groups (clock_now S) opn W))))"
    by (rule run_cycle_stages [OF inv]) (rule that; assumption)
  let ?D = "snd (dispatch_groups (clock_now S) opn W)"
  have cfg: "sc_cfg U = sc_cfg S" by (simp add: st(1))
  have rmW: "room (length (concat (map og_rids opn))) W" using rm st(4,9) unfolding st(1) by (simp add: room_def quiet_def)
  have invW: "sched_inv pf {} W" by (rule sched_inv_quiet [OF st(4,2)])
  have known: "reqs U r \<noteq> None" if r: "r \<in> set (concat (map og_rids opn))" for r
    using st(7) [OF r] quiet_reqs [OF st(4)] by (metis option.distinct(1) ready_def)
  have b: "b = fst (dispatch_groups (clock_now S) opn W)" and T: "T = refresh_gauges (age_waiting ?D)"
    using c unfolding st(10) by (simp_all add: res_ok_def)
  have dg': "dg \<in> set (db_groups (fst (fold (dispatch_one (clock_now S)) opn (empty_batch, W))))"
    using dg unfolding b dispatch_groups_def .
  have "\<exists>g \<in> set ([] @ opn). dispatched_as (snd (fold (dispatch_one (clock_now S)) opn (empty_batch, W))) g dg"
    by (rule dispatch_fold_batch [where f = "the_rs U" and c = "sc_cfg U", OF invW st(8,7) rmW _ _ _ _ dg'])
      (use st(5) quiet_formed [OF st(4) known] in \<open>auto simp: empty_batch_def\<close>)
  then obtain g where g: "g \<in> set opn" "dispatched_as ?D g dg" unfolding dispatch_groups_def by auto
  have "evolves W ?D" using dispatch_fold_inv [OF invW st(8,7) rmW] by (simp add: dispatch_groups_def)
  then have ev: "evolves U T"
    unfolding T using evolves_trans [OF quiet_evolves [OF st(4)]] evolves_trans quiet_evolves [OF age_waiting_quiet] by blast
  show ?thesis
  proof (rule that [OF _ _ ev _ st(1)])
    show "og_ok (sc_cfg S) (the_rs U) g" using st(5) g(1) cfg by simp
    show "distinct (og_rids g)" using st(8) g(1) by (auto simp: distinct_concat_iff)
    show "dispatched_as T g dg"
      using g(2) working_aged unfolding dispatched_as_def T by (auto intro: list_all2_mono)
    show "ready U r" if r: "r \<in> set (og_rids g)" for r
    proof -
      have "r \<in> set (concat (map og_rids opn))" using r g(1) by auto
      then have "r \<in> set (candidates U)" using st(6) by (metis set_mset_mset)
      then show ?thesis using in_candidates [OF sched_invD(6) [OF st(2)]] by blast
    qed
  qed
qed

text \<open>
  The member describes what the scheduler recorded: its request is executing under the member's generation
  and attempt, in the group and on its worker, for the token range of its next chunk, with the key of the group.
\<close>
definition recorded_member :: "SchedulerConfig \<Rightarrow> Impl \<Rightarrow> DispatchedGroup \<Rightarrow> ExecutableMember \<Rightarrow> bool" where
  "recorded_member c T dg m \<longleftrightarrow> (\<exists>s. reqs T (em_request_id m) = Some s \<and> is_active_work s \<and>
     rs_current_generation s = em_generation m \<and> rs_attempt s = em_attempt_id m \<and>
     rs_dispatched_worker s = dg_assigned_worker dg \<and> rs_current_group s = dg_group_id dg \<and>
     em_token_start m = ch_token_start (next_chunk s) \<and> em_token_count m = ch_token_count (next_chunk s) \<and>
     make_compat_key (rs_request s) c = eg_key (dg_group dg))"

lemma dispatched_as_length: "dispatched_as S g dg \<Longrightarrow> length (eg_members (dg_group dg)) = length (og_rids g)"
  unfolding dispatched_as_def by (metis list_all2_lengthD)

lemma run_cycle_nonempty:
  assumes "sched_inv pf {} S" "room (length (sc_requests S)) S" "run_cycle S = (res_ok b, T)" "dg \<in> set (db_groups b)"
  shows "eg_members (dg_group dg) \<noteq> []"
proof -
  obtain g U where g: "og_ok (sc_cfg S) (the_rs U) g" "dispatched_as T g dg"
    by (rule run_cycle_batch [OF assms]) (rule that; assumption)
  then show ?thesis using dispatched_as_length [OF g(2)] by (auto simp: og_ok_def)
qed

lemma run_cycle_recorded:
  assumes "reachable pf S" "room (length (sc_requests S)) S" "run_cycle S = (res_ok b, T)" "dg \<in> set (db_groups b)"
    and m: "m \<in> set (eg_members (dg_group dg))"
  shows "recorded_member (sc_cfg S) T dg m"
proof -
  obtain g U where g: "og_ok (sc_cfg S) (the_rs U) g" "dispatched_as T g dg" "evolves U T"
      "\<And>r. r \<in> set (og_rids g) \<Longrightarrow> ready U r" "U = sweep (clock_now S) (tick S)"
    by (rule run_cycle_batch [OF reachable_inv [OF assms(1)] assms(2-4)]) (rule that; assumption)
  let ?ms = "eg_members (dg_group dg)"
  have la: "list_all2 (working T (dg_assigned_worker dg) (dg_group_id dg)) (og_rids g) ?ms"
      and k: "eg_key (dg_group dg) = og_key g"
    using g(2) by (simp_all add: dispatched_as_def)
  obtain j where j: "j < length ?ms" "m = ?ms ! j" using m by (auto simp: in_set_conv_nth)
  let ?r = "og_rids g ! j"
  have w: "working T (dg_assigned_worker dg) (dg_group_id dg) ?r m" using la j by (simp add: list_all2_conv_all_nth)
  then obtain s where s: "reqs T ?r = Some s" "is_active_work s" "rs_current_generation s = em_generation m"
    "rs_dispatched_worker s = dg_assigned_worker dg" "rs_current_group s = dg_group_id dg" "member_of s ?r m"
    unfolding working_def by blast
  have r: "?r \<in> set (og_rids g)" using j(1) list_all2_lengthD [OF la] by simp
  obtain u where u: "reqs U ?r = Some u" using g(4) [OF r] by (auto simp: ready_def)
  have "rs_request s = rs_request u" using evolves_request [OF g(3) u s(1)] .
  moreover have "make_compat_key (rs_request (the_rs U ?r)) (sc_cfg S) = og_key g" using g(1) r by (simp add: og_ok_def)
  ultimately have "make_compat_key (rs_request s) (sc_cfg S) = eg_key (dg_group dg)" by (simp add: the_rs_eq [OF u] k)
  then show ?thesis using s by (auto simp: member_of_def recorded_member_def)
qed

lemma run_cycle_distinct:
  assumes "sched_inv pf {} S" "room (length (sc_requests S)) S" "run_cycle S = (res_ok b, T)" "dg \<in> set (db_groups b)"
  shows "distinct (map em_request_id (eg_members (dg_group dg)))"
proof -
  obtain g U where g: "dispatched_as T g dg" "distinct (og_rids g)"
    by (rule run_cycle_batch [OF assms]) (rule that; assumption)
  have "list_all2 (\<lambda>r m. em_request_id m = r) (og_rids g) (eg_members (dg_group dg))"
    using g(1) unfolding dispatched_as_def by (auto simp: working_def member_of_def intro: list_all2_mono)
  then have "map em_request_id (eg_members (dg_group dg)) = og_rids g"
    by (auto simp: list_all2_conv_all_nth intro!: nth_equalityI)
  then show ?thesis using g(2) by simp
qed

text \<open>The token range of a member is not empty and does not wrap.\<close>
lemma recorded_range:
  assumes "sched_inv pf {} T" "recorded_member c T dg m"
  shows "0 < unat (em_token_count m)" "unat (em_token_start m) + unat (em_token_count m) < 2 ^ 64"
proof -
  obtain s where s: "reqs T (em_request_id m) = Some s" "is_active_work s"
      "em_token_start m = ch_token_start (next_chunk s)" "em_token_count m = ch_token_count (next_chunk s)"
    using assms(2) unfolding recorded_member_def by blast
  have ok: "rs_ok pf (sc_cfg T) s" using sched_invD [OF assms(1)] table_okD s(1) by blast
  have fl: "rs_in_flight s" using s(2) by (simp add: is_active_work_def)
  note p = rs_okD(1) [OF ok] and i = executing_chunk(1) [OF ok fl]
  note n = plan_nth(2,3) [OF i [unfolded p]] and r = plan_chunk_range [OF i [unfolded p]]
  show "0 < unat (em_token_count m)" using n r unfolding s(3,4) next_chunk_def by (subst p) simp
  show "unat (em_token_start m) + unat (em_token_count m) < 2 ^ 64"
    using n r unat_lt_64 [of "remaining_prefill_tokens (rs_request s)"] unfolding s(3,4) next_chunk_def by (subst (1 2) p) simp
qed



text \<open>
  (C19) Dispatched work can complete: right after a cycle, a report that carries the identity, attempt and
  generation of any member of the returned batch, the current epoch, and either no worker identity or that of the
  group's worker with its registered boot identity, is accepted.
\<close>
theorem dispatched_work_accepted:
  assumes "reachable pf S" "room (length (sc_requests S)) S" "run_cycle S = (res_ok b, T)" "dg \<in> set (db_groups b)"
    and "m \<in> set (eg_members (dg_group dg))"
    and "mr_request_id r = em_request_id m" "mr_attempt_id r = em_attempt_id m" "mr_generation r = em_generation m"
    and "mr_epoch r = sc_epoch T" "sc_epoch T \<noteq> nil_id"
    and "mr_worker r = nil_id \<and> mr_boot r = nil_id \<or> mr_worker r = dg_assigned_worker dg \<and>
      (\<exists>x. map_of (sc_workers T) (dg_assigned_worker dg) = Some x \<and> mr_boot r = wd_boot_id (ws_desc x))"
  shows "is_ok (fst (report_completion pf r T))"
proof -
  have "recorded_member (sc_cfg S) T dg m" by (rule run_cycle_recorded [OF assms(1-5)])
  then obtain s where s: "reqs T (em_request_id m) = Some s" "is_active_work s" "rs_current_generation s = em_generation m"
      "rs_attempt s = em_attempt_id m" "rs_dispatched_worker s = dg_assigned_worker dg"
    unfolding recorded_member_def by blast
  have "completion_error r T = None"
    using s assms(6-11) by (auto simp: completion_error_def is_active_work_def is_terminal_lifecycle_def)
  then show ?thesis by (simp add: accepted_iff)
qed

theorem dispatched_work_accepted_witness:
  "\<exists>b dg m. run_cycle demo_queued = (res_ok b, demo_running) \<and> dg \<in> set (db_groups b) \<and> m \<in> set (eg_members (dg_group dg)) \<and>
     is_ok (fst (report_completion sample_platform (default_member_result\<lparr>mr_request_id := em_request_id m,
       mr_attempt_id := em_attempt_id m, mr_generation := em_generation m, mr_epoch := StrongId 1\<rparr>) demo_running))"
proof -
  obtain b dg where b: "run_cycle demo_queued = (res_ok b, demo_running)" "dg \<in> set (db_groups b)"
    using demo_running_state(3) by blast
  have r: "room (length (sc_requests demo_queued)) demo_queued" by (simp add: room_def demo_queued_state)
  have "eg_members (dg_group dg) \<noteq> []" by (rule run_cycle_nonempty [OF reachable_inv [OF demo_reachable(2)] r b])
  then obtain m where m: "m \<in> set (eg_members (dg_group dg))" by (cases "eg_members (dg_group dg)") auto
  let ?r = "default_member_result\<lparr>mr_request_id := em_request_id m,
       mr_attempt_id := em_attempt_id m, mr_generation := em_generation m, mr_epoch := StrongId 1\<rparr>"
  have "is_ok (fst (report_completion sample_platform ?r demo_running))"
    by (rule dispatched_work_accepted [OF demo_reachable(2) r b m])
      (simp_all add: demo_running_state nil_id_def default_member_result_def)
  with b m show ?thesis by blast
qed

end
