(* ===== verification/PF_Drive.thy ===== *)
theory PF_Drive
  imports PF_Batch
begin

text \<open>
  The in-process driver terminates: a measure of the work left never grows, and shrinks with every cycle
  that dispatches something, so the driver reaches a cycle that dispatches nothing.
\<close>

subsection \<open>The work left\<close>

text \<open>
  Chunks still to run on this attempt and on every retry left, counted twice, plus one while the
  request waits: dispatch takes the one, a completed chunk takes two and gives one back.
\<close>
definition work :: "Rs \<Rightarrow> nat" where
  "work s = (if is_live s
     then 2 * (nat (max_retries (rs_request s) - rs_retries_used s) * Suc (length (pl_chunks (rs_plan s)))
               + (length (pl_chunks (rs_plan s)) - unat (rs_next_chunk_index s)))
          + (if rs_lifecycle s = LC_queued then 1 else 0)
     else 0)"

definition total_work :: "Impl \<Rightarrow> nat" where
  "total_work S = asum (\<lambda>_ s. work s) (sc_requests S)"

definition shrinks :: "Impl \<Rightarrow> Impl \<Rightarrow> bool" where
  "shrinks S T \<longleftrightarrow> keys (sc_requests T) = keys (sc_requests S) \<and>
     (\<forall>r s. reqs S r = Some s \<longrightarrow> (\<exists>t. reqs T r = Some t \<and> work t \<le> work s))"

lemma shrinks_refl [simp]: "shrinks S S"
  by (auto simp: shrinks_def)

lemma shrinks_trans: "shrinks S T \<Longrightarrow> shrinks T U \<Longrightarrow> shrinks S U"
  unfolding shrinks_def by (metis order_trans)

lemma shrinksD: "shrinks S T \<Longrightarrow> reqs S r = Some s \<Longrightarrow> reqs T r = Some t \<Longrightarrow> work t \<le> work s"
  unfolding shrinks_def by (metis option.inject)

lemma total_work_sum: "distinct (keys (sc_requests S)) \<Longrightarrow> total_work S = (\<Sum>r\<in>set (keys (sc_requests S)). work (the (reqs S r)))"
  unfolding total_work_def by (rule asum_as_sum)

lemma shrinks_total:
  assumes "shrinks S T" "distinct (keys (sc_requests S))"
  shows "total_work T \<le> total_work S"
    and "reqs S r = Some s \<Longrightarrow> reqs T r = Some t \<Longrightarrow> work t < work s \<Longrightarrow> total_work T < total_work S"
proof -
  let ?K = "set (keys (sc_requests S))"
  have k: "keys (sc_requests T) = keys (sc_requests S)" using assms(1) by (simp add: shrinks_def)
  have le: "work (the (reqs T x)) \<le> work (the (reqs S x))" if x: "x \<in> ?K" for x
  proof -
    obtain v where v: "reqs S x = Some v" using map_of_keys_ex [OF x] by blast
    then obtain u where "reqs T x = Some u" "work u \<le> work v" using assms(1) unfolding shrinks_def by blast
    then show ?thesis using v by simp
  qed
  have sums: "total_work T = (\<Sum>x\<in>?K. work (the (reqs T x)))" "total_work S = (\<Sum>x\<in>?K. work (the (reqs S x)))"
    using total_work_sum [of T] total_work_sum [OF assms(2)] assms(2) by (simp_all add: k)
  show "total_work T \<le> total_work S" unfolding sums by (rule sum_mono) (rule le)
  assume r: "reqs S r = Some s" "reqs T r = Some t" "work t < work s"
  show "total_work T < total_work S"
    unfolding sums
  proof (rule sum_strict_mono_ex1)
    show "\<exists>x\<in>?K. work (the (reqs T x)) < work (the (reqs S x))" using map_of_keys [OF r(1)] r by (intro bexI [of _ r]) simp_all
  qed (use le in simp_all)
qed

lemma work_same:
  assumes "rs_request t = rs_request s" "rs_lifecycle t = rs_lifecycle s" "rs_plan t = rs_plan s"
    "rs_next_chunk_index t = rs_next_chunk_index s" "rs_retries_used t = rs_retries_used s"
  shows "work t = work s"
  using assms by (simp add: work_def is_live_def)

lemma quiet_shrinks: "quiet S T \<Longrightarrow> shrinks S T"
proof -
  assume q: "quiet S T"
  have "\<exists>t. reqs T r = Some t \<and> work t \<le> work s" if s: "reqs S r = Some s" for r s
  proof -
    obtain t where t: "reqs T r = Some t" "core t = core s" using quiet_reqs_back [OF q s] by blast
    have "work t = work s" by (rule work_same) (use core_eqD [OF t(2)] in simp_all)
    then show ?thesis using t(1) by simp
  qed
  then show ?thesis using q by (simp add: shrinks_def quiet_def)
qed

lemma moves_shrinks: "moves r s t S T \<Longrightarrow> work t \<le> work s \<Longrightarrow> shrinks S T"
  by (auto simp: moves_def shrinks_def)

lemma reserved_shrinks: "reserved_for rids S T \<Longrightarrow> shrinks S T"
proof -
  assume a: "reserved_for rids S T"
  have "\<exists>t. reqs T r = Some t \<and> work t \<le> work s" if s: "reqs S r = Some s" for r s
  proof -
    have "map_option bare (reqs T r) = Some (bare s)" using a s by (simp add: reserved_for_def)
    then obtain t where t: "reqs T r = Some t" "bare t = bare s" by auto
    have "work t = work s"
      by (rule work_same)
        (use arg_cong [OF t(2), of rs_request] arg_cong [OF t(2), of rs_lifecycle] arg_cong [OF t(2), of rs_plan]
          arg_cong [OF t(2), of rs_next_chunk_index] arg_cong [OF t(2), of rs_retries_used] in \<open>simp_all add: bare_def\<close>)
    then show ?thesis using t(1) by simp
  qed
  then show ?thesis using a by (simp add: shrinks_def reserved_for_def)
qed

lemma work_dispatched: "is_candidate s \<Longrightarrow> work (dispatched_rs n g w x s) \<le> work s"
  by (simp add: work_def is_live_def is_candidate_def is_terminal_lifecycle_def)

subsection \<open>A cycle\<close>

lemma sweep_one_shrinks: "reqs S r = Some s \<Longrightarrow> shrinks S (sweep_one now r S)"
proof -
  assume s: "reqs S r = Some s"
  let ?T = "upd_stats (\<lambda>st. st\<lparr>st_queue_delay_exceeded := st_queue_delay_exceeded st + 1\<rparr>) S"
  have e: "shrinks S' (expire_request now r S')" if "reqs S' r = Some s" for S'
    by (rule moves_shrinks [OF expire_moves [OF that]]) (simp add: work_def expired_rs_def is_live_def is_terminal_lifecycle_def)
  have "shrinks S ?T" by (rule quiet_shrinks) (simp add: quiet_def stat_of_def)
  then have t: "shrinks S (expire_request now r ?T)" by (rule shrinks_trans) (rule e, simp add: s)
  have "sweep_one now r S = S \<or> sweep_one now r S = expire_request now r S \<or> sweep_one now r S = expire_request now r ?T"
    unfolding sweep_one_def Let_def by meson
  then show ?thesis using e [OF s] t by (elim disjE) (simp_all only: shrinks_refl)
qed

lemma fold_shrinks:
  assumes "\<And>x S. P x S \<Longrightarrow> shrinks S (f x S)" "\<And>x y S. P y S \<Longrightarrow> P y (f x S)" "\<And>x. x \<in> set xs \<Longrightarrow> P x S"
  shows "shrinks S (fold f xs S)"
  using assms(3)
proof (induction xs arbitrary: S)
  case (Cons x xs)
  have "shrinks S (f x S)" by (rule assms(1)) (simp add: Cons.prems)
  moreover have "shrinks (f x S) (fold f xs (f x S))" by (rule Cons.IH) (simp add: Cons.prems assms(2))
  ultimately have "shrinks S (fold f xs (f x S))" by (rule shrinks_trans)
  then show ?case by simp
qed simp

lemma sweep_shrinks: "shrinks S (sweep now S)"
  unfolding sweep_def
proof (rule fold_shrinks [where P = "\<lambda>r S. r \<in> set (keys (sc_requests S))"])
  show "shrinks S (sweep_one now r S)" if "r \<in> set (keys (sc_requests S))" for r S
    using map_of_keys_ex [OF that] sweep_one_shrinks by blast
qed simp_all

lemma commit_group_shrinks:
  assumes g: "group_ready S g" and gen: "unat (sc_next_generation S) + length (og_rids g) < 2 ^ 64"
    and len: "length (eg_members (og_group g)) = length (og_rids g)"
  shows "shrinks S (snd (commit_group now w g (b, S)))"
proof -
  let ?gid = "eg_group_id (og_group g)" and ?g0 = "\<lparr>gs_group = og_group g, gs_worker = w, gs_outstanding = []\<rparr>"
  let ?U = "snd (commit_group now w g (b, S))"
  obtain gs n T where T: "commit_members now ?gid w 0 (og_rids g) (?g0, 0) S = ((gs, n), T)" by (metis surj_pair)
  have rdy: "ready S r" if "r \<in> set (og_rids g)" for r using g that by (simp add: group_ready_def)
  have some: "reqs S r \<noteq> None" if "r \<in> set (og_rids g)" for r using rdy [OF that] by (auto simp: ready_def)
  have dist: "distinct (og_rids g)" using g by (simp add: group_ready_def)
  note c = commit_members_group [OF T dist some _ gen, simplified, OF eq_imp_le [OF len [symmetric]]]
  have U: "reqs ?U = reqs T" "keys (sc_requests ?U) = keys (sc_requests T)" unfolding commit_group_def prod.case Let_def T by simp_all
  have "\<exists>t. reqs ?U r = Some t \<and> work t \<le> work s" if s: "reqs S r = Some s" for r s
  proof (cases "r \<in> set (og_rids g)")
    case True
    then obtain j where j: "j < length (og_rids g)" "r = og_rids g ! j" by (auto simp: in_set_conv_nth)
    obtain x where "reqs T r = Some (dispatched_rs now ?gid w x s)" using c j the_rs_eq [OF s] by auto
    moreover have "is_candidate s" using rdy [OF True] s by (auto simp: ready_def)
    ultimately show ?thesis using work_dispatched U(1) by auto
  next
    case False
    then show ?thesis using c s U(1) by auto
  qed
  moreover have "keys (sc_requests T) = keys (sc_requests S)" using c by blast
  ultimately show ?thesis by (simp add: shrinks_def U(2))
qed

lemma dispatch_one_shrinks:
  assumes inv: "sched_inv pf {} S" and g: "group_ready S g" "room (length (og_rids g)) S"
    "length (eg_members (og_group g)) = length (og_rids g)"
  shows "shrinks S (snd (dispatch_one now g (b, S)))"
proof (cases "eg_members (og_group g) = [] \<or> choose_worker (eg_backend (og_group g)) S = None")
  case True
  then show ?thesis
    using quiet_shrinks trace_all_quiet by (auto simp: dispatch_one_def)
next
  case False
  then obtain w where w: "eg_members (og_group g) \<noteq> []" "choose_worker (eg_backend (og_group g)) S = Some w" by auto
  obtain good acc T where r: "reserve_all (og_rids g) [] S = (good, acc, T)" by (metis surj_pair)
  have res: "reserved_for (og_rids g) S T" using reserve_all_inv [OF r inv] g by (auto simp: group_ready_def room_def)
  show ?thesis
  proof (cases good)
    case False
    have "shrinks T (fold unreserve acc T)"
    proof (rule fold_shrinks [where P = "\<lambda>_ _. True"])
      fix p :: "RequestId \<times> ReservationId" and S0
      have "reserved_for [fst p] S0 (unreserve p S0)" by (auto simp: reserved_for_def option.map_comp o_def)
      then show "shrinks S0 (unreserve p S0)" by (rule reserved_shrinks)
    qed simp_all
    then have "shrinks T (trace_all ''deferred: memory unavailable'' (og_rids g) (roll_back acc T))"
      unfolding roll_back_fold using shrinks_trans quiet_shrinks trace_all_quiet by blast
    then show ?thesis using w r False shrinks_trans [OF reserved_shrinks [OF res]] by (simp add: dispatch_one_def)
  next
    case True
    have gr: "group_ready T g" using g(1) reserved_ready [OF res] by (simp add: group_ready_def)
    have gen: "unat (sc_next_generation T) + length (og_rids g) < 2 ^ 64" using g(2) res by (simp add: room_def reserved_for_def)
    have "shrinks T (snd (commit_group now w g (b, T)))" by (rule commit_group_shrinks [OF gr gen g(3)])
    then show ?thesis using w r True shrinks_trans [OF reserved_shrinks [OF res]] by (simp add: dispatch_one_def)
  qed
qed

lemma dispatch_fold_shrinks:
  assumes "sched_inv pf {} S" "distinct (concat (map og_rids gs))" "\<And>r. r \<in> set (concat (map og_rids gs)) \<Longrightarrow> ready S r"
    "room (length (concat (map og_rids gs))) S" "\<And>g. g \<in> set gs \<Longrightarrow> og_ok c f g"
  shows "shrinks S (snd (fold (dispatch_one now) gs (b, S)))"
  using assms
proof (induction gs arbitrary: b S)
  case (Cons g gs)
  obtain b1 S1 where s1: "dispatch_one now g (b, S) = (b1, S1)" by fastforce
  have gr: "group_ready S g" "room (length (og_rids g)) S" using Cons.prems(2-4) by (auto simp: group_ready_def room_def)
  have d: "sched_inv pf {} S1" "touched (og_rids g) S S1"
    using dispatch_one_inv [OF Cons.prems(1) gr, of now b] s1 by simp_all
  have "list_all2 (\<lambda>r m. member_of (f r) r m) (og_rids g) (eg_members (og_group g))" using Cons.prems(5) [of g] by (simp add: og_ok_def)
  from list_all2_lengthD [OF this] have one: "shrinks S S1"
    using dispatch_one_shrinks [OF Cons.prems(1) gr, of now b] s1 by simp
  have "shrinks S1 (snd (fold (dispatch_one now) gs (b1, S1)))"
  proof (rule Cons.IH [OF d(1)])
    fix r assume r: "r \<in> set (concat (map og_rids gs))"
    then have "r \<notin> set (og_rids g)" using Cons.prems(2) by auto
    then have "reqs S1 r = reqs S r" using d(2) by (simp add: touched_def)
    then show "ready S1 r" using Cons.prems(3) [of r] r by (simp add: ready_def)
  next
    show "room (length (concat (map og_rids gs))) S1" using Cons.prems(4) d(2) by (simp add: room_def touched_def)
  qed (use Cons.prems(2,5) in auto)
  then show ?case using shrinks_trans [OF one] s1 by simp
qed simp

lemma work_parity: "is_live s \<Longrightarrow> odd (work s) \<longleftrightarrow> rs_lifecycle s = LC_queued"
  by (simp add: work_def)

lemma run_cycle_shrinks:
  assumes inv: "sched_inv pf {} S" and r: "room (length (sc_requests S)) S"
  shows "shrinks (sweep (clock_now S) (tick S)) (snd (run_cycle S))"
proof -
  obtain U opn W where st: "U = sweep (clock_now S) (tick S)" "sched_inv pf {} U" "evolves S U" "quiet U W"
    "\<forall>g \<in> set opn. og_ok (sc_cfg U) (the_rs U) g" "placed opn = mset (candidates U)"
    "\<And>r. r \<in> set (concat (map og_rids opn)) \<Longrightarrow> ready W r"
    "distinct (concat (map og_rids opn))" "length (concat (map og_rids opn)) \<le> length (sc_requests S)"
    "run_cycle S = (res_ok (fst (dispatch_groups (clock_now S) opn W)),
       refresh_gauges (age_waiting (snd (dispatch_groups (clock_now S) opn W))))"
    by (rule run_cycle_stages [OF inv]) (rule that; assumption)
  have rm: "room (length (concat (map og_rids opn))) W" using r st(4,9) unfolding st(1) by (simp add: room_def quiet_def)
  have "shrinks W (snd (dispatch_groups (clock_now S) opn W))"
    unfolding dispatch_groups_def
    by (rule dispatch_fold_shrinks [OF sched_inv_quiet [OF st(4,2)] st(8,7) rm bspec [OF st(5)]])
  from shrinks_trans [OF this quiet_shrinks [OF age_waiting_quiet]] have "shrinks W (snd (run_cycle S))" unfolding st(10) snd_conv .
  from shrinks_trans [OF quiet_shrinks [OF st(4)] this] show ?thesis unfolding st(1) .
qed

text \<open>A cycle never adds work; one that dispatches a group takes some away.\<close>
lemma run_cycle_work:
  assumes inv: "sched_inv pf {} S" and r: "room (length (sc_requests S)) S" and c: "run_cycle S = (res_ok b, T)"
  shows "total_work T \<le> total_work S" "db_groups b \<noteq> [] \<Longrightarrow> total_work T < total_work S"
proof -
  let ?U = "sweep (clock_now S) (tick S)"
  have tk: "quiet S (tick S)" by (simp add: quiet_def)
  have dS: "distinct (keys (sc_requests S))" by (rule sched_invD(6) [OF inv])
  have SU: "total_work ?U \<le> total_work S"
    by (rule shrinks_total(1) [OF shrinks_trans [OF quiet_shrinks [OF tk] sweep_shrinks] dS])
  have UT: "shrinks ?U T" using run_cycle_shrinks [OF inv r] c by simp
  have dU: "distinct (keys (sc_requests ?U))" using dS by simp
  show "total_work T \<le> total_work S" using shrinks_total(1) [OF UT dU] SU by linarith
  assume "db_groups b \<noteq> []"
  then obtain dg where dg: "dg \<in> set (db_groups b)" by (cases "db_groups b") auto
  obtain g U where g: "og_ok (sc_cfg S) (the_rs U) g" "dispatched_as T g dg" "evolves U T"
      "\<And>r. r \<in> set (og_rids g) \<Longrightarrow> ready U r" "U = ?U"
    by (rule run_cycle_batch [OF inv r c dg]) (rule that; assumption)
  obtain x xs where x: "og_rids g = x # xs" using g(1) by (cases "og_rids g") (auto simp: og_ok_def)
  then obtain m where "working T (dg_assigned_worker dg) (dg_group_id dg) x m"
    using g(2) by (auto simp: dispatched_as_def list_all2_Cons1)
  then obtain t where t: "reqs T x = Some t" "is_active_work t" unfolding working_def by blast
  obtain u where u: "reqs ?U x = Some u" "is_candidate u" using g(4) [of x] unfolding g(5) by (auto simp: x ready_def)
  have "work t \<le> work u" by (rule shrinksD [OF UT u(1) t(1)])
  moreover have "odd (work u)" using u(2) candidate_live [OF u(2)] work_parity [of u] by (simp add: is_candidate_def)
  moreover have "even (work t)"
    using t(2) work_parity [of t] by (simp add: is_active_work_def is_live_def is_terminal_lifecycle_def)
  ultimately have "work t < work u" by (metis order_le_less)
  then show "total_work T < total_work S" using shrinks_total(2) [OF UT dU u(1) t(1)] SU by linarith
qed

subsection \<open>Completions\<close>

lemma work_completed:
  assumes ok: "rs_ok pf c s" and s: "is_active_work s" "is_live s"
  shows "work (completed_rs pf c a oc s) \<le> work s"
proof (cases "outcome_final oc (accounted_rs s)")
  case (Some l)
  then have "l \<in> final_states" by (auto simp: outcome_final_def final_states_def split: if_splits)
  then have "work (completed_rs pf c a oc s) = 0"
    by (auto simp: work_def completed_rs_def Some is_live_def is_terminal_lifecycle_def final_states_def)
  then show ?thesis by simp
next
  case None
  let ?N = "length (pl_chunks (rs_plan s))" and ?R = "nat (max_retries (rs_request s) - rs_retries_used s)"
  have lc: "rs_lifecycle s = LC_dispatched" "rs_in_flight s" using s(1) by (simp_all add: is_active_work_def)
  have ws: "work s = 2 * (?R * Suc ?N + (?N - unat (rs_next_chunk_index s)))" using s(2) lc by (simp add: work_def)
  have acc: "rs_request (accounted_rs s) = rs_request s" "rs_plan (accounted_rs s) = rs_plan s"
    "rs_next_chunk_index (accounted_rs s) = rs_next_chunk_index s" "rs_retries_used (accounted_rs s) = rs_retries_used s"
    "rs_lifecycle (accounted_rs s) = rs_lifecycle s" by (simp_all add: accounted_rs_def Let_def)
  consider "oc = MO_stale_rejected" | "oc = MO_retryable_failure" "rs_retries_used s < max_retries (rs_request s)"
    | "oc \<noteq> MO_stale_rejected" "oc \<noteq> MO_retryable_failure" "unat (rs_next_chunk_index s + 1) < ?N"
    using None acc by (auto simp: outcome_final_def split: if_splits)
  then show ?thesis
  proof cases
    case 1
    then show ?thesis unfolding completed_rs_def None by (simp add: outcome_rs_def work_same [of "accounted_rs s" s] acc)
  next
    case 2
    have len: "length (pl_chunks (plan pf c (rs_request s) a (StrongId 0))) = ?N"
      using rs_okD(1) [OF ok] by (metis length_plan)
    have "?R = Suc (nat (max_retries (rs_request s) - (rs_retries_used s + 1)))" using 2(2) by simp
    then show ?thesis
      unfolding ws completed_rs_def None
      by (simp add: 2(1) outcome_rs_def retried_rs_def restarted_rs_def work_def is_live_def is_terminal_lifecycle_def acc len)
  next
    case 3
    have "unat (rs_next_chunk_index s + 1) = Suc (unat (rs_next_chunk_index s))"
      by (rule executing_chunk(3) [OF ok lc(2)])
    then show ?thesis
      using 3 unfolding ws completed_rs_def None
      by (simp add: outcome_rs_def advanced_rs_def work_def is_live_def is_terminal_lifecycle_def acc)
  qed
qed

text \<open>What the driver does between two cycles: it keeps the invariant, adds no work and takes no identity.\<close>
definition settles :: "platform \<Rightarrow> Impl \<Rightarrow> Impl \<Rightarrow> bool" where
  "settles pf S T \<longleftrightarrow> sched_inv pf {} T \<and> shrinks S T \<and> same_alloc S T"

lemma settles_trans: "settles pf S T \<Longrightarrow> settles pf T U \<Longrightarrow> settles pf S U"
  using shrinks_trans by (auto simp: settles_def same_alloc_def)

lemma quiet_settles: "quiet S T \<Longrightarrow> sched_inv pf {} S \<Longrightarrow> settles pf S T"
proof -
  assume q: "quiet S T" and inv: "sched_inv pf {} S"
  have "same_alloc S T" using q by (simp only: quiet_def same_alloc_def simp_thms)
  then show ?thesis unfolding settles_def using quiet_inv [OF q inv] quiet_shrinks [OF q] by blast
qed

lemma report_settles:
  assumes inv: "sched_inv pf {} S"
  shows "settles pf S (snd (report_completion pf r S))"
proof (cases "completion_error r S")
  case None
  then have ok: "is_ok (fst (report_completion pf r S))" by (simp add: accepted_iff)
  obtain s where s: "reqs S (mr_request_id r) = Some s" "is_active_work s" "is_live s" "rs_in_flight s"
    using accepted_active [OF inv ok] by metis
  have T: "snd (report_completion pf r S) = apply_completion pf r S" using None by (simp add: report_completion_def)
  note m = apply_completion_inv [OF inv s(1,4,3), unfolded completion_moves_def]
  then obtain s' where s': "moves (mr_request_id r) s s' S (apply_completion pf r S)"
    "same_progress (completed_rs pf (sc_cfg S) (StrongId (sc_next_attempt S)) (mr_outcome r) s) s'" by blast
  have "work s' = work (completed_rs pf (sc_cfg S) (StrongId (sc_next_attempt S)) (mr_outcome r) s)"
    by (rule work_same) (use s'(2) in \<open>simp_all add: same_progress_def\<close>)
  then have "work s' \<le> work s"
    using work_completed [OF table_okD(2) [OF sched_invD(1) [OF inv] s(1)] s(2,3)] by simp
  from moves_shrinks [OF s'(1) this] m show ?thesis unfolding T by (simp add: settles_def)
next
  case (Some p)
  then obtain e T where "completion_error r S = Some (e, T)" by (cases p) simp
  with completion_error_untouched [OF this] show ?thesis by (simp add: report_completion_def quiet_settles [OF _ inv])
qed

lemma report_all_settles: "sched_inv pf {} S \<Longrightarrow> settles pf S (report_all pf rs S)"
proof (induction rs arbitrary: S)
  case Nil
  then show ?case by (simp add: report_all_def settles_def same_alloc_def)
next
  case (Cons r rs)
  note a = report_settles [OF Cons.prems, of r]
  then have "sched_inv pf {} (snd (report_completion pf r S))" by (simp add: settles_def)
  from settles_trans [OF a Cons.IH [OF this]] show ?case by (simp add: report_all_def)
qed

lemma drive_group_reports: "\<exists>c rs. drive_group pf dg S = report_all pf rs (S\<lparr>sc_exec_calls := c\<rparr>)"
proof (cases "case map_of (sc_workers S) (dg_assigned_worker dg) of None \<Rightarrow> None | Some x \<Rightarrow> ws_local_exec x")
  case None
  have same: "S = S\<lparr>sc_exec_calls := sc_exec_calls S\<rparr>" by simp
  show ?thesis unfolding drive_group_def Let_def None option.case by (intro exI) (rule arg_cong [OF same])
next
  case (Some x)
  show ?thesis
  proof (cases "x_execute x (sc_exec_calls S) (dg_group dg) (resolve_tokens (sc_tokens S))")
    case (Inl e)
    show ?thesis unfolding drive_group_def Let_def Some option.case Inl sum.case by (intro exI) (rule refl)
  next
    case (Inr e)
    show ?thesis unfolding drive_group_def Let_def Some option.case Inr sum.case by (intro exI) (rule refl)
  qed
qed

lemma drive_group_settles:
  assumes inv: "sched_inv pf {} S"
  shows "settles pf S (drive_group pf dg S)"
proof -
  obtain c rs where d: "drive_group pf dg S = report_all pf rs (S\<lparr>sc_exec_calls := c\<rparr>)" using drive_group_reports by blast
  have t: "settles pf S (S\<lparr>sc_exec_calls := c\<rparr>)" by (rule quiet_settles [OF quiet_workers(6) inv])
  then have "sched_inv pf {} (S\<lparr>sc_exec_calls := c\<rparr>)" by (simp only: settles_def simp_thms)
  from settles_trans [OF t report_all_settles [OF this]] show ?thesis unfolding d .
qed

lemma drive_groups_settle: "sched_inv pf {} S \<Longrightarrow> settles pf S (fold (drive_group pf) gs S)"
proof (induction gs arbitrary: S)
  case Nil
  then show ?case by (simp add: settles_def same_alloc_def)
next
  case (Cons g gs)
  note a = drive_group_settles [OF Cons.prems, of g]
  then have "sched_inv pf {} (drive_group pf g S)" by (simp add: settles_def)
  from settles_trans [OF a Cons.IH [OF this]] show ?case by simp
qed

subsection \<open>The driver\<close>

lemma drive_quiesces:
  assumes "sched_inv pf {} S" "total_work S < n" "room (n * length (sc_requests S)) S"
  shows "\<exists>T b U. (\<forall>k. drive_until_quiescent pf (n + k) S = (res_ok (), U)) \<and> run_cycle T = (res_ok b, U) \<and> db_groups b = [] \<and> sched_inv pf {} U"
  using assms
proof (induction n arbitrary: S)
  case (Suc n)
  obtain b T where c: "run_cycle S = (res_ok b, T)" unfolding run_cycle_def by (simp add: Let_def case_prod_unfold)
  have rm: "room (length (sc_requests S)) S" using Suc.prems(3) by (simp add: room_def)
  have inv: "sched_inv pf {} T" using run_cycle_inv [OF Suc.prems(1) rm] c by simp
  show ?case
  proof (cases "db_groups b = []")
    case True
    then show ?thesis using c inv by (intro exI [of _ S] exI [of _ b] exI [of _ T]) (simp add: res_ok_def)
  next
    case False
    let ?V = "fold (drive_group pf) (db_groups b) T"
    have v: "sched_inv pf {} ?V" "shrinks T ?V" "same_alloc T ?V" using drive_groups_settle [OF inv] by (simp_all add: settles_def)
    note al = run_cycle_alloc [OF Suc.prems(1) rm, unfolded c snd_conv]
    have "keys (sc_requests ?V) = keys (sc_requests S)" using v(2) al(1) by (simp add: shrinks_def)
    then have len: "length (sc_requests ?V) = length (sc_requests S)" by (metis length_map)
    have "total_work ?V < n"
      using shrinks_total(1) [OF v(2) sched_invD(6) [OF inv]] run_cycle_work(2) [OF Suc.prems(1) rm c False] Suc.prems(2) by linarith
    moreover have "room (n * length (sc_requests ?V)) ?V"
      using Suc.prems(3) al(2,3) v(3) unfolding len by (simp add: room_def same_alloc_def)
    ultimately show ?thesis using Suc.IH [OF v(1)] c False by (simp add: res_ok_def)
  qed
qed simp

text \<open>
  (C4) The in-process driver finishes. From every reachable state, once the cycle bound exceeds the work
  left (chunks of the attempt and of every retry left, over all requests) the driver returns success in a
  state where a cycle has just dispatched nothing, whatever the executors answered on the way, and a larger
  bound changes neither the result nor the state.
\<close>
theorem drive_reaches_quiescence:
  assumes "reachable pf S" "total_work S < n" "room (n * length (sc_requests S)) S"
  shows "\<exists>T b U. (\<forall>k. drive_until_quiescent pf (n + k) S = (res_ok (), U)) \<and> run_cycle T = (res_ok b, U) \<and> db_groups b = []"
  using drive_quiesces [OF reachable_inv [OF assms(1)] assms(2,3)] by blast

lemma demo_work: "total_work demo_queued = 11"
proof -
  let ?cs = "pl_chunks (plan sample_platform sample_config demo_request (StrongId 1) (StrongId 0))"
  have r: "remaining_prefill_tokens demo_request \<noteq> 0" by (simp add: demo_remaining)
  have "length ?cs = 1" using plan_closed [OF r] by (simp add: demo_chunk)
  then have "work demo_rs = 11"
    by (simp add: work_def is_live_def is_terminal_lifecycle_def demo_rs_def admitted_rs_def default_rs_def demo_request_def default_request_def)
  then show ?thesis by (simp add: total_work_def asum_def demo_queued_state)
qed

theorem drive_reaches_quiescence_witness:
  "\<exists>T b U. (\<forall>k. drive_until_quiescent sample_platform (12 + k) demo_queued = (res_ok (), U)) \<and> run_cycle T = (res_ok b, U) \<and> db_groups b = []"
  by (rule drive_reaches_quiescence [OF demo_reachable(2)]) (simp_all add: demo_work room_def demo_queued_state)

end
