(* ===== verification/PF_Persist.thy ===== *)
theory PF_Persist
  imports PF_Compat
begin

text \<open>
  The persistence format of \<^verbatim>\<open>persistence.hpp\<close> and \<^verbatim>\<open>persistence.cpp\<close>: the persisted records, their
  writers and readers, the checksummed blob, and the file operations of \<^verbatim>\<open>FilePersistence\<close> over an
  explicit file store. The lemmas show that reading inverts writing, that every proper prefix of a
  blob and every blob with one payload byte changed is refused, and what an accepted blob guarantees.
\<close>

subsection \<open>Records\<close>

definition kPersistenceMagic :: u32 where "kPersistenceMagic = 0x50524631"
definition kPersistenceVersion :: u32 where "kPersistenceVersion = 1"

record PersistedRequestRecord =
  pq_request_id :: RequestId
  pq_attempt_id :: AttemptId
  pq_tenant_id :: TenantId
  pq_model :: ModelKey
  pq_adapter_id :: AdapterId
  pq_relation :: AdapterRelation
  pq_prompt_token_count :: u64
  pq_cached_tokens :: u64
  pq_completed_uncached_tokens :: u64
  pq_current_generation :: Generation
  pq_parent_generation :: Generation
  pq_next_chunk_token_start :: u64
  pq_work_kind :: WorkKind
  pq_lifecycle :: Lifecycle
  pq_priority :: int
  pq_tenant_weight :: f64
  pq_normalized_service :: f64
  pq_last_chunk_token_count :: u64
  pq_completed_token_total :: u64
  pq_needs_recovery_full_prefill :: bool
  pq_vocab :: VocabSpec
  pq_numeric_mode :: NumericMode
  pq_latency_class :: LatencyClass
  pq_deadline_ns :: int
  pq_arrival_ns :: int
  pq_has_deadline :: bool
  pq_has_queue_delay :: bool
  pq_max_queue_delay_ns :: int

record PersistedWorkerRecord =
  pw_worker_id :: WorkerId
  pw_boot_id :: WorkerBootId
  pw_host :: string
  pw_port :: u32
  pw_backend :: string
  pw_state :: WorkerState
  pw_capacity_units :: u64

record PersistedTenantRecord =
  pt_tenant_id :: TenantId
  pt_weight :: f64
  pt_scheduled_tokens :: u64
  pt_completed_requests :: u64
  pt_wait_total_ns :: int
  pt_outstanding :: u64
  pt_normalized_service :: f64

record PersistedState =
  ps_magic :: u32
  ps_version :: u32
  ps_epoch :: Epoch
  ps_next_generation_value :: u64
  ps_next_attempt_value :: u64
  ps_requests :: "PersistedRequestRecord list"
  ps_workers :: "PersistedWorkerRecord list"
  ps_tenants :: "PersistedTenantRecord list"
  ps_was_clean_shutdown :: bool

definition default_state :: PersistedState where
  "default_state = \<lparr>ps_magic = kPersistenceMagic, ps_version = kPersistenceVersion, ps_epoch = nil_id,
     ps_next_generation_value = 1, ps_next_attempt_value = 1, ps_requests = [], ps_workers = [], ps_tenants = [],
     ps_was_clean_shutdown = False\<rparr>"

subsection \<open>Writers\<close>

text \<open>\<^verbatim>\<open>w.u8(static_cast<std::uint8_t>(e))\<close> for an enumeration, and \<^verbatim>\<open>static_cast<E>(u8)\<close>.\<close>
definition put_enum :: "int \<Rightarrow> u8 list" where
  "put_enum code = put_u8 (word_of_int code)"

definition get_enum :: "(int \<Rightarrow> 'e) \<Rightarrow> 'e reader" where
  "get_enum of_code = rd_bind get_u8 (\<lambda>b. rd_return (of_code (uint b)))"

text \<open>\<^verbatim>\<open>w.u32(static_cast<std::uint32_t>(n))\<close> for an \<^verbatim>\<open>int\<close>, and \<^verbatim>\<open>static_cast<int>(u32)\<close>.\<close>
definition put_int :: "int \<Rightarrow> u8 list" where
  "put_int n = put_u32 (word_of_int n)"

definition get_int :: "int reader" where
  "get_int = rd_bind get_u32 (\<lambda>v. rd_return (sint v))"

definition write_req :: "PersistedRequestRecord \<Rightarrow> u8 list" where
  "write_req r =
     put_strong (pq_request_id r) @
     put_strong (pq_attempt_id r) @
     put_strong (pq_tenant_id r) @
     put_str (model_name (pq_model r)) @
     put_str (model_revision (pq_model r)) @
     put_strong (pq_adapter_id r) @
     put_enum (AdapterRelation_code (pq_relation r)) @
     put_u64 (pq_prompt_token_count r) @
     put_u64 (pq_cached_tokens r) @
     put_u64 (pq_completed_uncached_tokens r) @
     put_strong (pq_current_generation r) @
     put_strong (pq_parent_generation r) @
     put_u64 (pq_next_chunk_token_start r) @
     put_enum (WorkKind_code (pq_work_kind r)) @
     put_enum (Lifecycle_code (pq_lifecycle r)) @
     put_int (pq_priority r) @
     put_f64 (pq_tenant_weight r) @
     put_f64 (pq_normalized_service r) @
     put_u64 (pq_last_chunk_token_count r) @
     put_u64 (pq_completed_token_total r) @
     put_bool (pq_needs_recovery_full_prefill r) @
     put_str (tokenizer (pq_vocab r)) @
     put_u64 (vocab_size (pq_vocab r)) @
     put_enum (NumericMode_code (pq_numeric_mode r)) @
     put_enum (LatencyClass_code (pq_latency_class r)) @
     put_i64 (pq_deadline_ns r) @
     put_i64 (pq_arrival_ns r) @
     put_bool (pq_has_deadline r) @
     put_bool (pq_has_queue_delay r) @
     put_i64 (pq_max_queue_delay_ns r)"

definition write_worker :: "PersistedWorkerRecord \<Rightarrow> u8 list" where
  "write_worker a =
     put_strong (pw_worker_id a) @
     put_strong (pw_boot_id a) @
     put_str (pw_host a) @
     put_u32 (pw_port a) @
     put_str (pw_backend a) @
     put_enum (WorkerState_code (pw_state a)) @
     put_u64 (pw_capacity_units a)"

definition write_tenant :: "PersistedTenantRecord \<Rightarrow> u8 list" where
  "write_tenant t =
     put_strong (pt_tenant_id t) @
     put_f64 (pt_weight t) @
     put_u64 (pt_scheduled_tokens t) @
     put_u64 (pt_completed_requests t) @
     put_i64 (pt_wait_total_ns t) @
     put_u64 (pt_outstanding t) @
     put_f64 (pt_normalized_service t)"

text \<open>The payload, and the blob with its header, checksum and payload.\<close>
definition state_payload :: "PersistedState \<Rightarrow> u8 list" where
  "state_payload s =
     put_strong (ps_epoch s) @
     put_u64 (ps_next_generation_value s) @
     put_u64 (ps_next_attempt_value s) @
     put_bool (ps_was_clean_shutdown s) @
     put_u64 (of_nat (length (ps_requests s))) @ concat (map write_req (ps_requests s)) @
     put_u64 (of_nat (length (ps_workers s))) @ concat (map write_worker (ps_workers s)) @
     put_u64 (of_nat (length (ps_tenants s))) @ concat (map write_tenant (ps_tenants s))"

definition blob_header :: "u32 \<Rightarrow> u32 \<Rightarrow> u8 list \<Rightarrow> u8 list" where
  "blob_header magic version pl =
     put_u32 magic @ put_u32 version @ put_u32 0 @ put_u64 (of_nat (length pl)) @ put_u64 (fnv1a64 fnv_basis pl)"

definition serialize_state :: "PersistedState \<Rightarrow> u8 list Result" where
  "serialize_state s = res_ok (blob_header (ps_magic s) (ps_version s) (state_payload s) @ state_payload s)"

subsection \<open>Readers\<close>

definition read_req :: "PersistedRequestRecord reader" where
  "read_req =
     rd_bind get_strong (\<lambda>rid. rd_bind get_strong (\<lambda>att. rd_bind get_strong (\<lambda>ten.
     rd_bind get_str (\<lambda>name. rd_bind get_str (\<lambda>revision. rd_bind get_strong (\<lambda>adapter.
     rd_bind (get_enum AdapterRelation_of_code) (\<lambda>rel. rd_bind get_u64 (\<lambda>prompt. rd_bind get_u64 (\<lambda>cached.
     rd_bind get_u64 (\<lambda>compl. rd_bind get_strong (\<lambda>gen. rd_bind get_strong (\<lambda>parent.
     rd_bind get_u64 (\<lambda>start. rd_bind (get_enum WorkKind_of_code) (\<lambda>kind. rd_bind (get_enum Lifecycle_of_code) (\<lambda>lc.
     rd_bind get_int (\<lambda>prio. rd_bind get_f64 (\<lambda>weight. rd_bind get_f64 (\<lambda>service.
     rd_bind get_u64 (\<lambda>last. rd_bind get_u64 (\<lambda>total. rd_bind get_bool (\<lambda>needs.
     rd_bind get_str (\<lambda>tok. rd_bind get_u64 (\<lambda>vsize. rd_bind (get_enum NumericMode_of_code) (\<lambda>mode.
     rd_bind (get_enum LatencyClass_of_code) (\<lambda>lat. rd_bind get_i64 (\<lambda>dl. rd_bind get_i64 (\<lambda>arrival.
     rd_bind get_bool (\<lambda>has_dl. rd_bind get_bool (\<lambda>has_qd. rd_bind get_i64 (\<lambda>qd.
     rd_return
       \<lparr>pq_request_id = rid, pq_attempt_id = att, pq_tenant_id = ten,
        pq_model = \<lparr>model_name = name, model_revision = revision\<rparr>, pq_adapter_id = adapter, pq_relation = rel,
        pq_prompt_token_count = prompt, pq_cached_tokens = cached, pq_completed_uncached_tokens = compl,
        pq_current_generation = gen, pq_parent_generation = parent, pq_next_chunk_token_start = start,
        pq_work_kind = kind, pq_lifecycle = lc, pq_priority = prio, pq_tenant_weight = weight,
        pq_normalized_service = service, pq_last_chunk_token_count = last, pq_completed_token_total = total,
        pq_needs_recovery_full_prefill = needs, pq_vocab = \<lparr>tokenizer = tok, vocab_size = vsize\<rparr>,
        pq_numeric_mode = mode, pq_latency_class = lat, pq_deadline_ns = dl, pq_arrival_ns = arrival,
        pq_has_deadline = has_dl, pq_has_queue_delay = has_qd, pq_max_queue_delay_ns = qd\<rparr>))))))))))))))))))))))))))))))"

definition read_worker :: "PersistedWorkerRecord reader" where
  "read_worker =
     rd_bind get_strong (\<lambda>w. rd_bind get_strong (\<lambda>b. rd_bind get_str (\<lambda>host. rd_bind get_u32 (\<lambda>port.
     rd_bind get_str (\<lambda>backend. rd_bind (get_enum WorkerState_of_code) (\<lambda>st. rd_bind get_u64 (\<lambda>cap.
     rd_return \<lparr>pw_worker_id = w, pw_boot_id = b, pw_host = host, pw_port = port, pw_backend = backend,
       pw_state = st, pw_capacity_units = cap\<rparr>)))))))"

definition read_tenant :: "PersistedTenantRecord reader" where
  "read_tenant =
     rd_bind get_strong (\<lambda>t. rd_bind get_f64 (\<lambda>w. rd_bind get_u64 (\<lambda>sched. rd_bind get_u64 (\<lambda>compl.
     rd_bind get_i64 (\<lambda>wait. rd_bind get_u64 (\<lambda>out. rd_bind get_f64 (\<lambda>serv.
     rd_return \<lparr>pt_tenant_id = t, pt_weight = w, pt_scheduled_tokens = sched, pt_completed_requests = compl,
       pt_wait_total_ns = wait, pt_outstanding = out, pt_normalized_service = serv\<rparr>)))))))"

text \<open>A count, its sanity limit, and that many records.\<close>
definition read_counted :: "nat \<Rightarrow> ErrorInfo \<Rightarrow> 'a reader \<Rightarrow> 'a list reader" where
  "read_counted limit err g = rd_bind get_u64 (\<lambda>n.
     if limit < unat n then rd_fail err else get_list g (unat n))"

definition read_payload :: "u32 \<Rightarrow> u32 \<Rightarrow> PersistedState reader" where
  "read_payload magic version =
     rd_bind get_strong (\<lambda>e. rd_bind get_u64 (\<lambda>gen. rd_bind get_u64 (\<lambda>att. rd_bind get_bool (\<lambda>clean.
     rd_bind (read_counted (2 ^ 24) (mk_error EC_corrupt_state ''unreasonable request count'') read_req) (\<lambda>rs.
     rd_bind (read_counted (2 ^ 20) (mk_error EC_corrupt_state ''unreasonable worker count'') read_worker) (\<lambda>ws.
     rd_bind (read_counted (2 ^ 20) (mk_error EC_corrupt_state ''unreasonable tenant count'') read_tenant) (\<lambda>ts.
     rd_return \<lparr>ps_magic = magic, ps_version = version, ps_epoch = e, ps_next_generation_value = gen,
       ps_next_attempt_value = att, ps_requests = rs, ps_workers = ws, ps_tenants = ts,
       ps_was_clean_shutdown = clean\<rparr>)))))))"

text \<open>The semantic validation of the records, in order.\<close>
fun check_records :: "PersistedRequestRecord list \<Rightarrow> unit Result" where
  "check_records [] = res_ok ()"
| "check_records (rec # recs) =
     (if Lifecycle_code (pq_lifecycle rec) < Lifecycle_code LC_submitted \<or>
         Lifecycle_code LC_rejected < Lifecycle_code (pq_lifecycle rec)
      then res_err EC_corrupt_state ''bad lifecycle in record''
      else if pq_prompt_token_count rec < pq_cached_tokens rec
      then res_err EC_corrupt_state ''cached_tokens exceeds prompt length''
      else check_records recs)"

definition read_header :: "(u32 \<times> u32 \<times> u64 \<times> u64) reader" where
  "read_header = rd_bind get_u32 (\<lambda>magic. rd_bind get_u32 (\<lambda>version. rd_bind get_u32 (\<lambda>flags.
     rd_bind get_u64 (\<lambda>plen. rd_bind get_u64 (\<lambda>checksum. rd_return (magic, version, plen, checksum))))))"

definition deserialize_state :: "u8 list \<Rightarrow> PersistedState Result" where
  "deserialize_state blob =
     (case read_header (mk_reader blob) of
        (Inl e, _) \<Rightarrow> Inl e
      | (Inr (magic, version, plen, stored_checksum), r) \<Rightarrow>
          if magic \<noteq> kPersistenceMagic then res_err EC_corrupt_state ''bad magic''
          else if version \<noteq> kPersistenceVersion then res_err EC_unknown_version ''unsupported persistence version''
          else if length blob - rd_off r < unat plen then res_err EC_truncation ''payload length exceeds blob''
          else
            let pl = take (unat plen) (drop (rd_off r) blob) in
            if fnv1a64 fnv_basis pl \<noteq> stored_checksum then res_err EC_checksum_mismatch ''checksum mismatch''
            else case read_payload magic version (mk_reader pl) of
                   (Inl e, _) \<Rightarrow> Inl e
                 | (Inr s, pr) \<Rightarrow>
                     if rd_remaining pr \<noteq> 0 then res_err EC_corrupt_state ''trailing bytes in payload''
                     else case check_records (ps_requests s) of Inl e \<Rightarrow> Inl e | Inr _ \<Rightarrow> res_ok s)"

subsection \<open>Files\<close>

text \<open>
  The file store, and what the file system answers: whether a file opens for writing, whether the stream is good after
  the write and how many bytes have reached the file once the stream is closed, whether a file
  opens for reading, whether its size is known, and whether the read succeeds. Opening for writing empties the file.
\<close>
type_synonym files = "(string, u8 list) alist"

record FileSystem =
  fs_open_write :: "string \<Rightarrow> bool"
  fs_write_good :: "string \<Rightarrow> u8 list \<Rightarrow> bool"
  fs_stored :: "string \<Rightarrow> u8 list \<Rightarrow> nat"
  fs_open_read :: "string \<Rightarrow> bool"
  fs_size_known :: "string \<Rightarrow> bool"
  fs_read_good :: "string \<Rightarrow> bool"

definition save :: "FileSystem \<Rightarrow> PersistedState \<Rightarrow> string \<Rightarrow> files \<Rightarrow> unit Result \<times> files" where
  "save fs st path files =
     (case serialize_state st of
        Inl e \<Rightarrow> (Inl e, files)
      | Inr bytes \<Rightarrow>
          if \<not> fs_open_write fs path then (res_err EC_io_failure ''cannot open file for write'', files)
          else
            let files = AList.update path (take (fs_stored fs path bytes) bytes) files in
            if \<not> fs_write_good fs path bytes then (res_err EC_io_failure ''file write failed'', files)
            else (res_ok (), files))"

definition load :: "FileSystem \<Rightarrow> string \<Rightarrow> files \<Rightarrow> PersistedState Result" where
  "load fs path files =
     (case map_of files path of
        None \<Rightarrow> res_err EC_io_failure ''cannot open file for read''
      | Some bytes \<Rightarrow>
          if \<not> fs_open_read fs path then res_err EC_io_failure ''cannot open file for read''
          else if \<not> fs_size_known fs path then res_err EC_io_failure ''cannot determine file size''
          else if \<not> fs_read_good fs path \<and> bytes \<noteq> [] then res_err EC_io_failure ''file read failed''
          else deserialize_state bytes)"

subsection \<open>Reading inverts writing\<close>

text \<open>One byte carries the enumeration value.\<close>
definition enum_byte :: "('e \<Rightarrow> int) \<Rightarrow> (int \<Rightarrow> 'e) \<Rightarrow> 'e \<Rightarrow> bool" where
  "enum_byte code of_code e \<longleftrightarrow> of_code (uint (word_of_int (code e) :: u8)) = e"

definition int_range :: "nat \<Rightarrow> int \<Rightarrow> bool" where
  "int_range w n \<longleftrightarrow> - (2 ^ (w - 1)) \<le> n \<and> n < 2 ^ (w - 1)"

lemma reads_enum [codec]: "enum_byte code of_code e \<Longrightarrow> reads (get_enum of_code) (put_enum (code e)) e"
  unfolding get_enum_def put_enum_def enum_byte_def
  by (rule reads_bind_nil [OF reads_u8]) (simp add: reads_return)

lemma reads_int [codec]: "int_range 32 n \<Longrightarrow> reads get_int (put_int n) n"
proof -
  assume "int_range 32 n"
  then have "sint (word_of_int n :: u32) = n"
    using signed_take_bit_int_eq_self [of 31 n] by (simp add: int_range_def sint_sbintrunc')
  then show ?thesis unfolding get_int_def put_int_def
    by (intro reads_bind_nil [OF reads_u32]) (simp add: reads_return)
qed

lemma reads_i64_range [codec]: "int_range 64 n \<Longrightarrow> reads get_i64 (put_i64 n) n"
  by (rule reads_i64) (simp_all add: int_range_def)

definition str_fits :: "string \<Rightarrow> bool" where
  "str_fits s \<longleftrightarrow> length s \<le> 2 ^ 32"

lemma reads_str_fits [codec]: "str_fits s \<Longrightarrow> reads get_str (put_str s) s"
  by (rule reads_str) (simp add: str_fits_def)

lemma reads_return_eq: "v = w \<Longrightarrow> reads (rd_return v) [] w"
  by (simp add: reads_return)

lemmas reads_enums =
  reads_enum [of AdapterRelation_code AdapterRelation_of_code] reads_enum [of WorkKind_code WorkKind_of_code]
  reads_enum [of Lifecycle_code Lifecycle_of_code] reads_enum [of NumericMode_code NumericMode_of_code]
  reads_enum [of LatencyClass_code LatencyClass_of_code] reads_enum [of WorkerState_code WorkerState_of_code]

lemmas leaf_codec = reads_u8 reads_u16 reads_u32 reads_u64 reads_f64 reads_strong reads_bool
lemmas guarded_codec = reads_str_fits reads_int reads_i64_range reads_enums

text \<open>The records the format can carry.\<close>
definition req_fits :: "PersistedRequestRecord \<Rightarrow> bool" where
  "req_fits r \<longleftrightarrow>
     str_fits (model_name (pq_model r)) \<and> str_fits (model_revision (pq_model r)) \<and> str_fits (tokenizer (pq_vocab r)) \<and>
     enum_byte AdapterRelation_code AdapterRelation_of_code (pq_relation r) \<and>
     enum_byte WorkKind_code WorkKind_of_code (pq_work_kind r) \<and>
     enum_byte Lifecycle_code Lifecycle_of_code (pq_lifecycle r) \<and>
     enum_byte NumericMode_code NumericMode_of_code (pq_numeric_mode r) \<and>
     enum_byte LatencyClass_code LatencyClass_of_code (pq_latency_class r) \<and>
     int_range 32 (pq_priority r) \<and> int_range 64 (pq_deadline_ns r) \<and> int_range 64 (pq_arrival_ns r) \<and>
     int_range 64 (pq_max_queue_delay_ns r)"

definition worker_fits :: "PersistedWorkerRecord \<Rightarrow> bool" where
  "worker_fits a \<longleftrightarrow> str_fits (pw_host a) \<and> str_fits (pw_backend a) \<and>
     enum_byte WorkerState_code WorkerState_of_code (pw_state a)"

definition tenant_fits :: "PersistedTenantRecord \<Rightarrow> bool" where
  "tenant_fits t \<longleftrightarrow> int_range 64 (pt_wait_total_ns t)"

lemma read_write_req:
  assumes "req_fits r"
  shows "reads read_req (write_req r) r"
proof -
  note w = assms [unfolded req_fits_def]
  show ?thesis unfolding read_req_def write_req_def
    by (rule reads_bind reads_bind_nil, (rule leaf_codec | (rule guarded_codec, (simp add: w; fail))))+
      (rule reads_return_eq, simp)
qed

lemma read_write_worker:
  assumes "worker_fits r"
  shows "reads read_worker (write_worker r) r"
proof -
  note w = assms [unfolded worker_fits_def]
  show ?thesis unfolding read_worker_def write_worker_def
    by (rule reads_bind reads_bind_nil, (rule leaf_codec | (rule guarded_codec, (simp add: w; fail))))+
      (rule reads_return_eq, simp)
qed

lemma read_write_tenant:
  assumes "tenant_fits r"
  shows "reads read_tenant (write_tenant r) r"
proof -
  note w = assms [unfolded tenant_fits_def]
  show ?thesis unfolding read_tenant_def write_tenant_def
    by (rule reads_bind reads_bind_nil, (rule leaf_codec | (rule guarded_codec, (simp add: w; fail))))+
      (rule reads_return_eq, simp)
qed

lemma reads_counted:
  assumes "length vs \<le> limit" "limit < 2 ^ 64" "\<And>v. v \<in> set vs \<Longrightarrow> reads g (put v) v"
  shows "reads (read_counted limit err g) (put_u64 (of_nat (length vs)) @ concat (map put vs)) vs"
  unfolding read_counted_def
proof (rule reads_bind [OF reads_u64])
  have "unat (of_nat (length vs) :: u64) = length vs" using assms by (simp add: unat_of_nat_64)
  then show "reads (if limit < unat (of_nat (length vs) :: u64) then rd_fail err
      else get_list g (unat (of_nat (length vs) :: u64))) (concat (map put vs)) vs"
    using assms reads_list by auto
qed

text \<open>The states the format can carry.\<close>
definition state_fits :: "PersistedState \<Rightarrow> bool" where
  "state_fits s \<longleftrightarrow>
     length (ps_requests s) \<le> 2 ^ 24 \<and> length (ps_workers s) \<le> 2 ^ 20 \<and> length (ps_tenants s) \<le> 2 ^ 20 \<and>
     (\<forall>r \<in> set (ps_requests s). req_fits r) \<and> (\<forall>r \<in> set (ps_workers s). worker_fits r) \<and>
     (\<forall>r \<in> set (ps_tenants s). tenant_fits r)"

lemma read_payload_payload:
  assumes "state_fits s"
  shows "reads (read_payload (ps_magic s) (ps_version s)) (state_payload s) s"
proof -
  note f = assms [unfolded state_fits_def]
  have rq: "reads (read_counted (2 ^ 24) m read_req) (put_u64 (of_nat (length (ps_requests s))) @ concat (map write_req (ps_requests s))) (ps_requests s)"
    and rw: "reads (read_counted (2 ^ 20) m read_worker) (put_u64 (of_nat (length (ps_workers s))) @ concat (map write_worker (ps_workers s))) (ps_workers s)"
    and rt: "reads (read_counted (2 ^ 20) m read_tenant) (put_u64 (of_nat (length (ps_tenants s))) @ concat (map write_tenant (ps_tenants s))) (ps_tenants s)" for m
    using f by (auto intro!: reads_counted read_write_req read_write_worker read_write_tenant)
  have split: "state_payload s = put_strong (ps_epoch s) @ put_u64 (ps_next_generation_value s) @ put_u64 (ps_next_attempt_value s) @
      put_bool (ps_was_clean_shutdown s) @ (put_u64 (of_nat (length (ps_requests s))) @ concat (map write_req (ps_requests s))) @
      (put_u64 (of_nat (length (ps_workers s))) @ concat (map write_worker (ps_workers s))) @
      (put_u64 (of_nat (length (ps_tenants s))) @ concat (map write_tenant (ps_tenants s)))"
    by (simp add: state_payload_def)
  show ?thesis unfolding read_payload_def split
    by (intro reads_bind [OF reads_strong] reads_bind [OF reads_u64] reads_bind [OF reads_bool] reads_bind [OF rq] reads_bind [OF rw] reads_bind_nil [OF rt])
      (rule reads_return_eq, simp)
qed

subsection \<open>The blob\<close>

lemma put_lengths [simp]:
  "length (put_u8 a) = 1" "length (put_u32 b) = 4" "length (put_u64 c) = 8" "length (put_f64 d) = 8"
  "length (put_strong e) = 8" "length (put_i64 f) = 8" "length (put_bool g) = 1" "length (put_enum h) = 1"
  "length (put_int i) = 4" "length (put_str s) = 8 + length s"
  by (simp_all add: put_u8_def put_u32_def put_u64_def put_f64_def put_strong_def put_i64_def put_bool_def put_enum_def
    put_int_def put_str_def bytes_of_string_def)

lemma length_concat_le:
  "(\<And>x. x \<in> set xs \<Longrightarrow> length (f x) \<le> k) \<Longrightarrow> length (concat (map f xs)) \<le> length xs * k"
proof (induction xs)
  case (Cons x xs)
  then have "length (f x) \<le> k" "length (concat (map f xs)) \<le> length xs * k" by simp_all
  then show ?case by simp
qed simp

lemma record_lengths:
  "req_fits r \<Longrightarrow> length (write_req r) \<le> 2 ^ 34" "worker_fits w \<Longrightarrow> length (write_worker w) \<le> 2 ^ 34"
  "length (write_tenant t) \<le> 2 ^ 34"
  by (simp_all add: write_req_def write_worker_def write_tenant_def req_fits_def worker_fits_def str_fits_def)

lemma payload_fits:
  assumes "state_fits s"
  shows "length (state_payload s) < 2 ^ 64"
proof -
  note f = assms [unfolded state_fits_def]
  have "length (concat (map write_req (ps_requests s))) \<le> length (ps_requests s) * 2 ^ 34"
    using f record_lengths(1) by (intro length_concat_le) blast
  moreover have "length (concat (map write_worker (ps_workers s))) \<le> length (ps_workers s) * 2 ^ 34"
    using f record_lengths(2) by (intro length_concat_le) blast
  moreover have "length (concat (map write_tenant (ps_tenants s))) \<le> length (ps_tenants s) * 2 ^ 34"
    using record_lengths(3) by (intro length_concat_le) blast
  moreover have "length (ps_requests s) * 2 ^ 34 \<le> 2 ^ 24 * 2 ^ 34" "length (ps_workers s) * 2 ^ 34 \<le> 2 ^ 20 * 2 ^ 34"
      "length (ps_tenants s) * 2 ^ 34 \<le> 2 ^ 20 * 2 ^ 34"
    using f by (simp_all only: mult_le_mono1)
  ultimately show ?thesis by (simp add: state_payload_def)
qed

definition framed :: "u32 \<Rightarrow> u32 \<Rightarrow> u32 \<Rightarrow> u64 \<Rightarrow> u64 \<Rightarrow> u8 list" where
  "framed magic version flags plen checksum =
     put_u32 magic @ put_u32 version @ put_u32 flags @ put_u64 plen @ put_u64 checksum"

lemma length_framed [simp]: "length (framed m v f n c) = 28"
  by (simp add: framed_def)

lemma read_framed: "reads read_header (framed m v f n c) (m, v, n, c)"
  unfolding read_header_def framed_def
  by (rule reads_bind reads_bind_nil, rule leaf_codec)+ (rule reads_return_eq, simp)

lemma deserialize_framed:
  "deserialize_state (framed m v f n c @ body) =
     (if m \<noteq> kPersistenceMagic then res_err EC_corrupt_state ''bad magic''
      else if v \<noteq> kPersistenceVersion then res_err EC_unknown_version ''unsupported persistence version''
      else if length body < unat n then res_err EC_truncation ''payload length exceeds blob''
      else if fnv1a64 fnv_basis (take (unat n) body) \<noteq> c then res_err EC_checksum_mismatch ''checksum mismatch''
      else case read_payload m v (mk_reader (take (unat n) body)) of
             (Inl e, _) \<Rightarrow> Inl e
           | (Inr s, pr) \<Rightarrow>
               if rd_remaining pr \<noteq> 0 then res_err EC_corrupt_state ''trailing bytes in payload''
               else case check_records (ps_requests s) of Inl e \<Rightarrow> Inl e | Inr _ \<Rightarrow> res_ok s)"
proof -
  have "read_header (mk_reader (framed m v f n c @ body)) = (Inr (m, v, n, c), \<lparr>rd_data = framed m v f n c @ body, rd_off = 28\<rparr>)"
    using read_framed [of m v f n c, unfolded reads_def, rule_format, of "[]" body] by (simp add: mk_reader_def)
  then show ?thesis unfolding deserialize_state_def Let_def by simp
qed

text \<open>What the semantic validation asks of a record.\<close>
definition record_valid :: "PersistedRequestRecord \<Rightarrow> bool" where
  "record_valid r \<longleftrightarrow> 0 \<le> Lifecycle_code (pq_lifecycle r) \<and> Lifecycle_code (pq_lifecycle r) \<le> 12 \<and>
     pq_cached_tokens r \<le> pq_prompt_token_count r"

lemma check_records_ok: "check_records recs = res_ok () \<longleftrightarrow> (\<forall>r \<in> set recs. record_valid r)"
  by (induction recs) (auto simp: record_valid_def res_err_def res_ok_def)

definition state_valid :: "PersistedState \<Rightarrow> bool" where
  "state_valid s \<longleftrightarrow> ps_magic s = kPersistenceMagic \<and> ps_version s = kPersistenceVersion \<and> state_fits s \<and>
     (\<forall>r \<in> set (ps_requests s). record_valid r)"

lemma blob_framed:
  "serialize_state s = res_ok (framed (ps_magic s) (ps_version s) 0 (of_nat (length (state_payload s)))
     (fnv1a64 fnv_basis (state_payload s)) @ state_payload s)"
  by (simp add: serialize_state_def blob_header_def framed_def)

text \<open>A file system that fails none of the steps of saving and loading.\<close>
definition fs_works :: "FileSystem \<Rightarrow> string \<Rightarrow> u8 list \<Rightarrow> bool" where
  "fs_works fs path blob \<longleftrightarrow> fs_open_write fs path \<and> fs_write_good fs path blob \<and> fs_stored fs path blob = length blob \<and>
     fs_open_read fs path \<and> fs_size_known fs path \<and> fs_read_good fs path"

lemma persisted_state_rt:
  assumes "state_valid s" "serialize_state s = res_ok blob"
  shows "deserialize_state (blob @ rest) = res_ok s"
proof -
  let ?pl = "state_payload s"
  have v: "ps_magic s = kPersistenceMagic" "ps_version s = kPersistenceVersion" "state_fits s" "check_records (ps_requests s) = res_ok ()"
    using assms(1) by (simp_all add: state_valid_def check_records_ok)
  have n: "unat (of_nat (length ?pl) :: u64) = length ?pl" using payload_fits [OF v(3)] by (simp add: unat_of_nat_64)
  have r: "read_payload (ps_magic s) (ps_version s) (mk_reader ?pl) = (Inr s, \<lparr>rd_data = ?pl, rd_off = length ?pl\<rparr>)"
    using read_payload_payload [OF v(3), unfolded reads_def, rule_format, of "[]" "[]"] by (simp add: mk_reader_def)
  have "blob = framed (ps_magic s) (ps_version s) 0 (of_nat (length ?pl)) (fnv1a64 fnv_basis ?pl) @ ?pl"
    using assms(2) by (simp add: blob_framed res_ok_def)
  then show ?thesis using v r by (simp add: deserialize_framed n rd_remaining_def res_ok_def)
qed

text \<open>
  (C11) Round trip of the persistence format: every valid state (records the format can carry, counts within the
  limits, lifecycles in range, no prefix longer than its prompt) is read back unchanged from its
  blob, whatever bytes follow the blob; and a file saved without a failure of the file system
  is loaded as the state that was saved, whatever the file held before.
\<close>
theorem persisted_state_roundtrip:
  assumes "state_valid s" "serialize_state s = res_ok blob" "fs_works fs path blob"
  shows "deserialize_state (blob @ rest) = res_ok s \<and>
    save fs s path files = (res_ok (), AList.update path blob files) \<and>
    load fs path (AList.update path blob files) = res_ok s"
  using persisted_state_rt [OF assms(1,2)] persisted_state_rt [OF assms(1,2), of "[]"] assms(2,3)
  by (simp add: save_def load_def res_ok_def update_conv fs_works_def)

definition demo_record :: PersistedRequestRecord where
  "demo_record = \<lparr>pq_request_id = StrongId 7, pq_attempt_id = StrongId 1, pq_tenant_id = StrongId 3,
     pq_model = \<lparr>model_name = ''m'', model_revision = ''r''\<rparr>, pq_adapter_id = nil_id, pq_relation = AR_none,
     pq_prompt_token_count = 100, pq_cached_tokens = 20, pq_completed_uncached_tokens = 0,
     pq_current_generation = StrongId 4, pq_parent_generation = nil_id, pq_next_chunk_token_start = 0,
     pq_work_kind = WK_full_prompt, pq_lifecycle = LC_dispatched, pq_priority = - 5, pq_tenant_weight = f64_one,
     pq_normalized_service = f64_zero, pq_last_chunk_token_count = 0, pq_completed_token_total = 0,
     pq_needs_recovery_full_prefill = True, pq_vocab = \<lparr>tokenizer = ''bpe'', vocab_size = 32000\<rparr>,
     pq_numeric_mode = NM_fp16, pq_latency_class = LAT_standard, pq_deadline_ns = 0, pq_arrival_ns = 12,
     pq_has_deadline = False, pq_has_queue_delay = True, pq_max_queue_delay_ns = 1000\<rparr>"

definition demo_state :: PersistedState where
  "demo_state = default_state\<lparr>ps_epoch := StrongId 2, ps_requests := [demo_record],
     ps_workers := [\<lparr>pw_worker_id = StrongId 1, pw_boot_id = StrongId 2, pw_host = ''h'', pw_port = 80,
       pw_backend = ''cpu'', pw_state = WS_ready, pw_capacity_units = 1\<rparr>],
     ps_tenants := [\<lparr>pt_tenant_id = StrongId 3, pt_weight = f64_one, pt_scheduled_tokens = 80, pt_completed_requests = 0,
       pt_wait_total_ns = - 1, pt_outstanding = 1, pt_normalized_service = f64_zero\<rparr>]\<rparr>"

definition demo_fs :: FileSystem where
  "demo_fs = \<lparr>fs_open_write = (\<lambda>_. True), fs_write_good = (\<lambda>_ _. True), fs_stored = (\<lambda>_ bs. length bs),
     fs_open_read = (\<lambda>_. True), fs_size_known = (\<lambda>_. True), fs_read_good = (\<lambda>_. True)\<rparr>"

lemma demo_state_valid: "state_valid demo_state"
  by (simp add: state_valid_def demo_state_def default_state_def state_fits_def req_fits_def worker_fits_def tenant_fits_def
    record_valid_def demo_record_def str_fits_def int_range_def enum_byte_def AdapterRelation_of_code_def
    WorkKind_of_code_def Lifecycle_of_code_def NumericMode_of_code_def LatencyClass_of_code_def WorkerState_of_code_def)

definition demo_blob :: "u8 list" where
  "demo_blob = blob_header (ps_magic demo_state) (ps_version demo_state) (state_payload demo_state) @ state_payload demo_state"

lemma demo_blob: "serialize_state demo_state = res_ok demo_blob"
  by (simp add: serialize_state_def demo_blob_def)

lemma demo_blob_length: "28 < length demo_blob"
  by (simp add: demo_blob_def blob_header_def state_payload_def)

theorem persisted_state_roundtrip_witness:
  "deserialize_state (demo_blob @ [1, 2, 3]) = res_ok demo_state \<and>
    save demo_fs demo_state ''f'' [(''f'', [0])] = (res_ok (), AList.update ''f'' demo_blob [(''f'', [0])]) \<and>
    load demo_fs ''f'' (AList.update ''f'' demo_blob [(''f'', [0])]) = res_ok demo_state"
  by (rule persisted_state_roundtrip [OF demo_state_valid demo_blob]) (simp add: fs_works_def demo_fs_def)

lemma blob_split:
  assumes "serialize_state s = res_ok blob" "state_fits s"
  obtains n c where "blob = framed (ps_magic s) (ps_version s) 0 n c @ state_payload s" "unat n = length (state_payload s)"
    "c = fnv1a64 fnv_basis (state_payload s)"
proof
  show "blob = framed (ps_magic s) (ps_version s) 0 (of_nat (length (state_payload s))) (fnv1a64 fnv_basis (state_payload s)) @ state_payload s"
    using assms(1) by (simp add: blob_framed res_ok_def)
  show "unat (of_nat (length (state_payload s)) :: u64) = length (state_payload s)"
    using payload_fits [OF assms(2)] by (simp add: unat_of_nat_64)
qed (rule refl)

lemma short_header:
  "length bs < 28 \<Longrightarrow> deserialize_state bs = Inl err_trunc"
  by (simp add: deserialize_state_def read_header_def rd_bind_def get_u32_def get_u64_def get_le_def mk_reader_def)

text \<open>
  (C31) Truncation is detected: every proper prefix of the blob of a valid state is rejected as truncated.
\<close>
theorem truncated_blob_rejected:
  assumes "state_valid s" "serialize_state s = res_ok blob" "n < length blob"
  shows "\<exists>msg. deserialize_state (take n blob) = res_err EC_truncation msg"
proof -
  have v: "ps_magic s = kPersistenceMagic" "ps_version s = kPersistenceVersion" "state_fits s"
    using assms(1) by (simp_all add: state_valid_def)
  obtain k c where b: "blob = framed (ps_magic s) (ps_version s) 0 k c @ state_payload s" "unat k = length (state_payload s)"
    using blob_split [OF assms(2) v(3)] by metis
  show ?thesis
  proof (cases "n < 28")
    case True
    then have "deserialize_state (take n blob) = Inl err_trunc" by (intro short_header) simp
    then show ?thesis by (auto simp: err_trunc_def res_err_def)
  next
    case False
    then have "take n blob = framed (ps_magic s) (ps_version s) 0 k c @ take (n - 28) (state_payload s)" using b(1) by simp
    moreover have "length (take (n - 28) (state_payload s)) < unat k" using assms(3) False b by auto
    ultimately have "deserialize_state (take n blob) = res_err EC_truncation ''payload length exceeds blob''"
      using v by (simp add: deserialize_framed)
    then show ?thesis ..
  qed
qed

theorem truncated_blob_rejected_witness:
  "\<exists>msg. deserialize_state (take 28 demo_blob) = res_err EC_truncation msg"
  by (rule truncated_blob_rejected [OF demo_state_valid demo_blob demo_blob_length])

text \<open>
  (C14) Corruption is detected: changing any one byte of the payload of the blob of a valid state makes the
  checksum fail, so the blob is rejected.
\<close>
theorem corrupted_payload_rejected:
  assumes "state_valid s" "serialize_state s = res_ok blob" "28 \<le> i" "i < length blob" "b \<noteq> blob ! i"
  shows "deserialize_state (blob[i := b]) = res_err EC_checksum_mismatch ''checksum mismatch''"
proof -
  let ?pl = "state_payload s"
  have v: "ps_magic s = kPersistenceMagic" "ps_version s = kPersistenceVersion" "state_fits s"
    using assms(1) by (simp_all add: state_valid_def)
  obtain k c where bl: "blob = framed (ps_magic s) (ps_version s) 0 k c @ ?pl" "unat k = length ?pl" "c = fnv1a64 fnv_basis ?pl"
    using blob_split [OF assms(2) v(3)] by metis
  have i: "i - 28 < length ?pl" using assms(3,4) bl(1) by simp
  have upd: "blob[i := b] = framed (ps_magic s) (ps_version s) 0 k c @ ?pl[i - 28 := b]"
    using assms(3) by (simp add: bl(1) list_update_append)
  have "fnv1a64 fnv_basis (?pl[i - 28 := b]) \<noteq> fnv1a64 fnv_basis ?pl"
  proof
    assume "fnv1a64 fnv_basis (?pl[i - 28 := b]) = fnv1a64 fnv_basis ?pl"
    then have "b = ?pl ! (i - 28)" using i
      by (intro fnv_detects_byte [of fnv_basis "take (i - 28) ?pl" b "drop (Suc (i - 28)) ?pl"])
        (simp only: upd_conv_take_nth_drop [symmetric] id_take_nth_drop [OF i, symmetric])
    then show False using assms(3,5) bl(1) by (simp add: nth_append)
  qed
  then show ?thesis unfolding upd using v bl(2,3) by (simp add: deserialize_framed)
qed

theorem corrupted_payload_rejected_witness:
  "deserialize_state (demo_blob[28 := NOT (demo_blob ! 28)]) = res_err EC_checksum_mismatch ''checksum mismatch''"
proof (rule corrupted_payload_rejected [OF demo_state_valid demo_blob order_refl demo_blob_length])
  have "bit (NOT b) 0 \<noteq> bit b 0" for b :: u8 by (simp add: bit_simps)
  then show "NOT (demo_blob ! 28) \<noteq> demo_blob ! 28" by metis
qed

subsection \<open>What an accepted blob guarantees\<close>

definition delivers :: "'a reader \<Rightarrow> ('a \<Rightarrow> bool) \<Rightarrow> bool" where
  "delivers g P \<longleftrightarrow> (\<forall>r v r'. g r = (Inr v, r') \<longrightarrow> P v)"

lemma delivers_any: "delivers g (\<lambda>_. True)"
  by (simp add: delivers_def)

lemma delivers_return: "P v \<Longrightarrow> delivers (rd_return v) P"
  by (simp add: delivers_def rd_return_def)

lemma delivers_bind:
  assumes "delivers g Q" "\<And>v. Q v \<Longrightarrow> delivers (h v) P"
  shows "delivers (rd_bind g h) P"
  using assms unfolding delivers_def rd_bind_def by (fastforce split: prod.splits sum.splits)

lemma delivers_str: "delivers get_str str_fits"
  unfolding get_str_def
  by (rule delivers_bind [OF delivers_any])
    (auto simp: delivers_def str_fits_def split: if_splits)

lemma delivers_enum:
  assumes "\<And>n. code (of_code n) = n"
  shows "delivers (get_enum of_code) (enum_byte code of_code)"
  unfolding get_enum_def
  by (rule delivers_bind [OF delivers_any delivers_return]) (simp add: enum_byte_def assms)

lemma delivers_int: "delivers get_int (int_range 32)"
  unfolding get_int_def
proof (rule delivers_bind [OF delivers_any delivers_return])
  show "int_range 32 (sint v)" for v :: u32
    using sint_lt [of v] sint_ge [of v] by (simp add: int_range_def)
qed

lemma delivers_i64: "delivers get_i64 (int_range 64)"
  unfolding get_i64_def
proof (rule delivers_bind [OF delivers_any delivers_return])
  show "int_range 64 (sint v)" for v :: u64
    using sint_lt [of v] sint_ge [of v] by (simp add: int_range_def)
qed

lemma delivers_list: "delivers g P \<Longrightarrow> delivers (get_list g n) (\<lambda>vs. length vs = n \<and> (\<forall>v \<in> set vs. P v))"
proof (induction n)
  case (Suc n)
  show ?case unfolding get_list.simps
    by (rule delivers_bind [OF Suc.prems], rule delivers_bind [OF Suc.IH [OF Suc.prems]], rule delivers_return) simp
qed (simp add: delivers_return)

lemma delivers_counted:
  assumes "delivers g P"
  shows "delivers (read_counted limit err g) (\<lambda>vs. length vs \<le> limit \<and> (\<forall>v \<in> set vs. P v))"
  unfolding read_counted_def
proof (rule delivers_bind [OF delivers_any])
  fix n :: u64
  show "delivers (if limit < unat n then rd_fail err else get_list g (unat n))
      (\<lambda>vs. length vs \<le> limit \<and> (\<forall>v \<in> set vs. P v))"
    using delivers_list [OF assms, of "unat n"] by (auto simp: delivers_def rd_fail_def)
qed

lemmas delivers_enums =
  delivers_enum [of AdapterRelation_code AdapterRelation_of_code, OF arel.code_of_code]
  delivers_enum [of WorkKind_code WorkKind_of_code, OF wkind.code_of_code]
  delivers_enum [of Lifecycle_code Lifecycle_of_code, OF lcyc.code_of_code]
  delivers_enum [of NumericMode_code NumericMode_of_code, OF nm.code_of_code]
  delivers_enum [of LatencyClass_code LatencyClass_of_code, OF latc.code_of_code]
  delivers_enum [of WorkerState_code WorkerState_of_code, OF wstate.code_of_code]

lemmas delivers_leaf = delivers_str delivers_enums delivers_int delivers_i64 delivers_any

lemma read_req_delivers: "delivers read_req req_fits"
  unfolding read_req_def by ((rule delivers_bind, rule delivers_leaf)+, rule delivers_return) (simp add: req_fits_def)

lemma read_worker_delivers: "delivers read_worker worker_fits"
  unfolding read_worker_def by ((rule delivers_bind, rule delivers_leaf)+, rule delivers_return) (simp add: worker_fits_def)

lemma read_tenant_delivers: "delivers read_tenant tenant_fits"
  unfolding read_tenant_def by ((rule delivers_bind, rule delivers_leaf)+, rule delivers_return) (simp add: tenant_fits_def)

lemma read_payload_delivers: "delivers (read_payload m v) (\<lambda>s. state_fits s \<and> ps_magic s = m \<and> ps_version s = v)"
  unfolding read_payload_def
  by (rule delivers_bind [OF delivers_any], rule delivers_bind [OF delivers_any], rule delivers_bind [OF delivers_any],
      rule delivers_bind [OF delivers_any], rule delivers_bind [OF delivers_counted [OF read_req_delivers]],
      rule delivers_bind [OF delivers_counted [OF read_worker_delivers]],
      rule delivers_bind [OF delivers_counted [OF read_tenant_delivers]], rule delivers_return)
    (simp add: state_fits_def)

text \<open>
  (C30) Soundness of reading: a blob that is accepted, whatever bytes it consists of, yields a valid state
  (magic, version, counts, string lengths, lifecycles and prefixes as required), and writing that
  state gives a blob that is read back as the same state.
\<close>
theorem accepted_blob_valid:
  assumes "deserialize_state blob = res_ok s"
  shows "state_valid s \<and> (\<exists>blob'. serialize_state s = res_ok blob' \<and> deserialize_state blob' = res_ok s)"
proof -
  obtain m v n c r where h: "read_header (mk_reader blob) = (Inr (m, v, n, c), r)"
    using assms unfolding deserialize_state_def by (auto simp: res_ok_def split: prod.splits sum.splits)
  let ?pl = "take (unat n) (drop (rd_off r) blob)"
  have mv: "m = kPersistenceMagic" "v = kPersistenceVersion"
    using assms unfolding deserialize_state_def h by (auto simp: Let_def split: if_splits)
  obtain pr where p: "read_payload m v (mk_reader ?pl) = (Inr s, pr)" "check_records (ps_requests s) = res_ok ()"
    using assms unfolding deserialize_state_def h by (auto simp: Let_def res_ok_def res_err_def split: if_splits prod.splits sum.splits)
  have "state_fits s \<and> ps_magic s = m \<and> ps_version s = v" using read_payload_delivers p(1) unfolding delivers_def by blast
  then have valid: "state_valid s" using mv p(2) by (simp add: state_valid_def check_records_ok)
  have "serialize_state s = res_ok (blob_header (ps_magic s) (ps_version s) (state_payload s) @ state_payload s)"
    by (simp add: serialize_state_def)
  with valid persisted_state_rt [OF valid this, of "[]"] show ?thesis by simp
qed

theorem accepted_blob_valid_witness:
  "state_valid demo_state \<and> (\<exists>blob'. serialize_state demo_state = res_ok blob' \<and> deserialize_state blob' = res_ok demo_state)"
  by (rule accepted_blob_valid [of "demo_blob @ []"]) (rule persisted_state_rt [OF demo_state_valid demo_blob])

text \<open>The work kind of a record is not validated: a value that is no enumerator is accepted.\<close>
lemma work_kind_unchecked:
  "\<exists>blob. deserialize_state blob = res_ok (demo_state\<lparr>ps_requests := [demo_record\<lparr>pq_work_kind := WK_other 200\<rparr>]\<rparr>)"
proof -
  let ?s = "demo_state\<lparr>ps_requests := [demo_record\<lparr>pq_work_kind := WK_other 200\<rparr>]\<rparr>"
  have "state_valid ?s"
    using demo_state_valid
    by (simp add: state_valid_def demo_state_def default_state_def state_fits_def req_fits_def record_valid_def demo_record_def
      enum_byte_def WorkKind_of_code_def)
  from persisted_state_rt [OF this serialize_state_def] show ?thesis by blast
qed

end
