(* ===== verification/PF_Recover.thy ===== *)
theory PF_Recover
  imports PF_Account PF_Persist
begin

text \<open>
  Export, import, persist and recover of \<^verbatim>\<open>scheduler.cpp\<close>: the snapshot the scheduler writes, and the state it
  rebuilds from one. The lemmas show what recovery keeps (identities, attempts, terminal outcomes,
  no request in flight, no chunk skipped) and what it loses.
\<close>

subsection \<open>Export\<close>

definition exported_request :: "RequestId \<times> Rs \<Rightarrow> PersistedRequestRecord" where
  "exported_request kv =
     (let s = snd kv; r = rs_request s in
      \<lparr>pq_request_id = fst kv, pq_attempt_id = rs_attempt s, pq_tenant_id = tenant_id r, pq_model = req_model r,
       pq_adapter_id = adapter_id r, pq_relation = adapter_relation r, pq_prompt_token_count = prompt_token_count r,
       pq_cached_tokens = prefix_token_count (reusable_prefix r),
       pq_completed_uncached_tokens = rs_completed_uncached s, pq_current_generation = rs_current_generation s,
       pq_parent_generation = (case pl_chunks (rs_plan s) of [] \<Rightarrow> StrongId 0 | c # _ \<Rightarrow> ch_parent_generation c),
       pq_next_chunk_token_start = (if has_pending_chunk s then ch_token_start (next_chunk s) else remaining_prefill_tokens r),
       pq_work_kind = rs_last_work_kind s, pq_lifecycle = rs_lifecycle s, pq_priority = priority r,
       pq_tenant_weight = tenant_weight r, pq_normalized_service = rs_normalized_service s,
       pq_last_chunk_token_count = 0, pq_completed_token_total = rs_completed_token_total s,
       pq_needs_recovery_full_prefill = rs_in_flight s, pq_vocab = req_vocab r, pq_numeric_mode = numeric_mode r,
       pq_latency_class = latency_class r,
       pq_deadline_ns = (case deadline r of None \<Rightarrow> 0 | Some d \<Rightarrow> d), pq_arrival_ns = rs_admit_time s,
       pq_has_deadline = (deadline r \<noteq> None), pq_has_queue_delay = (max_queue_delay r \<noteq> None),
       pq_max_queue_delay_ns = (case max_queue_delay r of None \<Rightarrow> 0 | Some d \<Rightarrow> d)\<rparr>)"

definition exported_worker :: "WorkerId \<times> Ws \<Rightarrow> PersistedWorkerRecord" where
  "exported_worker kv =
     (let d = ws_desc (snd kv) in
      \<lparr>pw_worker_id = fst kv, pw_boot_id = wd_boot_id d, pw_host = wd_host d, pw_port = wd_port d,
       pw_backend = wd_backend d, pw_state = wd_state d, pw_capacity_units = wd_capacity_units d\<rparr>)"

definition exported_tenant :: "TenantId \<times> TenantService \<Rightarrow> PersistedTenantRecord" where
  "exported_tenant kv =
     (let t = snd kv in
      \<lparr>pt_tenant_id = fst kv, pt_weight = ts_weight t, pt_scheduled_tokens = ts_scheduled_tokens t,
       pt_completed_requests = ts_completed_requests t, pt_wait_total_ns = ts_wait_total_ns t,
       pt_outstanding = ts_outstanding t, pt_normalized_service = ts_normalized_service t\<rparr>)"

definition export_state :: "Impl \<Rightarrow> PersistedState" where
  "export_state S = default_state
     \<lparr>ps_epoch := sc_epoch S, ps_next_generation_value := sc_next_generation S,
      ps_next_attempt_value := sc_next_attempt S, ps_was_clean_shutdown := (sc_groups S = []),
      ps_requests := map exported_request (sc_requests S),
      ps_workers := map exported_worker (sc_workers S),
      ps_tenants := map exported_tenant (sc_tenants S)\<rparr>"

subsection \<open>Import\<close>

text \<open>The request rebuilt from a record: every field that is not persisted keeps its initialiser.\<close>
definition persisted_request :: "PersistedRequestRecord \<Rightarrow> PrefillRequest" where
  "persisted_request rec = default_request
     \<lparr>request_id := pq_request_id rec, tenant_id := pq_tenant_id rec, req_model := pq_model rec,
      adapter_id := pq_adapter_id rec, adapter_relation := pq_relation rec,
      prompt_token_count := pq_prompt_token_count rec,
      reusable_prefix := (reusable_prefix default_request)\<lparr>prefix_token_count := pq_cached_tokens rec\<rparr>,
      req_vocab := pq_vocab rec, numeric_mode := pq_numeric_mode rec, latency_class := pq_latency_class rec,
      priority := pq_priority rec, tenant_weight := pq_tenant_weight rec, arrival_time := pq_arrival_ns rec,
      deadline := (if pq_has_deadline rec then Some (pq_deadline_ns rec) else None),
      max_queue_delay := (if pq_has_queue_delay rec then Some (pq_max_queue_delay_ns rec) else None)\<rparr>"

definition restored_rs :: "platform \<Rightarrow> SchedulerConfig \<Rightarrow> PersistedRequestRecord \<Rightarrow> Rs \<Rightarrow> Rs" where
  "restored_rs pf c rec s =
     (let r = persisted_request rec;
          s = s\<lparr>rs_request := r, rs_attempt := pq_attempt_id rec, rs_lifecycle := pq_lifecycle rec,
                rs_plan := plan pf c r (pq_attempt_id rec) (StrongId 0),
                rs_completed_token_total := pq_completed_token_total rec,
                rs_current_generation := pq_current_generation rec,
                rs_normalized_service := pq_normalized_service rec, rs_admit_time := pq_arrival_ns rec,
                rs_last_work_kind := pq_work_kind rec, rs_retries_used := 0, rs_recovered_work := False,
                rs_completed_uncached := 0, rs_trace := [''recovered from persistence'']\<rparr>;
          s = (if remaining_prefill_tokens r \<le> pq_next_chunk_token_start rec
               then s\<lparr>rs_next_chunk_index := of_nat (length (pl_chunks (rs_plan s))),
                      rs_completed_uncached := remaining_prefill_tokens r\<rparr>
               else s\<lparr>rs_next_chunk_index := index_for_token_start (rs_plan s) (pq_next_chunk_token_start rec)\<rparr>)
      in if rs_lifecycle s = LC_dispatched \<or> rs_lifecycle s = LC_running
         then add_trace ''reconciled in-flight-at-death work conservatively (redo chunk)''
                (s\<lparr>rs_lifecycle := LC_queued, rs_in_flight := False, rs_current_generation := StrongId 0,
                   rs_recovered_work := True\<rparr>)
         else s)"

definition import_request :: "platform \<Rightarrow> PersistedRequestRecord \<Rightarrow> Impl \<Rightarrow> Impl" where
  "import_request pf rec S =
     (let r = persisted_request rec;
          s = restored_rs pf (sc_cfg S) rec (the_rs S (pq_request_id rec));
          S = S\<lparr>sc_requests := AList.update (pq_request_id rec) s (sc_requests S)\<rparr>
      in upd_tenant (tenant_id r) (\<lambda>ts.
           let ts = (if f64_le (ts_weight ts) f64_zero then ts\<lparr>ts_weight := tenant_weight r\<rparr> else ts)
           in if \<not> is_terminal_lifecycle (rs_lifecycle s)
              then ts\<lparr>ts_outstanding := ts_outstanding ts + 1,
                      ts_admitted_tokens := ts_admitted_tokens ts + remaining_prefill_tokens r\<rparr>
              else ts) S)"

definition import_worker :: "PersistedWorkerRecord \<Rightarrow> Impl \<Rightarrow> Impl" where
  "import_worker rec S =
     S\<lparr>sc_workers := modify_default \<lparr>ws_desc = default_worker, ws_busy_units = 0, ws_local_exec = None\<rparr> (pw_worker_id rec)
         (\<lambda>ws. ws\<lparr>ws_desc := (ws_desc ws)\<lparr>wd_worker_id := pw_worker_id rec, wd_boot_id := pw_boot_id rec, wd_host := pw_host rec,
                    wd_port := pw_port rec, wd_backend := pw_backend rec, wd_state := pw_state rec,
                    wd_capacity_units := pw_capacity_units rec\<rparr>,
                 ws_busy_units := 0, ws_local_exec := None\<rparr>) (sc_workers S)\<rparr>"

definition import_tenant :: "PersistedTenantRecord \<Rightarrow> Impl \<Rightarrow> Impl" where
  "import_tenant rec S =
     S\<lparr>sc_tenants := AList.update (pt_tenant_id rec)
         (default_tenant\<lparr>ts_weight := pt_weight rec, ts_scheduled_tokens := pt_scheduled_tokens rec,
            ts_completed_requests := pt_completed_requests rec, ts_wait_total_ns := pt_wait_total_ns rec,
            ts_outstanding := pt_outstanding rec, ts_normalized_service := pt_normalized_service rec\<rparr>) (sc_tenants S)\<rparr>"

definition import_state :: "platform \<Rightarrow> PersistedState \<Rightarrow> Impl \<Rightarrow> unit Result \<times> Impl" where
  "import_state pf st S =
     (let S = S\<lparr>sc_epoch := ps_epoch st,
                sc_next_generation := (if sc_next_generation S < ps_next_generation_value st then ps_next_generation_value st else sc_next_generation S),
                sc_next_attempt := (if sc_next_attempt S < ps_next_attempt_value st then ps_next_attempt_value st else sc_next_attempt S),
                sc_requests := [], sc_groups := [], sc_tenants := []\<rparr>;
          S = fold (import_request pf) (ps_requests st) S;
          S = fold import_worker (ps_workers st) S;
          S = fold import_tenant (ps_tenants st) S;
          S = upd_stats (\<lambda>x. x\<lparr>st_remaining_prefill_tokens := remaining_tokens_locked S\<rparr>) S
      in (res_ok (), log_now ''recover'' nil_id nil_id (''epoch='' @ to_string_u64 (id_value (sc_epoch S))) S))"

definition persist :: "FileSystem \<Rightarrow> string \<Rightarrow> Impl \<Rightarrow> files \<Rightarrow> unit Result \<times> files" where
  "persist fs path S files = save fs (export_state S) path files"

definition recover :: "platform \<Rightarrow> FileSystem \<Rightarrow> string \<Rightarrow> files \<Rightarrow> Impl \<Rightarrow> unit Result \<times> Impl" where
  "recover pf fs path files S =
     (case load fs path files of Inl e \<Rightarrow> (Inl e, S) | Inr st \<Rightarrow> import_state pf st S)"

subsection \<open>The rebuilt request table\<close>

definition none_in_flight :: "Impl \<Rightarrow> bool" where
  "none_in_flight S \<longleftrightarrow> (\<forall>rid s. reqs S rid = Some s \<longrightarrow> \<not> rs_in_flight s)"

lemma restored_not_in_flight: "\<not> rs_in_flight s \<Longrightarrow> \<not> rs_in_flight (restored_rs pf c rec s)"
  by (simp add: restored_rs_def Let_def add_trace_def)

lemma import_request_sel [simp]:
  "sc_requests (import_request pf rec S) = AList.update (pq_request_id rec)
     (restored_rs pf (sc_cfg S) rec (the_rs S (pq_request_id rec))) (sc_requests S)"
  "sc_cfg (import_request pf rec S) = sc_cfg S" "sc_epoch (import_request pf rec S) = sc_epoch S"
  "sc_next_generation (import_request pf rec S) = sc_next_generation S"
  "sc_next_attempt (import_request pf rec S) = sc_next_attempt S"
  by (simp_all add: import_request_def Let_def upd_tenant_def)

lemma import_request_none: "none_in_flight S \<Longrightarrow> none_in_flight (import_request pf rec S)"
proof -
  assume a: "none_in_flight S"
  have "\<not> rs_in_flight (the_rs S rid)" for rid
    using a by (cases "reqs S rid") (simp_all add: the_rs_def lookup_default_def none_in_flight_def default_rs_def)
  then show ?thesis using a by (auto simp: none_in_flight_def update_conv dest: restored_not_in_flight)
qed

lemma import_requests_none: "none_in_flight S \<Longrightarrow> none_in_flight (fold (import_request pf) recs S)"
  by (induction recs arbitrary: S) (simp_all add: import_request_none)

lemma import_requests_sel:
  "sc_cfg (fold (import_request pf) recs S) = sc_cfg S" "sc_epoch (fold (import_request pf) recs S) = sc_epoch S"
  "sc_next_generation (fold (import_request pf) recs S) = sc_next_generation S"
  "sc_next_attempt (fold (import_request pf) recs S) = sc_next_attempt S"
  by (induction recs arbitrary: S) simp_all

lemma update_nonkey: "k \<notin> set (keys m) \<Longrightarrow> AList.update k v m = m @ [(k, v)]"
  by (induction m) auto

lemma import_requests_table:
  assumes "distinct (map pq_request_id recs)" "set (map pq_request_id recs) \<inter> set (keys (sc_requests S)) = {}"
  shows "sc_requests (fold (import_request pf) recs S) =
    sc_requests S @ map (\<lambda>rec. (pq_request_id rec, restored_rs pf (sc_cfg S) rec default_rs)) recs"
  using assms
proof (induction recs arbitrary: S)
  case (Cons rec recs)
  have k: "pq_request_id rec \<notin> set (keys (sc_requests S))" using Cons.prems by auto
  then have "the_rs S (pq_request_id rec) = default_rs"
    by (auto simp: the_rs_def lookup_default_def dest: map_of_keys split: option.split)
  with k have "sc_requests (import_request pf rec S) = sc_requests S @ [(pq_request_id rec, restored_rs pf (sc_cfg S) rec default_rs)]"
    by (simp add: update_nonkey)
  moreover have "set (map pq_request_id recs) \<inter> set (keys (sc_requests (import_request pf rec S))) = {}"
    unfolding calculation using Cons.prems by auto
  ultimately show ?case using Cons.IH [of "import_request pf rec S"] Cons.prems by simp
qed simp

lemma import_workers_sel [simp]:
  "sc_requests (fold import_worker recs S) = sc_requests S" "sc_epoch (fold import_worker recs S) = sc_epoch S"
  "sc_next_generation (fold import_worker recs S) = sc_next_generation S"
  "sc_next_attempt (fold import_worker recs S) = sc_next_attempt S" "sc_tenants (fold import_worker recs S) = sc_tenants S"
  by (induction recs arbitrary: S) (simp_all add: import_worker_def)

lemma import_tenants_sel [simp]:
  "sc_requests (fold import_tenant recs S) = sc_requests S" "sc_epoch (fold import_tenant recs S) = sc_epoch S"
  "sc_next_generation (fold import_tenant recs S) = sc_next_generation S"
  "sc_next_attempt (fold import_tenant recs S) = sc_next_attempt S"
  by (induction recs arbitrary: S) (simp_all add: import_tenant_def)

text \<open>
  (C13) A recovered scheduler accepts no completion of work dispatched before: right after importing any
  persisted state no request is in flight, so every completion report is rejected.
\<close>
theorem recovered_rejects_completions:
  "\<not> is_ok (fst (report_completion pf r (snd (import_state pf st S))))"
proof
  let ?T = "snd (import_state pf st S)"
  assume "is_ok (fst (report_completion pf r ?T))"
  then have "completion_error r ?T = None" by (simp add: accepted_iff)
  then obtain s where s: "reqs ?T (mr_request_id r) = Some s" "rs_in_flight s" using completion_accepted by metis
  let ?S = "S\<lparr>sc_epoch := ps_epoch st,
      sc_next_generation := (if sc_next_generation S < ps_next_generation_value st then ps_next_generation_value st else sc_next_generation S),
      sc_next_attempt := (if sc_next_attempt S < ps_next_attempt_value st then ps_next_attempt_value st else sc_next_attempt S),
      sc_requests := [], sc_groups := [], sc_tenants := []\<rparr>"
  have "none_in_flight ?S" by (simp add: none_in_flight_def)
  from import_requests_none [OF this, of pf "ps_requests st"] have "none_in_flight ?T"
    by (simp add: import_state_def Let_def none_in_flight_def)
  with s show False by (simp add: none_in_flight_def)
qed

subsection \<open>Progress across recovery\<close>

lemma persisted_exported [simp]:
  "request_id (persisted_request rec) = pq_request_id rec" "compute_estimate (persisted_request rec) = 0"
  "memory_estimate_bytes (persisted_request rec) = 0"
  "remaining_prefill_tokens (persisted_request (exported_request (rid, s))) = remaining_prefill_tokens (rs_request s)"
  by (simp_all add: persisted_request_def default_request_def exported_request_def Let_def remaining_prefill_tokens_def)

lemma at_least_one_mono: "(a :: u64) \<le> b \<Longrightarrow> (if a = 0 then 1 else a) \<le> (if b = 0 then 1 else b)"
  by (auto simp: word_le_nat_alt unat_eq_0 Suc_le_eq unat_gt_0)

lemma at_most_mono: "(a :: u64) \<le> b \<Longrightarrow> (if r < a then r else a) \<le> (if r < b then r else b)"
  by auto

text \<open>Without estimates the chunks are at least as large, so a rebuilt plan has at most as many chunks.\<close>
lemma effective_chunk_no_estimates:
  assumes "remaining_prefill_tokens r' = remaining_prefill_tokens r" "compute_estimate r' = 0" "memory_estimate_bytes r' = 0"
  shows "effective_chunk_token_count pf c r \<le> effective_chunk_token_count pf c r'"
proof (cases "remaining_prefill_tokens r = 0")
  case False
  define clamp where "clamp rem x = (let y = (if x = 0 then 1 else x); z = (if rem < y then rem else y) in if z = 0 then 1 else z)" for rem x :: u64
  have mono: "a \<le> b \<Longrightarrow> clamp rem a \<le> clamp rem b" for rem a b
    unfolding clamp_def Let_def by (intro at_least_one_mono at_most_mono)
  let ?c = "if cf_max_tokens_per_chunk c = 0 then 1 else cf_max_tokens_per_chunk c" and ?rem = "remaining_prefill_tokens r"
  let ?b = "bound_chunk pf (cf_max_memory_per_chunk c) (memory_estimate_bytes r) ?rem
      (bound_chunk pf (cf_max_work_per_chunk c) (compute_estimate r) ?rem ?c)"
  have "effective_chunk_token_count pf c r = clamp ?rem ?b"
    by (simp only: effective_chunk_token_count_def clamp_def Let_def False if_False)
  also have "\<dots> \<le> clamp ?rem ?c" by (rule mono) (rule order_trans [OF bound_chunk_le bound_chunk_le])
  also have "\<dots> = effective_chunk_token_count pf c r'"
    by (simp only: effective_chunk_token_count_def clamp_def Let_def assms False if_False bound_chunk_def less_irrefl)
  finally show ?thesis .
qed (simp add: effective_chunk_token_count_def assms)

lemma chunk_count_no_estimates:
  assumes "remaining_prefill_tokens r' = remaining_prefill_tokens r" "compute_estimate r' = 0" "memory_estimate_bytes r' = 0"
  shows "length (pl_chunks (plan pf c r' a' g')) \<le> length (pl_chunks (plan pf c r a g))"
proof (cases "remaining_prefill_tokens r = 0")
  case False
  have r': "remaining_prefill_tokens r' \<noteq> 0" using False assms(1) by simp
  have le: "unat (effective_chunk_token_count pf c r) \<le> unat (effective_chunk_token_count pf c r')"
    using effective_chunk_no_estimates [OF assms] by (simp add: word_le_nat_alt)
  have "i < chunk_count pf c r" if "i < chunk_count pf c r'" for i
  proof -
    have "i * unat (effective_chunk_token_count pf c r) \<le> i * unat (effective_chunk_token_count pf c r')" using le by simp
    also have "\<dots> < unat (remaining_prefill_tokens r)" using that chunk_count_iff [OF r'] assms(1) by simp
    finally show ?thesis using chunk_count_iff [OF False] by simp
  qed
  then have "chunk_count pf c r' \<le> chunk_count pf c r" by (meson not_less less_irrefl)
  then show ?thesis by (simp add: length_plan assms(1))
qed (simp add: assms(1) empty_plan_def)

lemma index_from_hit:
  assumes "unat i + length cs < 2 ^ 32"
  shows "(\<exists>j < length cs. index_from cs start i = i + of_nat j \<and> ch_token_start (cs ! j) = start) \<or> index_from cs start i = 0"
  using assms
proof (induction cs arbitrary: i)
  case (Cons ch cs)
  show ?case
  proof (cases "ch_token_start ch = start")
    case False
    have "unat (i + 1) = Suc (unat i)" using Cons.prems by (intro unat_Suc_fits) simp
    then have "unat (i + 1) + length cs < 2 ^ 32" using Cons.prems by simp
    from Cons.IH [OF this] show ?thesis
    proof
      assume "\<exists>j < length cs. index_from cs start (i + 1) = i + 1 + of_nat j \<and> ch_token_start (cs ! j) = start"
      then obtain j where "j < length cs" "index_from cs start (i + 1) = i + 1 + of_nat j" "ch_token_start (cs ! j) = start" by blast
      then show ?thesis using False by (intro disjI1 exI [of _ "Suc j"]) (simp add: add.assoc)
    qed (simp add: False)
  qed (auto intro!: disjI1 exI [of _ 0])
qed simp

text \<open>The rebuilt position is the persisted one or the beginning.\<close>
lemma restored_position:
  fixes rid :: RequestId
  assumes ok: "rs_ok pf c s" and p: "has_pending_chunk s"
  defines "t \<equiv> restored_rs pf c (exported_request (rid, s)) default_rs"
  shows "has_pending_chunk t" "ch_token_start (next_chunk t) = 0 \<or> ch_token_start (next_chunk t) = ch_token_start (next_chunk s)"
    "rs_completed_uncached t = 0"
proof -
  let ?rec = "exported_request (rid, s)"
  let ?r = "persisted_request ?rec"
  let ?p = "plan pf c ?r (rs_attempt s) (StrongId 0)"
  let ?start = "ch_token_start (next_chunk s)"
  note pl = rs_okD(1) [OF ok]
  have idx: "unat (rs_next_chunk_index s) < length (pl_chunks (plan pf c (rs_request s) (rs_attempt s) (StrongId 0)))"
    using p pl by (simp add: has_pending_chunk_def)
  have start: "unat ?start < unat (remaining_prefill_tokens (rs_request s))"
    using plan_chunk_range(1) [OF idx] plan_nth(2,3) [OF idx] pl by (simp add: next_chunk_def)
  have len: "length (pl_chunks ?p) < 2 ^ 32"
    using chunk_count_no_estimates [of ?r "rs_request s" pf c "rs_attempt s" "StrongId 0" "rs_attempt s" "StrongId 0"] rs_okD(2) [OF ok] pl by simp
  have "remaining_prefill_tokens ?r \<noteq> 0" using start by (intro notI) simp
  then have ne: "pl_chunks ?p \<noteq> []" by (rule plan_nonempty)
  have ps: "pq_next_chunk_token_start ?rec = ?start" "pq_attempt_id ?rec = rs_attempt s"
    using p by (simp_all add: exported_request_def Let_def)
  have t: "rs_plan t = ?p" "rs_next_chunk_index t = index_for_token_start ?p ?start" "rs_completed_uncached t = 0"
    using start by (simp_all add: t_def restored_rs_def Let_def ps add_trace_def word_le_nat_alt)
  have z: "ch_token_start (pl_chunks ?p ! 0) = 0"
    using plan_nth(1) [of 0 pf c ?r "rs_attempt s" "StrongId 0"] ne by simp
  have "unat (index_for_token_start ?p ?start) < length (pl_chunks ?p) \<and>
      (ch_token_start (pl_chunks ?p ! unat (index_for_token_start ?p ?start)) \<in> {0, ?start})"
    using index_from_hit [of 0 "pl_chunks ?p" ?start] len ne z
    by (auto simp: index_for_token_start_def unat_of_nat_le unat_of_nat)
  then show "has_pending_chunk t" "ch_token_start (next_chunk t) = 0 \<or> ch_token_start (next_chunk t) = ?start" "rs_completed_uncached t = 0"
    using t by (auto simp: has_pending_chunk_def next_chunk_def)
qed

lemma restored_sel:
  "rs_attempt (restored_rs pf c rec s) = pq_attempt_id rec"
  "rs_lifecycle (restored_rs pf c rec s) =
     (if pq_lifecycle rec = LC_dispatched \<or> pq_lifecycle rec = LC_running then LC_queued else pq_lifecycle rec)"
  by (simp_all add: restored_rs_def Let_def add_trace_def)

lemma exported_sel: "pq_attempt_id (exported_request (rid, s)) = rs_attempt s" "pq_lifecycle (exported_request (rid, s)) = rs_lifecycle s"
  by (simp_all add: exported_request_def Let_def)

lemma restored_lifecycle:
  assumes "rs_ok pf c s"
  shows "rs_lifecycle (restored_rs pf c (exported_request (rid, s)) default_rs) = (if is_live s then LC_queued else rs_lifecycle s)"
    "rs_attempt (restored_rs pf c (exported_request (rid, s)) default_rs) = rs_attempt s"
  using rs_okD(3) [OF assms] unfolding restored_sel exported_sel by (auto simp: is_live_def is_terminal_lifecycle_def)

lemma map_of_rebuilt: "map_of (map (\<lambda>kv. (fst kv, f kv)) m) k = map_option (\<lambda>v. f (k, v)) (map_of m k)"
  by (induction m) auto

lemma import_exported:
  assumes "distinct (keys (sc_requests S))"
  shows "sc_requests (snd (import_state pf (export_state S) R)) =
      map (\<lambda>kv. (fst kv, restored_rs pf (sc_cfg R) (exported_request kv) default_rs)) (sc_requests S)"
    "sc_epoch (snd (import_state pf (export_state S) R)) = sc_epoch S"
    "sc_next_generation S \<le> sc_next_generation (snd (import_state pf (export_state S) R))"
    "fst (import_state pf (export_state S) R) = res_ok ()"
proof -
  have ids: "pq_request_id (exported_request kv) = fst kv" for kv by (simp add: exported_request_def Let_def)
  have d: "distinct (map pq_request_id (map exported_request (sc_requests S)))" using assms by (simp add: comp_def ids)
  show "sc_requests (snd (import_state pf (export_state S) R)) =
      map (\<lambda>kv. (fst kv, restored_rs pf (sc_cfg R) (exported_request kv) default_rs)) (sc_requests S)"
    unfolding import_state_def Let_def
    by (simp add: export_state_def default_state_def import_requests_table [OF d] comp_def ids)
  show "sc_epoch (snd (import_state pf (export_state S) R)) = sc_epoch S"
      "sc_next_generation S \<le> sc_next_generation (snd (import_state pf (export_state S) R))"
      "fst (import_state pf (export_state S) R) = res_ok ()"
    by (auto simp: import_state_def Let_def export_state_def default_state_def import_requests_sel)
qed


subsection \<open>An instance\<close>

lemma demo_queued_tenants:
  "sc_tenants demo_queued = [(StrongId 3, default_tenant\<lparr>ts_outstanding := 1, ts_admitted_tokens := 4\<rparr>)]"
  unfolding demo_queued_def demo_submit
  by (simp add: admit_def Let_def alloc_attempt_def demo_remaining demo_start_def mk_scheduler_def)
    (simp add: demo_request_def the_rs_def lookup_default_def clock_now_def upd_tenant_def modify_default_def upd_stats_def
      tick_def default_tenant_def log_now_def log_at_def)

lemma demo_export_valid: "state_valid (export_state demo_queued)"
proof -
  have r: "rs_request demo_rs = demo_request" "rs_lifecycle demo_rs = LC_queued" "rs_last_work_kind demo_rs = WK_full_prompt" "rs_admit_time demo_rs = 5"
    by (simp_all add: demo_rs_def admitted_rs_def default_rs_def)
  show ?thesis
    by (simp add: state_valid_def export_state_def default_state_def demo_queued_state demo_queued_tenants state_fits_def
      exported_request_def exported_worker_def exported_tenant_def r Let_def)
      (simp add: req_fits_def worker_fits_def tenant_fits_def record_valid_def str_fits_def int_range_def enum_byte_def AdapterRelation_of_code_def
      WorkKind_of_code_def Lifecycle_of_code_def NumericMode_of_code_def LatencyClass_of_code_def WorkerState_of_code_def
      demo_request_def default_request_def local_worker_def default_worker_def default_tenant_def kBackendCpu_def)
qed


subsection \<open>What recovery loses\<close>

lemma import_tenant_admitted:
  "t \<in> pt_tenant_id ` set recs \<or> ts_admitted_tokens (the_tenant S t) = 0 \<Longrightarrow>
    ts_admitted_tokens (the_tenant (fold import_tenant recs S) t) = 0"
proof (induction recs arbitrary: S)
  case (Cons rec recs)
  have "ts_admitted_tokens (the_tenant (import_tenant rec S) t) = 0"
    if "t = pt_tenant_id rec \<or> ts_admitted_tokens (the_tenant S t) = 0"
    using that by (auto simp: the_tenant_def lookup_default_def import_tenant_def update_conv default_tenant_def split: option.splits)
  then have "t \<in> pt_tenant_id ` set recs \<or> ts_admitted_tokens (the_tenant (import_tenant rec S) t) = 0"
    using Cons.prems by auto
  from Cons.IH [OF this] show ?case by simp
qed simp

text \<open>
  (C39) Recovery forgets the admitted tokens: right after a state is imported every tenant of that state has zero admitted tokens,
  although its unfinished requests are back in the queue, so the limit on admitted tokens per tenant starts anew.
\<close>
theorem recovery_forgets_admitted_tokens:
  assumes "t \<in> pt_tenant_id ` set (ps_tenants st)"
  shows "ts_admitted_tokens (the_tenant (snd (import_state pf st S)) t) = 0"
proof -
  have "the_tenant (log_now a b c d (upd_stats f T)) t = the_tenant T t" for a b c d f T
    by (simp add: the_tenant_def log_now_def log_at_def tick_def upd_stats_def)
  then show ?thesis unfolding import_state_def Let_def snd_conv using import_tenant_admitted assms by simp
qed

theorem recovery_forgets_admitted_tokens_witness:
  "ts_admitted_tokens (the_tenant demo_queued (StrongId 3)) = 4 \<and>
    ts_admitted_tokens (the_tenant (snd (import_state sample_platform (export_state demo_queued) demo_start)) (StrongId 3)) = 0"
proof
  show "ts_admitted_tokens (the_tenant demo_queued (StrongId 3)) = 4"
    by (simp add: the_tenant_def lookup_default_def demo_queued_tenants)
  show "ts_admitted_tokens (the_tenant (snd (import_state sample_platform (export_state demo_queued) demo_start)) (StrongId 3)) = 0"
    by (rule recovery_forgets_admitted_tokens) (simp add: export_state_def demo_queued_tenants exported_tenant_def)
qed

end
