(* ===== verification/PF_Protocol.thy ===== *)
theory PF_Protocol
  imports PF_Persist PF_Control
begin

text \<open>
  The message codec of \<^verbatim>\<open>protocol.hpp\<close> and \<^verbatim>\<open>protocol.cpp\<close>: the message kinds, the semantic message, the body
  written for each kind and the decoder. The lemmas show what the receiver gets for every message that is
  sent, that no proper prefix of a body is accepted, and which kinds and versions are refused.
\<close>

subsection \<open>Message kinds\<close>

datatype MsgKind =
    MK_hello
  | MK_worker_register
  | MK_worker_register_ack
  | MK_submit
  | MK_submit_ack
  | MK_cancel
  | MK_cancel_ack
  | MK_query_state
  | MK_state
  | MK_query_explain
  | MK_explain_resp
  | MK_query_stats
  | MK_stats_resp
  | MK_dispatch
  | MK_completion
  | MK_shutdown
  | MK_shutdown_ack
  | MK_ping
  | MK_pong
  | MK_roll_epoch
  | MK_error
  | MK_other int

primrec to_string_MsgKind :: "MsgKind \<Rightarrow> string" where
  "to_string_MsgKind MK_hello = ''hello''"
| "to_string_MsgKind MK_worker_register = ''worker_register''"
| "to_string_MsgKind MK_worker_register_ack = ''worker_register_ack''"
| "to_string_MsgKind MK_submit = ''submit''"
| "to_string_MsgKind MK_submit_ack = ''submit_ack''"
| "to_string_MsgKind MK_cancel = ''cancel''"
| "to_string_MsgKind MK_cancel_ack = ''cancel_ack''"
| "to_string_MsgKind MK_query_state = ''query_state''"
| "to_string_MsgKind MK_state = ''state''"
| "to_string_MsgKind MK_query_explain = ''query_explain''"
| "to_string_MsgKind MK_explain_resp = ''explain_resp''"
| "to_string_MsgKind MK_query_stats = ''query_stats''"
| "to_string_MsgKind MK_stats_resp = ''stats_resp''"
| "to_string_MsgKind MK_dispatch = ''dispatch''"
| "to_string_MsgKind MK_completion = ''completion''"
| "to_string_MsgKind MK_shutdown = ''shutdown''"
| "to_string_MsgKind MK_shutdown_ack = ''shutdown_ack''"
| "to_string_MsgKind MK_ping = ''ping''"
| "to_string_MsgKind MK_pong = ''pong''"
| "to_string_MsgKind MK_roll_epoch = ''roll_epoch''"
| "to_string_MsgKind MK_error = ''error''"
| "to_string_MsgKind (MK_other _) = ''unknown''"

primrec MsgKind_code :: "MsgKind \<Rightarrow> int" where
  "MsgKind_code MK_hello = 1"
| "MsgKind_code MK_worker_register = 2"
| "MsgKind_code MK_worker_register_ack = 3"
| "MsgKind_code MK_submit = 4"
| "MsgKind_code MK_submit_ack = 5"
| "MsgKind_code MK_cancel = 6"
| "MsgKind_code MK_cancel_ack = 7"
| "MsgKind_code MK_query_state = 8"
| "MsgKind_code MK_state = 9"
| "MsgKind_code MK_query_explain = 10"
| "MsgKind_code MK_explain_resp = 11"
| "MsgKind_code MK_query_stats = 12"
| "MsgKind_code MK_stats_resp = 13"
| "MsgKind_code MK_dispatch = 14"
| "MsgKind_code MK_completion = 15"
| "MsgKind_code MK_shutdown = 16"
| "MsgKind_code MK_shutdown_ack = 17"
| "MsgKind_code MK_ping = 18"
| "MsgKind_code MK_pong = 19"
| "MsgKind_code MK_roll_epoch = 20"
| "MsgKind_code MK_error = 21"
| "MsgKind_code (MK_other n) = n"

definition MsgKind_of_code :: "int \<Rightarrow> MsgKind" where
  "MsgKind_of_code n =
     (if n = 1 then MK_hello
      else if n = 2 then MK_worker_register
      else if n = 3 then MK_worker_register_ack
      else if n = 4 then MK_submit
      else if n = 5 then MK_submit_ack
      else if n = 6 then MK_cancel
      else if n = 7 then MK_cancel_ack
      else if n = 8 then MK_query_state
      else if n = 9 then MK_state
      else if n = 10 then MK_query_explain
      else if n = 11 then MK_explain_resp
      else if n = 12 then MK_query_stats
      else if n = 13 then MK_stats_resp
      else if n = 14 then MK_dispatch
      else if n = 15 then MK_completion
      else if n = 16 then MK_shutdown
      else if n = 17 then MK_shutdown_ack
      else if n = 18 then MK_ping
      else if n = 19 then MK_pong
      else if n = 20 then MK_roll_epoch
      else if n = 21 then MK_error
      else MK_other n)"

primrec MsgKind_named :: "MsgKind \<Rightarrow> bool" where
  "MsgKind_named MK_hello = True"
| "MsgKind_named MK_worker_register = True"
| "MsgKind_named MK_worker_register_ack = True"
| "MsgKind_named MK_submit = True"
| "MsgKind_named MK_submit_ack = True"
| "MsgKind_named MK_cancel = True"
| "MsgKind_named MK_cancel_ack = True"
| "MsgKind_named MK_query_state = True"
| "MsgKind_named MK_state = True"
| "MsgKind_named MK_query_explain = True"
| "MsgKind_named MK_explain_resp = True"
| "MsgKind_named MK_query_stats = True"
| "MsgKind_named MK_stats_resp = True"
| "MsgKind_named MK_dispatch = True"
| "MsgKind_named MK_completion = True"
| "MsgKind_named MK_shutdown = True"
| "MsgKind_named MK_shutdown_ack = True"
| "MsgKind_named MK_ping = True"
| "MsgKind_named MK_pong = True"
| "MsgKind_named MK_roll_epoch = True"
| "MsgKind_named MK_error = True"
| "MsgKind_named (MK_other _) = False"

interpretation mkind: enum_code MsgKind_code MsgKind_of_code MsgKind_named
proof
  show "MsgKind_named e \<Longrightarrow> MsgKind_of_code (MsgKind_code e) = e" for e
    by (cases e) (simp_all add: MsgKind_of_code_def)
  show "MsgKind_code (MsgKind_of_code n) = n" for n
    by (simp add: MsgKind_of_code_def)
qed

definition kFrameMaxBytes :: u32 where "kFrameMaxBytes = 64 * 1024 * 1024"
definition kProtocolVersion :: u8 where "kProtocolVersion = 1"

subsection \<open>The message\<close>

record Message =
  ms_kind :: MsgKind
  ms_worker :: WorkerDescriptor
  ms_epoch :: Epoch
  ms_workers :: "WorkerDescriptor list"
  ms_request :: PrefillRequest
  ms_tokens :: "u32 list"
  ms_error :: ErrorInfo
  ms_request_id :: RequestId
  ms_attempt_id :: AttemptId
  ms_generation :: Generation
  ms_lifecycle :: Lifecycle
  ms_applied :: bool
  ms_accepted :: bool
  ms_group :: ExecutionGroup
  ms_member_tokens :: "u32 list"
  ms_member_token_offsets :: "u64 list"
  ms_member_results :: "MemberResult list"
  ms_stats :: Stats
  ms_explain :: Explain
  ms_cancel_result :: CancelResult

definition default_message :: Message where
  "default_message = \<lparr>ms_kind = MK_hello, ms_worker = default_worker, ms_epoch = nil_id, ms_workers = [],
     ms_request = default_request, ms_tokens = [], ms_error = mk_error EC_ok '''', ms_request_id = nil_id,
     ms_attempt_id = nil_id, ms_generation = nil_id, ms_lifecycle = LC_submitted, ms_applied = False,
     ms_accepted = False, ms_group = default_group, ms_member_tokens = [], ms_member_token_offsets = [],
     ms_member_results = [], ms_stats = zero_stats,
     ms_explain = \<lparr>ex_request_id = nil_id, ex_attempt_id = nil_id, ex_lifecycle = '''', ex_trace = []\<rparr>,
     ms_cancel_result = cancel_result False False EC_ok ''''\<rparr>"

subsection \<open>Encoders\<close>

text \<open>\<^verbatim>\<open>w.u32(static_cast<std::uint32_t>(code))\<close>, and back.\<close>
definition put_code :: "ErrorCode \<Rightarrow> u8 list" where
  "put_code c = put_u32 (word_of_int (ErrorCode_code c))"

definition get_code :: "ErrorCode reader" where
  "get_code = rd_bind get_u32 (\<lambda>v. rd_return (ErrorCode_of_code (sint v)))"

definition enc_worker :: "WorkerDescriptor \<Rightarrow> u8 list" where
  "enc_worker wd =
     put_strong (wd_worker_id wd) @ put_strong (wd_boot_id wd) @ put_str (wd_host wd) @ put_u32 (wd_port wd) @
     put_str (wd_backend wd) @ put_enum (WorkerState_code (wd_state wd)) @ put_u64 (wd_capacity_units wd) @
     put_strong (case wd_devices wd of [] \<Rightarrow> nil_id | d # _ \<Rightarrow> dd_id d) @
     put_str (case wd_devices wd of [] \<Rightarrow> '''' | d # _ \<Rightarrow> dd_name d)"

definition enc_req :: "PrefillRequest \<Rightarrow> u8 list" where
  "enc_req r =
     put_strong (request_id r) @ put_strong (tenant_id r) @ put_str (model_name (req_model r)) @
     put_str (model_revision (req_model r)) @ put_strong (adapter_id r) @
     put_enum (AdapterRelation_code (adapter_relation r)) @ put_str (tokenizer (req_vocab r)) @
     put_u64 (vocab_size (req_vocab r)) @ put_u64 (prompt_token_count r) @
     put_u64 (prefix_token_count (reusable_prefix r)) @ put_bool (prefix_validated (reusable_prefix r)) @
     put_str (prefix_fingerprint (reusable_prefix r)) @ put_u64 (seq_len (input_shape r)) @
     put_u64 (hidden_dim (input_shape r)) @ put_u64 (num_heads (input_shape r)) @ put_u64 (head_dim (input_shape r)) @
     put_enum (InputLayout_code (input_layout r)) @ put_enum (NumericMode_code (numeric_mode r)) @
     put_str (req_backend r) @ put_strong (req_device r) @ put_str (device_match r) @
     put_enum (LatencyClass_code (latency_class r)) @ put_bool (deadline r \<noteq> None) @
     put_i64 (case deadline r of None \<Rightarrow> 0 | Some d \<Rightarrow> d) @ put_int (priority r) @ put_f64 (tenant_weight r) @
     put_i64 (arrival_time r) @ put_bool (max_queue_delay r \<noteq> None) @
     put_i64 (case max_queue_delay r of None \<Rightarrow> 0 | Some d \<Rightarrow> d) @ put_u64 (memory_estimate_bytes r) @
     put_u64 (compute_estimate r) @ put_int (max_retries r) @ put_str (requester r)"

definition enc_member :: "ExecutableMember \<Rightarrow> u8 list" where
  "enc_member m =
     put_strong (em_request_id m) @ put_strong (em_attempt_id m) @ put_strong (em_generation m) @
     put_strong (em_parent_generation m) @ put_u64 (em_token_start m) @ put_u64 (em_token_count m) @
     put_enum (WorkKind_code (em_work_kind m)) @ put_u64 (em_memory_estimate_bytes m) @
     put_u64 (em_compute_estimate m) @ put_strong (em_assigned_worker m) @ put_u32 (em_member_index m)"

definition enc_mres :: "MemberResult \<Rightarrow> u8 list" where
  "enc_mres r =
     put_strong (mr_request_id r) @ put_strong (mr_attempt_id r) @ put_strong (mr_generation r) @
     put_enum (MemberOutcome_code (mr_outcome r)) @ put_u64 (mr_tokens_completed r) @ put_u64 (mr_digest r) @
     put_enum (ErrorCode_code (mr_failure_code r)) @ put_str (mr_message r) @ put_u64 (mr_next_token_start r) @
     put_bool (mr_requires_next_chunk r) @ put_strong (mr_epoch r) @ put_strong (mr_worker r) @ put_strong (mr_boot r)"

definition enc_group :: "ExecutionGroup \<Rightarrow> u8 list" where
  "enc_group g =
     put_strong (eg_group_id g) @ put_str (eg_backend g) @ put_strong (eg_device g) @
     put_u64 (key_hash (eg_key g)) @ put_u32 (of_nat (length (eg_members g))) @
     concat (map enc_member (eg_members g)) @
     put_u64 (eg_total_token_count g) @ put_u64 (eg_max_memory_estimate_bytes g) @ put_u64 (eg_sum_compute_estimate g)"

definition enc_stats :: "Stats \<Rightarrow> u8 list" where
  "enc_stats st =
     put_u64 (st_submitted st) @ put_u64 (st_admitted st) @ put_u64 (st_rejected st) @ put_u64 (st_cancelled st) @
     put_u64 (st_retried st) @ put_u64 (st_completed st) @ put_u64 (st_failed_non_retryable st) @
     put_u64 (st_expired st) @ put_u64 (st_deadline_missed st) @ put_u64 (st_groups_formed st) @
     put_u64 (st_scheduled_tokens st) @ put_u64 (st_completed_tokens st) @ put_u64 (st_chunk_count st) @
     put_u64 (st_stale_authority_rejected st) @ put_u64 (st_duplicate_completion_rejected st) @
     put_u64 (st_queue_depth st) @ put_u64 (st_waiting_tokens st) @ put_u64 (st_running_requests st) @
     put_u64 (st_remaining_prefill_tokens st) @ put_i64 (st_queue_latency_total_ns st) @
     put_i64 (st_execution_latency_total_ns st) @ put_u64 (st_queue_latency_samples st) @
     put_u64 (st_execution_latency_samples st)"

text \<open>\<^verbatim>\<open>w.u64(v.size()); for (x : v) put(x)\<close>\<close>
definition put_counted :: "('a \<Rightarrow> u8 list) \<Rightarrow> 'a list \<Rightarrow> u8 list" where
  "put_counted put vs = put_u64 (of_nat (length vs)) @ concat (map put vs)"

text \<open>The bytes after the kind octet; none for a kind that is no enumerator.\<close>
fun message_fields :: "MsgKind \<Rightarrow> Message \<Rightarrow> u8 list option" where
  "message_fields MK_worker_register m = Some (enc_worker (ms_worker m))"
| "message_fields MK_worker_register_ack m = Some (put_strong (ms_epoch m) @ enc_worker (ms_worker m))"
| "message_fields MK_submit m = Some (enc_req (ms_request m) @ put_counted put_u32 (ms_tokens m))"
| "message_fields MK_submit_ack m = Some (put_strong (ms_request_id m) @ put_bool (ms_accepted m) @
     put_code (err_code (ms_error m)) @ put_str (err_message (ms_error m)) @ put_strong (ms_attempt_id m))"
| "message_fields MK_cancel m = Some (put_strong (ms_request_id m))"
| "message_fields MK_cancel_ack m = Some (put_strong (ms_request_id m) @ put_bool (ms_applied m) @
     put_bool (ca_was_terminal (ms_cancel_result m)) @ put_code (err_code (ms_error m)) @ put_str (err_message (ms_error m)))"
| "message_fields MK_state m = Some (put_strong (ms_epoch m) @ put_counted enc_worker (ms_workers m))"
| "message_fields MK_query_explain m = Some (put_strong (ms_request_id m))"
| "message_fields MK_explain_resp m = Some (put_strong (ms_request_id m) @ put_strong (ms_attempt_id m) @
     put_enum (Lifecycle_code (ms_lifecycle m)) @ put_strong (ms_generation m) @ put_counted put_str (ex_trace (ms_explain m)))"
| "message_fields MK_stats_resp m = Some (enc_stats (ms_stats m))"
| "message_fields MK_dispatch m = Some (enc_group (ms_group m) @ put_counted put_u32 (ms_member_tokens m) @
     put_counted put_u64 (ms_member_token_offsets m) @ put_strong (ms_epoch m) @ put_strong (wd_boot_id (ms_worker m)))"
| "message_fields MK_completion m = Some (put_counted enc_mres (ms_member_results m))"
| "message_fields MK_error m = Some (put_code (err_code (ms_error m)) @ put_str (err_message (ms_error m)))"
| "message_fields (MK_other _) m = None"
| "message_fields _ m = Some []"

definition encode_body :: "Message \<Rightarrow> u8 list Result" where
  "encode_body m =
     (case message_fields (ms_kind m) m of
        None \<Rightarrow> res_err EC_protocol_violation ''unknown message kind''
      | Some bs \<Rightarrow> res_ok (put_u8 kProtocolVersion @ put_enum (MsgKind_code (ms_kind m)) @ bs))"

definition encode_frame :: "Message \<Rightarrow> u8 list Result" where
  "encode_frame = encode_body"

subsection \<open>Decoders\<close>

definition dec_worker :: "WorkerDescriptor reader" where
  "dec_worker =
     rd_bind get_strong (\<lambda>w. rd_bind get_strong (\<lambda>b. rd_bind get_str (\<lambda>host. rd_bind get_u32 (\<lambda>port.
     rd_bind get_str (\<lambda>backend. rd_bind (get_enum WorkerState_of_code) (\<lambda>st. rd_bind get_u64 (\<lambda>cap.
     rd_bind get_strong (\<lambda>did. rd_bind get_str (\<lambda>name.
     rd_return (default_worker\<lparr>wd_worker_id := w, wd_boot_id := b, wd_host := host, wd_port := port, wd_backend := backend,
       wd_state := st, wd_capacity_units := cap,
       wd_devices := (if \<not> is_nil did
         then [default_device\<lparr>dd_id := did, dd_name := name, dd_backend := backend, dd_available := True\<rparr>] else [])\<rparr>))))))))))"

definition dec_req :: "PrefillRequest reader" where
  "dec_req =
     rd_bind get_strong (\<lambda>rid. rd_bind get_strong (\<lambda>ten. rd_bind get_str (\<lambda>name. rd_bind get_str (\<lambda>revision.
     rd_bind get_strong (\<lambda>adapter. rd_bind (get_enum AdapterRelation_of_code) (\<lambda>rel. rd_bind get_str (\<lambda>tok.
     rd_bind get_u64 (\<lambda>vsize. rd_bind get_u64 (\<lambda>prompt. rd_bind get_u64 (\<lambda>prefix. rd_bind get_bool (\<lambda>valid.
     rd_bind get_str (\<lambda>finger. rd_bind get_u64 (\<lambda>slen. rd_bind get_u64 (\<lambda>hdim. rd_bind get_u64 (\<lambda>heads.
     rd_bind get_u64 (\<lambda>headdim. rd_bind (get_enum InputLayout_of_code) (\<lambda>layout.
     rd_bind (get_enum NumericMode_of_code) (\<lambda>mode. rd_bind get_str (\<lambda>backend. rd_bind get_strong (\<lambda>dev.
     rd_bind get_str (\<lambda>match. rd_bind (get_enum LatencyClass_of_code) (\<lambda>lat. rd_bind get_bool (\<lambda>has_dl.
     rd_bind get_i64 (\<lambda>dl. rd_bind get_int (\<lambda>prio. rd_bind get_f64 (\<lambda>weight. rd_bind get_i64 (\<lambda>arrival.
     rd_bind get_bool (\<lambda>has_qd. rd_bind get_i64 (\<lambda>qd. rd_bind get_u64 (\<lambda>mem. rd_bind get_u64 (\<lambda>comp.
     rd_bind get_int (\<lambda>retries. rd_bind get_str (\<lambda>who.
     rd_return \<lparr>request_id = rid, tenant_id = ten, req_model = \<lparr>model_name = name, model_revision = revision\<rparr>,
       adapter_id = adapter, adapter_relation = rel, req_vocab = \<lparr>tokenizer = tok, vocab_size = vsize\<rparr>,
       prompt_token_count = prompt,
       reusable_prefix = \<lparr>prefix_token_count = prefix, prefix_fingerprint = finger, prefix_validated = valid\<rparr>,
       input_shape = \<lparr>seq_len = slen, hidden_dim = hdim, num_heads = heads, head_dim = headdim\<rparr>,
       input_layout = layout, numeric_mode = mode, req_backend = backend, req_device = dev, device_match = match,
       latency_class = lat, deadline = (if has_dl then Some dl else None), priority = prio, tenant_weight = weight,
       arrival_time = arrival, max_queue_delay = (if has_qd then Some qd else None), memory_estimate_bytes = mem,
       compute_estimate = comp, max_retries = retries, requester = who\<rparr>)))))))))))))))))))))))))))))))))"

definition dec_member :: "ExecutableMember reader" where
  "dec_member =
     rd_bind get_strong (\<lambda>rid. rd_bind get_strong (\<lambda>att. rd_bind get_strong (\<lambda>gen. rd_bind get_strong (\<lambda>parent.
     rd_bind get_u64 (\<lambda>start. rd_bind get_u64 (\<lambda>cnt. rd_bind (get_enum WorkKind_of_code) (\<lambda>kind.
     rd_bind get_u64 (\<lambda>mem. rd_bind get_u64 (\<lambda>comp. rd_bind get_strong (\<lambda>w. rd_bind get_u32 (\<lambda>idx.
     rd_return \<lparr>em_request_id = rid, em_attempt_id = att, em_generation = gen, em_parent_generation = parent,
       em_token_start = start, em_token_count = cnt, em_work_kind = kind, em_memory_estimate_bytes = mem,
       em_compute_estimate = comp, em_assigned_worker = w, em_member_index = idx\<rparr>)))))))))))"

definition dec_mres :: "MemberResult reader" where
  "dec_mres =
     rd_bind get_strong (\<lambda>rid. rd_bind get_strong (\<lambda>att. rd_bind get_strong (\<lambda>gen.
     rd_bind (get_enum MemberOutcome_of_code) (\<lambda>oc. rd_bind get_u64 (\<lambda>toks. rd_bind get_u64 (\<lambda>dig.
     rd_bind (get_enum ErrorCode_of_code) (\<lambda>code. rd_bind get_str (\<lambda>msg. rd_bind get_u64 (\<lambda>nxt.
     rd_bind get_bool (\<lambda>more. rd_bind get_strong (\<lambda>e. rd_bind get_strong (\<lambda>w. rd_bind get_strong (\<lambda>b.
     rd_return \<lparr>mr_request_id = rid, mr_attempt_id = att, mr_generation = gen, mr_outcome = oc,
       mr_tokens_completed = toks, mr_digest = dig, mr_failure_code = code, mr_message = msg,
       mr_next_token_start = nxt, mr_requires_next_chunk = more, mr_epoch = e, mr_worker = w, mr_boot = b\<rparr>)))))))))))))"

definition dec_group :: "ExecutionGroup reader" where
  "dec_group =
     rd_bind get_strong (\<lambda>gid. rd_bind get_str (\<lambda>backend. rd_bind get_strong (\<lambda>dev. rd_bind get_u64 (\<lambda>h.
     rd_bind (rd_bind get_u32 (\<lambda>n. get_list dec_member (unat n))) (\<lambda>ms.
     rd_bind get_u64 (\<lambda>toks. rd_bind get_u64 (\<lambda>mem. rd_bind get_u64 (\<lambda>comp.
     rd_return \<lparr>eg_group_id = gid, eg_key = default_key\<lparr>ck_policy_fingerprint := to_string_u64 h\<rparr>, eg_backend = backend,
       eg_device = dev, eg_members = ms, eg_total_token_count = toks, eg_max_memory_estimate_bytes = mem,
       eg_sum_compute_estimate = comp\<rparr>))))))))"

text \<open>\<^verbatim>\<open>auto v = g(); if (v) field = v.value();\<close>: a failed read leaves the initialiser.\<close>
definition get_or :: "'a \<Rightarrow> 'a reader \<Rightarrow> 'a reader" where
  "get_or d g r = (case g r of (Inl _, r') \<Rightarrow> (Inr d, r') | (Inr v, r') \<Rightarrow> (Inr v, r'))"

definition dec_stats :: "Stats reader" where
  "dec_stats =
     rd_bind (get_or 0 get_u64) (\<lambda>a1. rd_bind (get_or 0 get_u64) (\<lambda>a2. rd_bind (get_or 0 get_u64) (\<lambda>a3.
     rd_bind (get_or 0 get_u64) (\<lambda>a4. rd_bind (get_or 0 get_u64) (\<lambda>a5. rd_bind (get_or 0 get_u64) (\<lambda>a6.
     rd_bind (get_or 0 get_u64) (\<lambda>a7. rd_bind (get_or 0 get_u64) (\<lambda>a8. rd_bind (get_or 0 get_u64) (\<lambda>a9.
     rd_bind (get_or 0 get_u64) (\<lambda>a10. rd_bind (get_or 0 get_u64) (\<lambda>a11. rd_bind (get_or 0 get_u64) (\<lambda>a12.
     rd_bind (get_or 0 get_u64) (\<lambda>a13. rd_bind (get_or 0 get_u64) (\<lambda>a14. rd_bind (get_or 0 get_u64) (\<lambda>a15.
     rd_bind (get_or 0 get_u64) (\<lambda>a16. rd_bind (get_or 0 get_u64) (\<lambda>a17. rd_bind (get_or 0 get_u64) (\<lambda>a18.
     rd_bind (get_or 0 get_u64) (\<lambda>a19. rd_bind (get_or 0 get_i64) (\<lambda>a20. rd_bind (get_or 0 get_i64) (\<lambda>a21.
     rd_bind (get_or 0 get_u64) (\<lambda>a22. rd_bind (get_or 0 get_u64) (\<lambda>a23.
     rd_return (zero_stats\<lparr>st_submitted := a1, st_admitted := a2, st_rejected := a3, st_cancelled := a4, st_retried := a5,
       st_completed := a6, st_failed_non_retryable := a7, st_expired := a8, st_deadline_missed := a9,
       st_groups_formed := a10, st_scheduled_tokens := a11, st_completed_tokens := a12, st_chunk_count := a13,
       st_stale_authority_rejected := a14, st_duplicate_completion_rejected := a15, st_queue_depth := a16,
       st_waiting_tokens := a17, st_running_requests := a18, st_remaining_prefill_tokens := a19,
       st_queue_latency_total_ns := a20, st_execution_latency_total_ns := a21, st_queue_latency_samples := a22,
       st_execution_latency_samples := a23\<rparr>))))))))))))))))))))))))"

definition violation :: "string \<Rightarrow> ErrorInfo" where
  "violation msg = mk_error EC_protocol_violation msg"

fun message_reader :: "MsgKind \<Rightarrow> Message \<Rightarrow> Message reader" where
  "message_reader MK_worker_register m = rd_bind dec_worker (\<lambda>w. rd_return (m\<lparr>ms_worker := w\<rparr>))"
| "message_reader MK_worker_register_ack m = rd_bind get_strong (\<lambda>e. rd_bind dec_worker (\<lambda>w.
     rd_return (m\<lparr>ms_epoch := e, ms_worker := w\<rparr>)))"
| "message_reader MK_submit m = rd_bind dec_req (\<lambda>q.
     rd_bind (read_counted (2 ^ 26) (violation ''token count unreasonable'') get_u32) (\<lambda>toks.
     rd_return (m\<lparr>ms_request := q, ms_tokens := toks\<rparr>)))"
| "message_reader MK_submit_ack m = rd_bind get_strong (\<lambda>rid. rd_bind get_bool (\<lambda>acc. rd_bind get_code (\<lambda>c.
     rd_bind get_str (\<lambda>s. rd_bind get_strong (\<lambda>att.
     rd_return (m\<lparr>ms_request_id := rid, ms_accepted := acc, ms_error := mk_error c s, ms_attempt_id := att\<rparr>))))))"
| "message_reader MK_cancel m = rd_bind get_strong (\<lambda>rid. rd_return (m\<lparr>ms_request_id := rid\<rparr>))"
| "message_reader MK_cancel_ack m = rd_bind get_strong (\<lambda>rid. rd_bind get_bool (\<lambda>a. rd_bind get_bool (\<lambda>w.
     rd_bind get_code (\<lambda>c. rd_bind get_str (\<lambda>s.
     rd_return (m\<lparr>ms_request_id := rid, ms_applied := a, ms_cancel_result := (ms_cancel_result m)\<lparr>ca_was_terminal := w\<rparr>,
       ms_error := mk_error c s\<rparr>))))))"
| "message_reader MK_state m = rd_bind get_strong (\<lambda>e.
     rd_bind (read_counted (2 ^ 20) (violation ''worker count unreasonable'') dec_worker) (\<lambda>ws.
     rd_return (m\<lparr>ms_epoch := e, ms_workers := ws\<rparr>)))"
| "message_reader MK_query_explain m = rd_bind get_strong (\<lambda>rid. rd_return (m\<lparr>ms_request_id := rid\<rparr>))"
| "message_reader MK_explain_resp m = rd_bind get_strong (\<lambda>rid. rd_bind get_strong (\<lambda>att.
     rd_bind (get_enum Lifecycle_of_code) (\<lambda>lc. rd_bind get_strong (\<lambda>g.
     rd_bind (read_counted (2 ^ 22) (violation ''trace length unreasonable'') get_str) (\<lambda>tr.
     rd_return (m\<lparr>ms_request_id := rid, ms_attempt_id := att, ms_lifecycle := lc, ms_generation := g,
       ms_explain := (ms_explain m)\<lparr>ex_trace := tr\<rparr>\<rparr>))))))"
| "message_reader MK_stats_resp m = rd_bind dec_stats (\<lambda>st. rd_return (m\<lparr>ms_stats := st\<rparr>))"
| "message_reader MK_dispatch m = rd_bind dec_group (\<lambda>g.
     rd_bind (read_counted (2 ^ 28) (violation ''member_tokens too large'') get_u32) (\<lambda>toks.
     rd_bind (read_counted (2 ^ 20) (violation ''member offsets too large'') get_u64) (\<lambda>offs.
     rd_bind get_strong (\<lambda>e. rd_bind get_strong (\<lambda>b.
     rd_return (m\<lparr>ms_group := g, ms_member_tokens := toks, ms_member_token_offsets := offs, ms_epoch := e,
       ms_worker := (ms_worker m)\<lparr>wd_boot_id := b\<rparr>\<rparr>))))))"
| "message_reader MK_completion m =
     rd_bind (read_counted (2 ^ 22) (violation ''completion count unreasonable'') dec_mres) (\<lambda>rs.
     rd_return (m\<lparr>ms_member_results := rs\<rparr>))"
| "message_reader MK_error m = rd_bind get_code (\<lambda>c. rd_bind get_str (\<lambda>s. rd_return (m\<lparr>ms_error := mk_error c s\<rparr>)))"
| "message_reader (MK_other _) m = rd_fail (mk_error EC_malformed_frame ''unknown message kind'')"
| "message_reader _ m = rd_return m"

definition decode_body :: "u8 \<Rightarrow> MsgKind \<Rightarrow> u8 list \<Rightarrow> Message Result" where
  "decode_body version kind payload =
     (if version \<noteq> kProtocolVersion then res_err EC_protocol_violation ''unsupported protocol version''
      else fst (message_reader kind (default_message\<lparr>ms_kind := kind\<rparr>) (mk_reader payload)))"

definition valid_frame_length :: "u32 \<Rightarrow> bool" where
  "valid_frame_length n \<longleftrightarrow> 2 \<le> n \<and> n \<le> kFrameMaxBytes"

definition decode_frame :: "u8 list \<Rightarrow> Message Result" where
  "decode_frame body =
     (if length body < 2 then res_err EC_malformed_frame ''frame body too small''
      else
        let version = body ! 0; kind_byte = body ! 1 in
        if kind_byte < word_of_int (MsgKind_code MK_hello) \<or> word_of_int (MsgKind_code MK_error) < kind_byte
        then res_err EC_malformed_frame ''unknown message kind byte''
        else decode_body version (MsgKind_of_code (uint kind_byte)) (drop 2 body))"

subsection \<open>Exact readers\<close>

text \<open>
  A reader that consumes exactly the bytes written for a value, and fails when any of them is missing.
\<close>
definition exact :: "'a reader \<Rightarrow> u8 list \<Rightarrow> 'a \<Rightarrow> bool" where
  "exact g bs v \<longleftrightarrow> reads g bs v \<and>
     (\<forall>pre n. n < length bs \<longrightarrow> (\<exists>e. fst (g \<lparr>rd_data = pre @ take n bs, rd_off = length pre\<rparr>) = Inl e))"

lemma exactD:
  assumes "exact g bs v"
  shows "g \<lparr>rd_data = pre @ bs @ rest, rd_off = length pre\<rparr> = (Inr v, \<lparr>rd_data = pre @ bs @ rest, rd_off = length pre + length bs\<rparr>)"
    "n < length bs \<Longrightarrow> \<exists>e r. g \<lparr>rd_data = pre @ take n bs, rd_off = length pre\<rparr> = (Inl e, r)"
proof -
  show "g \<lparr>rd_data = pre @ bs @ rest, rd_off = length pre\<rparr> = (Inr v, \<lparr>rd_data = pre @ bs @ rest, rd_off = length pre + length bs\<rparr>)"
    using assms by (simp only: exact_def reads_def)
  assume n: "n < length bs"
  then obtain e where "fst (g \<lparr>rd_data = pre @ take n bs, rd_off = length pre\<rparr>) = Inl e"
    using assms unfolding exact_def by blast
  then show "\<exists>e r. g \<lparr>rd_data = pre @ take n bs, rd_off = length pre\<rparr> = (Inl e, r)"
    by (cases "g \<lparr>rd_data = pre @ take n bs, rd_off = length pre\<rparr>") simp
qed

lemma exact_return: "v = w \<Longrightarrow> exact (rd_return v) [] w"
  by (simp add: exact_def reads_return)

lemma exact_bind:
  assumes g: "exact g bs v" and h: "exact (h v) bs' w"
  shows "exact (rd_bind g h) (bs @ bs') w"
  unfolding exact_def
proof (intro conjI allI impI)
  have "reads g bs v" "reads (h v) bs' w" using assms by (simp_all add: exact_def)
  then show "reads (rd_bind g h) (bs @ bs') w" by (rule reads_bind)
  fix pre n assume n: "n < length (bs @ bs')"
  show "\<exists>e. fst (rd_bind g h \<lparr>rd_data = pre @ take n (bs @ bs'), rd_off = length pre\<rparr>) = Inl e"
  proof (cases "n < length bs")
    case True
    then obtain e r where "g \<lparr>rd_data = pre @ take n bs, rd_off = length pre\<rparr> = (Inl e, r)" using exactD(2) [OF g] by blast
    then show ?thesis using True by (simp add: rd_bind_def)
  next
    case False
    let ?k = "n - length bs"
    have "?k < length bs'" using False n by simp
    then obtain e r where e: "h v \<lparr>rd_data = (pre @ bs) @ take ?k bs', rd_off = length (pre @ bs)\<rparr> = (Inl e, r)"
      using exactD(2) [OF h] by blast
    show ?thesis using exactD(1) [OF g, of pre "take ?k bs'"] e False by (simp add: rd_bind_def)
  qed
qed

lemma exact_bind_nil: "exact g bs v \<Longrightarrow> exact (h v) [] w \<Longrightarrow> exact (rd_bind g h) bs w"
  using exact_bind [of g bs v h "[]" w] by simp

lemma exact_le:
  fixes v :: "'a::len word"
  assumes "LENGTH('a) \<le> 8 * k"
  shows "exact (get_le k) (le_bytes k v) v"
  using reads_le [OF assms, of v] by (simp add: exact_def get_le_def)

lemma exact_leaf:
  "exact get_u8 (put_u8 a) a" "exact get_u32 (put_u32 c) c" "exact get_u64 (put_u64 d) d"
proof -
  show "exact get_u8 (put_u8 a) a" using reads_u8 [of a] by (simp add: exact_def get_u8_def put_u8_def)
qed (simp_all add: get_u32_def put_u32_def get_u64_def put_u64_def exact_le)

lemma exact_derived:
  "exact get_f64 (put_f64 f) f" "exact get_strong (put_strong i) i" "exact get_bool (put_bool b) b"
  unfolding get_f64_def put_f64_def get_strong_def put_strong_def get_bool_def put_bool_def
  by (rule exact_bind_nil [OF exact_leaf(3)] exact_bind_nil [OF exact_leaf(1)], rule exact_return, simp)+

lemma exact_i64: "int_range 64 n \<Longrightarrow> exact get_i64 (put_i64 n) n"
  unfolding get_i64_def put_i64_def
  by (rule exact_bind_nil [OF exact_leaf(3)], rule exact_return) (simp add: int_range_def sint_word_of_int_64)

lemma sint_word_of_int_32: "int_range 32 n \<Longrightarrow> sint (word_of_int n :: u32) = n"
  using signed_take_bit_int_eq_self [of 31 n] by (simp add: int_range_def sint_sbintrunc')

lemma exact_int: "int_range 32 n \<Longrightarrow> exact get_int (put_int n) n"
  unfolding get_int_def put_int_def
  by (rule exact_bind_nil [OF exact_leaf(2)], rule exact_return) (rule sint_word_of_int_32)

lemma exact_enum_value: "exact (get_enum of_code) (put_enum c) (of_code (uint (word_of_int c :: u8)))"
  unfolding get_enum_def put_enum_def by (rule exact_bind_nil [OF exact_leaf(1)], rule exact_return) simp

lemma exact_enum: "enum_byte code of_code e \<Longrightarrow> exact (get_enum of_code) (put_enum (code e)) e"
  using exact_enum_value [of of_code "code e"] by (simp add: enum_byte_def)

lemma exact_code: "ErrorCode_of_code (ErrorCode_code c) = c \<Longrightarrow> int_range 32 (ErrorCode_code c) \<Longrightarrow> exact get_code (put_code c) c"
  unfolding get_code_def put_code_def
  by (rule exact_bind_nil [OF exact_leaf(2)], rule exact_return) (simp add: sint_word_of_int_32)

lemma exact_str: "str_fits s \<Longrightarrow> exact get_str (put_str s) s"
  unfolding get_str_def put_str_def
proof (rule exact_bind [OF exact_leaf(3)])
  assume "str_fits s"
  then have fit: "length s \<le> 2 ^ 32" "unat (of_nat (length s) :: u64) = length s"
    by (simp_all add: str_fits_def unat_of_nat_64)
  have "map char_of_byte (bytes_of_string s) = s" "length (bytes_of_string s) = length s"
    by (simp_all add: bytes_of_string_def comp_def)
  then show "exact (\<lambda>r. if rd_remaining r < unat (of_nat (length s) :: u64) then (Inl err_trunc, r)
      else if 2 ^ 32 < unat (of_nat (length s) :: u64) then (Inl (mk_error EC_corrupt_state ''string length unreasonable''), r)
      else (Inr (map char_of_byte (take (unat (of_nat (length s) :: u64)) (drop (rd_off r) (rd_data r)))),
            r\<lparr>rd_off := rd_off r + unat (of_nat (length s) :: u64)\<rparr>)) (bytes_of_string s) s"
    using fit(1) unfolding fit(2) by (simp add: exact_def reads_def rd_remaining_def)
qed

lemma exact_list:
  assumes "\<And>v. v \<in> set vs \<Longrightarrow> exact g (put v) (w v)"
  shows "exact (get_list g (length vs)) (concat (map put vs)) (map w vs)"
  using assms
proof (induction vs)
  case (Cons v vs)
  have "exact (rd_bind g (\<lambda>v. rd_bind (get_list g (length vs)) (\<lambda>vs. rd_return (v # vs))))
      (put v @ concat (map put vs)) (w v # map w vs)"
    using Cons by (intro exact_bind [where v = "w v"] exact_bind_nil [where v = "map w vs"] exact_return) auto
  then show ?case by simp
qed (simp add: exact_return)

lemma exact_counted:
  assumes "length vs \<le> limit" "limit < 2 ^ 64" "\<And>v. v \<in> set vs \<Longrightarrow> exact g (put v) (w v)"
  shows "exact (read_counted limit err g) (put_counted put vs) (map w vs)"
  unfolding read_counted_def put_counted_def
proof (rule exact_bind [OF exact_leaf(3)])
  have "unat (of_nat (length vs) :: u64) = length vs" using assms by (simp add: unat_of_nat_64)
  then show "exact (if limit < unat (of_nat (length vs) :: u64) then rd_fail err
      else get_list g (unat (of_nat (length vs) :: u64))) (concat (map put vs)) (map w vs)"
    using assms(1) exact_list [OF assms(3)] by simp
qed

lemmas exact_plain = exact_leaf exact_derived
lemmas exact_enums =
  exact_enum [of AdapterRelation_code AdapterRelation_of_code] exact_enum [of WorkKind_code WorkKind_of_code]
  exact_enum [of Lifecycle_code Lifecycle_of_code] exact_enum [of NumericMode_code NumericMode_of_code]
  exact_enum [of LatencyClass_code LatencyClass_of_code] exact_enum [of WorkerState_code WorkerState_of_code]
  exact_enum [of InputLayout_code InputLayout_of_code] exact_enum [of MemberOutcome_code MemberOutcome_of_code]
lemmas exact_guarded = exact_str exact_int exact_i64 exact_enums

subsection \<open>What the receiver gets\<close>

text \<open>Of the devices only the first one is sent, and only its identity and name; the information text is not.\<close>
definition wire_worker :: "WorkerDescriptor \<Rightarrow> WorkerDescriptor" where
  "wire_worker wd = wd\<lparr>wd_info := '''',
     wd_devices := (case wd_devices wd of [] \<Rightarrow> []
       | d # _ \<Rightarrow> if is_nil (dd_id d) then []
                 else [default_device\<lparr>dd_id := dd_id d, dd_name := dd_name d, dd_backend := wd_backend wd, dd_available := True\<rparr>])\<rparr>"

text \<open>Of the compatibility key only the hash is sent.\<close>
definition wire_group :: "ExecutionGroup \<Rightarrow> ExecutionGroup" where
  "wire_group g = g\<lparr>eg_key := default_key\<lparr>ck_policy_fingerprint := to_string_u64 (key_hash (eg_key g))\<rparr>\<rparr>"

text \<open>The failure code is sent as one byte.\<close>
definition wire_mres :: "MemberResult \<Rightarrow> MemberResult" where
  "wire_mres r = r\<lparr>mr_failure_code := ErrorCode_of_code (uint (word_of_int (ErrorCode_code (mr_failure_code r)) :: u8))\<rparr>"

text \<open>The statistics that are sent; the others keep their initial value.\<close>
definition wire_stats :: "Stats \<Rightarrow> Stats" where
  "wire_stats st = st\<lparr>st_mem_underflow_flag := 0, st_queue_delay_exceeded := 0, st_reserved_memory_bytes := 0,
     st_available_memory_bytes := 0, st_rejection_by_reason := [], st_group_size_distribution := [],
     st_per_tenant := [], st_per_device := []\<rparr>"

definition wd_fits :: "WorkerDescriptor \<Rightarrow> bool" where
  "wd_fits wd \<longleftrightarrow> str_fits (wd_host wd) \<and> str_fits (wd_backend wd) \<and>
     str_fits (case wd_devices wd of [] \<Rightarrow> '''' | d # _ \<Rightarrow> dd_name d) \<and>
     enum_byte WorkerState_code WorkerState_of_code (wd_state wd)"

definition prefill_fits :: "PrefillRequest \<Rightarrow> bool" where
  "prefill_fits r \<longleftrightarrow>
     str_fits (model_name (req_model r)) \<and> str_fits (model_revision (req_model r)) \<and> str_fits (tokenizer (req_vocab r)) \<and>
     str_fits (prefix_fingerprint (reusable_prefix r)) \<and> str_fits (req_backend r) \<and> str_fits (device_match r) \<and>
     str_fits (requester r) \<and>
     enum_byte AdapterRelation_code AdapterRelation_of_code (adapter_relation r) \<and>
     enum_byte InputLayout_code InputLayout_of_code (input_layout r) \<and>
     enum_byte NumericMode_code NumericMode_of_code (numeric_mode r) \<and>
     enum_byte LatencyClass_code LatencyClass_of_code (latency_class r) \<and>
     int_range 64 (case deadline r of None \<Rightarrow> 0 | Some d \<Rightarrow> d) \<and> int_range 32 (priority r) \<and>
     int_range 64 (arrival_time r) \<and> int_range 64 (case max_queue_delay r of None \<Rightarrow> 0 | Some d \<Rightarrow> d) \<and>
     int_range 32 (max_retries r)"

definition member_fits :: "ExecutableMember \<Rightarrow> bool" where
  "member_fits m \<longleftrightarrow> enum_byte WorkKind_code WorkKind_of_code (em_work_kind m)"

definition mres_fits :: "MemberResult \<Rightarrow> bool" where
  "mres_fits r \<longleftrightarrow> enum_byte MemberOutcome_code MemberOutcome_of_code (mr_outcome r) \<and> str_fits (mr_message r)"

definition group_fits :: "ExecutionGroup \<Rightarrow> bool" where
  "group_fits g \<longleftrightarrow> str_fits (eg_backend g) \<and> length (eg_members g) < 2 ^ 32 \<and> (\<forall>m \<in> set (eg_members g). member_fits m)"

lemma exact_worker: "wd_fits wd \<Longrightarrow> exact dec_worker (enc_worker wd) (wire_worker wd)"
  unfolding dec_worker_def enc_worker_def wd_fits_def
  by (rule exact_bind exact_bind_nil, (rule exact_plain | (rule exact_guarded, (simp; fail))))+
    (rule exact_return, simp add: wire_worker_def default_worker_def split: list.split)

lemma exact_member: "member_fits m \<Longrightarrow> exact dec_member (enc_member m) m"
  unfolding dec_member_def enc_member_def member_fits_def
  by (rule exact_bind exact_bind_nil, (rule exact_plain | (rule exact_guarded, (simp; fail))))+
    (rule exact_return, simp)

lemma exact_mres: "mres_fits r \<Longrightarrow> exact dec_mres (enc_mres r) (wire_mres r)"
  unfolding dec_mres_def enc_mres_def mres_fits_def
  by (rule exact_bind exact_bind_nil,
      (rule exact_plain exact_enum_value [of ErrorCode_of_code] | (rule exact_guarded, (simp; fail))))+
    (rule exact_return, simp add: wire_mres_def)

lemma exact_group:
  assumes "group_fits g"
  shows "exact dec_group (enc_group g) (wire_group g)"
proof -
  have f: "str_fits (eg_backend g)" "unat (of_nat (length (eg_members g)) :: u32) = length (eg_members g)"
    using assms by (simp_all add: group_fits_def unat_of_nat)
  have "exact (get_list dec_member (length (eg_members g))) (concat (map enc_member (eg_members g))) (map id (eg_members g))"
    using assms by (intro exact_list) (simp add: group_fits_def exact_member)
  then have ms: "exact (rd_bind get_u32 (\<lambda>n. get_list dec_member (unat n)))
      (put_u32 (of_nat (length (eg_members g))) @ concat (map enc_member (eg_members g))) (eg_members g)"
    by (intro exact_bind [OF exact_leaf(2)]) (simp add: f(2))
  have split: "enc_group g = put_strong (eg_group_id g) @ put_str (eg_backend g) @ put_strong (eg_device g) @ put_u64 (key_hash (eg_key g)) @
      (put_u32 (of_nat (length (eg_members g))) @ concat (map enc_member (eg_members g))) @
      put_u64 (eg_total_token_count g) @ put_u64 (eg_max_memory_estimate_bytes g) @ put_u64 (eg_sum_compute_estimate g)"
    by (simp add: enc_group_def)
  show ?thesis unfolding dec_group_def split
    by (intro exact_bind [OF exact_derived(2)] exact_bind [OF exact_str [OF f(1)]] exact_bind [OF exact_leaf(3)] exact_bind [OF ms]
        exact_bind_nil [OF exact_leaf(3)] exact_return) (simp add: wire_group_def)
qed

lemma exact_req: "prefill_fits r \<Longrightarrow> exact dec_req (enc_req r) r"
  unfolding dec_req_def enc_req_def prefill_fits_def
  by (rule exact_bind exact_bind_nil, (rule exact_plain | (rule exact_guarded, (simp; fail))))+
    (rule exact_return, simp split: option.split)

lemma reads_or: "reads g bs v \<Longrightarrow> reads (get_or d g) bs v"
  by (simp add: reads_def get_or_def)

definition stats_fits :: "Stats \<Rightarrow> bool" where
  "stats_fits st \<longleftrightarrow> int_range 64 (st_queue_latency_total_ns st) \<and> int_range 64 (st_execution_latency_total_ns st)"

lemma read_stats: "stats_fits st \<Longrightarrow> reads dec_stats (enc_stats st) (wire_stats st)"
  unfolding dec_stats_def enc_stats_def stats_fits_def
  by (rule reads_bind reads_bind_nil, (rule reads_or, (rule reads_u64 | (rule reads_i64_range, (simp; fail)))))+
    (rule reads_return_eq, simp add: wire_stats_def zero_stats_def)

subsection \<open>Messages\<close>

fun message_fits :: "MsgKind \<Rightarrow> Message \<Rightarrow> bool" where
  "message_fits MK_worker_register m = wd_fits (ms_worker m)"
| "message_fits MK_worker_register_ack m = wd_fits (ms_worker m)"
| "message_fits MK_submit m = (prefill_fits (ms_request m) \<and> length (ms_tokens m) \<le> 2 ^ 26)"
| "message_fits MK_submit_ack m = (str_fits (err_message (ms_error m)) \<and> ErrorCode_named (err_code (ms_error m)))"
| "message_fits MK_cancel_ack m = (str_fits (err_message (ms_error m)) \<and> ErrorCode_named (err_code (ms_error m)))"
| "message_fits MK_state m = (length (ms_workers m) \<le> 2 ^ 20 \<and> (\<forall>w \<in> set (ms_workers m). wd_fits w))"
| "message_fits MK_explain_resp m = (enum_byte Lifecycle_code Lifecycle_of_code (ms_lifecycle m) \<and>
     length (ex_trace (ms_explain m)) \<le> 2 ^ 22 \<and> (\<forall>t \<in> set (ex_trace (ms_explain m)). str_fits t))"
| "message_fits MK_stats_resp m = stats_fits (ms_stats m)"
| "message_fits MK_dispatch m = (group_fits (ms_group m) \<and> length (ms_member_tokens m) \<le> 2 ^ 28 \<and>
     length (ms_member_token_offsets m) \<le> 2 ^ 20)"
| "message_fits MK_completion m = (length (ms_member_results m) \<le> 2 ^ 22 \<and> (\<forall>r \<in> set (ms_member_results m). mres_fits r))"
| "message_fits MK_error m = (str_fits (err_message (ms_error m)) \<and> ErrorCode_named (err_code (ms_error m)))"
| "message_fits (MK_other _) m = False"
| "message_fits _ m = True"

text \<open>The message the receiver gets: the fields of its kind, everything else initial.\<close>
fun carry :: "MsgKind \<Rightarrow> Message \<Rightarrow> Message \<Rightarrow> Message" where
  "carry MK_worker_register m d = d\<lparr>ms_worker := wire_worker (ms_worker m)\<rparr>"
| "carry MK_worker_register_ack m d = d\<lparr>ms_epoch := ms_epoch m, ms_worker := wire_worker (ms_worker m)\<rparr>"
| "carry MK_submit m d = d\<lparr>ms_request := ms_request m, ms_tokens := ms_tokens m\<rparr>"
| "carry MK_submit_ack m d = d\<lparr>ms_request_id := ms_request_id m, ms_accepted := ms_accepted m, ms_error := ms_error m,
     ms_attempt_id := ms_attempt_id m\<rparr>"
| "carry MK_cancel m d = d\<lparr>ms_request_id := ms_request_id m\<rparr>"
| "carry MK_cancel_ack m d = d\<lparr>ms_request_id := ms_request_id m, ms_applied := ms_applied m,
     ms_cancel_result := (ms_cancel_result d)\<lparr>ca_was_terminal := ca_was_terminal (ms_cancel_result m)\<rparr>, ms_error := ms_error m\<rparr>"
| "carry MK_state m d = d\<lparr>ms_epoch := ms_epoch m, ms_workers := map wire_worker (ms_workers m)\<rparr>"
| "carry MK_query_explain m d = d\<lparr>ms_request_id := ms_request_id m\<rparr>"
| "carry MK_explain_resp m d = d\<lparr>ms_request_id := ms_request_id m, ms_attempt_id := ms_attempt_id m,
     ms_lifecycle := ms_lifecycle m, ms_generation := ms_generation m,
     ms_explain := (ms_explain d)\<lparr>ex_trace := ex_trace (ms_explain m)\<rparr>\<rparr>"
| "carry MK_stats_resp m d = d\<lparr>ms_stats := wire_stats (ms_stats m)\<rparr>"
| "carry MK_dispatch m d = d\<lparr>ms_group := wire_group (ms_group m), ms_member_tokens := ms_member_tokens m,
     ms_member_token_offsets := ms_member_token_offsets m, ms_epoch := ms_epoch m,
     ms_worker := (ms_worker d)\<lparr>wd_boot_id := wd_boot_id (ms_worker m)\<rparr>\<rparr>"
| "carry MK_completion m d = d\<lparr>ms_member_results := map wire_mres (ms_member_results m)\<rparr>"
| "carry MK_error m d = d\<lparr>ms_error := ms_error m\<rparr>"
| "carry _ m d = d"

definition received :: "Message \<Rightarrow> Message" where
  "received m = carry (ms_kind m) m (default_message\<lparr>ms_kind := ms_kind m\<rparr>)"

lemma exact_words:
  "length ts \<le> limit \<Longrightarrow> limit < 2 ^ 64 \<Longrightarrow> exact (read_counted limit err get_u32) (put_counted put_u32 ts) ts"
  "length os \<le> limit \<Longrightarrow> limit < 2 ^ 64 \<Longrightarrow> exact (read_counted limit err get_u64) (put_counted put_u64 os) os"
  using exact_counted [of ts limit get_u32 put_u32 id err] exact_counted [of os limit get_u64 put_u64 id err]
  by (simp_all add: exact_leaf)

lemma exact_strs:
  "length ts \<le> limit \<Longrightarrow> limit < 2 ^ 64 \<Longrightarrow> \<forall>t \<in> set ts. str_fits t \<Longrightarrow>
    exact (read_counted limit err get_str) (put_counted put_str ts) ts"
  using exact_counted [of ts limit get_str put_str id err] by (simp add: exact_str)

lemma named_code: "ErrorCode_named c \<Longrightarrow> ErrorCode_of_code (ErrorCode_code c) = c \<and> int_range 32 (ErrorCode_code c)"
  by (cases c) (simp_all add: ErrorCode_of_code_def int_range_def)

lemma exact_named: "ErrorCode_named c \<Longrightarrow> exact get_code (put_code c) c"
  using named_code exact_code by blast

lemma error_eq: "mk_error (err_code e) (err_message e) = e"
  by (simp add: mk_error_def)

lemma exact_message:
  assumes fit: "message_fits k m" and k: "k \<noteq> MK_stats_resp"
  shows "\<exists>bs. message_fields k m = Some bs \<and> exact (message_reader k d) bs (carry k m d)"
proof (cases k)
  case MK_worker_register
  then show ?thesis using fit by (simp add: exact_bind_nil [OF exact_worker exact_return])
next
  case MK_worker_register_ack
  then show ?thesis using fit by (simp add: exact_bind [OF exact_derived(2) exact_bind_nil [OF exact_worker exact_return]])
next
  case MK_submit
  then show ?thesis using fit by (simp add: exact_bind [OF exact_req exact_bind_nil [OF exact_words(1) exact_return]])
next
  case MK_submit_ack
  then show ?thesis using fit
    by (simp add: exact_bind [OF exact_derived(2) exact_bind [OF exact_derived(3) exact_bind [OF exact_named
      exact_bind [OF exact_str exact_bind_nil [OF exact_derived(2) exact_return]]]]] error_eq)
next
  case MK_cancel
  then show ?thesis by (simp add: exact_bind_nil [OF exact_derived(2) exact_return])
next
  case MK_cancel_ack
  then show ?thesis using fit
    by (simp add: exact_bind [OF exact_derived(2) exact_bind [OF exact_derived(3) exact_bind [OF exact_derived(3)
      exact_bind [OF exact_named exact_bind_nil [OF exact_str exact_return]]]]] error_eq)
next
  case MK_state
  have "exact (read_counted (2 ^ 20) e dec_worker) (put_counted enc_worker (ms_workers m)) (map wire_worker (ms_workers m))" for e
    using fit by (intro exact_counted) (simp_all add: MK_state exact_worker)
  note ws = this
  show ?thesis unfolding MK_state message_fields.simps message_reader.simps carry.simps
    by (rule exI, rule conjI, rule refl) (intro exact_bind [OF exact_derived(2)] exact_bind_nil [OF ws] exact_return refl)
next
  case MK_query_explain
  then show ?thesis by (simp add: exact_bind_nil [OF exact_derived(2) exact_return])
next
  case MK_explain_resp
  then show ?thesis using fit
    by (simp add: exact_bind [OF exact_derived(2) exact_bind [OF exact_derived(2) exact_bind [OF exact_enums(3)
      exact_bind [OF exact_derived(2) exact_bind_nil [OF exact_strs exact_return]]]]])
next
  case MK_dispatch
  then show ?thesis using fit
    by (simp add: exact_bind [OF exact_group exact_bind [OF exact_words(1) exact_bind [OF exact_words(2)
      exact_bind [OF exact_derived(2) exact_bind_nil [OF exact_derived(2) exact_return]]]]])
next
  case MK_completion
  have "exact (read_counted (2 ^ 22) e dec_mres) (put_counted enc_mres (ms_member_results m)) (map wire_mres (ms_member_results m))" for e
    using fit by (intro exact_counted) (simp_all add: MK_completion exact_mres)
  note rs = this
  show ?thesis unfolding MK_completion message_fields.simps message_reader.simps carry.simps
    by (rule exI, rule conjI, rule refl) (intro exact_bind_nil [OF rs] exact_return refl)
next
  case MK_error
  then show ?thesis using fit by (simp add: exact_bind [OF exact_named exact_bind_nil [OF exact_str exact_return]] error_eq)
qed (use fit k in \<open>simp_all add: exact_return\<close>)

lemma kind_byte:
  assumes "MsgKind_named k"
  shows "MsgKind_of_code (uint (word_of_int (MsgKind_code k) :: u8)) = k"
    "\<not> ((word_of_int (MsgKind_code k) :: u8) < word_of_int (MsgKind_code MK_hello) \<or>
       word_of_int (MsgKind_code MK_error) < (word_of_int (MsgKind_code k) :: u8))"
  using assms by (cases k; simp add: MsgKind_of_code_def)+

lemma fits_named: "message_fits k m \<Longrightarrow> MsgKind_named k"
  by (cases k) simp_all

lemma decode_encoded:
  assumes "MsgKind_named k"
  shows "decode_frame (put_u8 kProtocolVersion @ put_enum (MsgKind_code k) @ bs) =
    fst (message_reader k (default_message\<lparr>ms_kind := k\<rparr>) (mk_reader bs))"
  using kind_byte [OF assms] by (simp add: decode_frame_def decode_body_def put_u8_def put_enum_def)

text \<open>A message that fits is encoded, and decoded to what the receiver gets.\<close>
lemma message_rt:
  assumes "message_fits (ms_kind m) m"
  shows "\<exists>body. encode_frame m = res_ok body \<and> decode_frame body = res_ok (received m)"
proof -
  let ?k = "ms_kind m" and ?d = "default_message\<lparr>ms_kind := ms_kind m\<rparr>"
  have "\<exists>bs. message_fields ?k m = Some bs \<and> reads (message_reader ?k ?d) bs (carry ?k m ?d)"
  proof (cases "?k = MK_stats_resp")
    case True
    then show ?thesis using assms by (simp add: reads_bind_nil [OF read_stats reads_return_eq])
  qed (use exact_message [OF assms, of ?d] in \<open>auto simp: exact_def\<close>)
  then obtain bs where bs: "message_fields ?k m = Some bs" "reads (message_reader ?k ?d) bs (carry ?k m ?d)" by blast
  then have "fst (message_reader ?k ?d (mk_reader bs)) = res_ok (received m)"
    using bs(2) [unfolded reads_def, rule_format, of "[]" "[]"] by (simp add: mk_reader_def res_ok_def received_def)
  then show ?thesis
    using bs(1) by (simp add: encode_frame_def encode_body_def decode_encoded [OF fits_named [OF assms]])
qed


definition demo_submit_message :: Message where
  "demo_submit_message = default_message\<lparr>ms_kind := MK_submit, ms_request := default_request\<lparr>request_id := StrongId 7,
     req_backend := ''cpu'', deadline := Some 99\<rparr>, ms_tokens := [1, 2, 3]\<rparr>"

lemma demo_submit_fits: "message_fits (ms_kind demo_submit_message) demo_submit_message"
  by (simp add: demo_submit_message_def default_message_def prefill_fits_def default_request_def str_fits_def int_range_def
    enum_byte_def AdapterRelation_of_code_def InputLayout_of_code_def NumericMode_of_code_def LatencyClass_of_code_def)


text \<open>
  (C32) Truncated messages are refused: no proper prefix of an encoded body is decoded, for every kind but the statistics
  response, whose missing fields are read as zero.
\<close>
theorem truncated_message_rejected:
  assumes "message_fits (ms_kind m) m" "ms_kind m \<noteq> MK_stats_resp" "encode_frame m = res_ok body" "n < length body"
  shows "\<exists>e. decode_frame (take n body) = Inl e"
proof (cases "n < 2")
  case True
  then show ?thesis using assms(4) by (simp add: decode_frame_def res_err_def)
next
  case False
  let ?k = "ms_kind m" and ?d = "default_message\<lparr>ms_kind := ms_kind m\<rparr>"
  let ?h = "put_u8 kProtocolVersion @ put_enum (MsgKind_code ?k)"
  obtain bs where bs: "message_fields ?k m = Some bs" "exact (message_reader ?k ?d) bs (carry ?k m ?d)"
    using exact_message [OF assms(1,2)] by blast
  have body: "body = put_u8 kProtocolVersion @ put_enum (MsgKind_code ?k) @ bs"
    using assms(3) bs(1) by (simp add: encode_frame_def encode_body_def res_ok_def)
  have two: "length (put_u8 kProtocolVersion) = 1" "length (put_enum (MsgKind_code ?k)) = 1" by simp_all
  have t: "take n body = put_u8 kProtocolVersion @ put_enum (MsgKind_code ?k) @ take (n - 2) bs"
    using False by (simp add: body take_append two numeral_2_eq_2)
  have "n - 2 < length bs" using assms(4) False by (simp add: body two)
  from exactD(2) [OF bs(2) this, of "[]"] show ?thesis
    unfolding t decode_encoded [OF fits_named [OF assms(1)]] by (auto simp: mk_reader_def)
qed

lemma enc_req_length: "8 \<le> length (enc_req r)"
  by (simp add: enc_req_def)

theorem truncated_message_rejected_witness:
  "\<exists>body. encode_frame demo_submit_message = res_ok body \<and> (\<exists>e. decode_frame (take 2 body) = Inl e)"
proof -
  define body where "body = put_u8 kProtocolVersion @ put_enum (MsgKind_code MK_submit) @
    enc_req (ms_request demo_submit_message) @ put_counted put_u32 (ms_tokens demo_submit_message)"
  have k: "ms_kind demo_submit_message = MK_submit" "MK_submit \<noteq> MK_stats_resp" by (simp_all add: demo_submit_message_def)
  have e: "encode_frame demo_submit_message = res_ok body"
    by (simp add: encode_frame_def encode_body_def k body_def)
  have n: "2 < length body" using enc_req_length [of "ms_request demo_submit_message"] by (auto simp: body_def)
  from e truncated_message_rejected [OF demo_submit_fits, unfolded k(1), OF k(2) e n] show ?thesis by blast
qed

subsection \<open>What is lost\<close>

text \<open>The failure code of a member result does not survive: \<^verbatim>\<open>executor_failure\<close> (403) arrives as 147, which is no error code.\<close>
lemma failure_code_truncated:
  "mr_failure_code (wire_mres (r\<lparr>mr_failure_code := EC_executor_failure\<rparr>)) = EC_other 147"
  by (simp add: wire_mres_def ErrorCode_of_code_def)

lemma get_or_empty:
  "get_or d get_u64 \<lparr>rd_data = [], rd_off = 0\<rparr> = (Inr d, \<lparr>rd_data = [], rd_off = 0\<rparr>)"
  "get_or i get_i64 \<lparr>rd_data = [], rd_off = 0\<rparr> = (Inr i, \<lparr>rd_data = [], rd_off = 0\<rparr>)"
  by (simp_all add: get_or_def get_u64_def get_le_def get_i64_def rd_bind_def)

text \<open>A statistics response without any field is accepted and read as all zero.\<close>
lemma empty_stats_accepted: "decode_frame [1, 13] = res_ok (default_message\<lparr>ms_kind := MK_stats_resp\<rparr>)"
proof -
  have "dec_stats \<lparr>rd_data = [], rd_off = 0\<rparr> = (Inr zero_stats, \<lparr>rd_data = [], rd_off = 0\<rparr>)"
    by (simp add: dec_stats_def rd_bind_def get_or_empty rd_return_def zero_stats_def)
  then show ?thesis
    by (simp add: decode_frame_def decode_body_def kProtocolVersion_def MsgKind_of_code_def mk_reader_def rd_bind_def rd_return_def
      res_ok_def default_message_def)
qed

end
