(* ===== verification/PF_Network.thy ===== *)
theory PF_Network
  imports PF_Bytes
begin

text \<open>
  The socket layer of \<^verbatim>\<open>network.hpp\<close> and \<^verbatim>\<open>network.cpp\<close>: the send and receive loops, length-prefixed frames, and
  the life of connecting and listening sockets. The operating system is a parameter: the result of every
  system call, so that a send may take and a receive may deliver any part of what was asked for. The lemmas show
  that frames survive every segmentation of the stream, in order, and that a refused frame is recognised from its prefix.
\<close>

unbundle bit_operations_syntax

subsection \<open>Sockets\<close>

text \<open>The result of one \<^verbatim>\<open>send\<close> or \<^verbatim>\<open>recv\<close>: an error, or a count, which is at most what was asked for.\<close>
datatype io = IO_error | IO_count nat

text \<open>
  A connected socket: the bytes given to the system, the bytes that will arrive (the peer closes after them), and
  the number of calls made, which indexes the results \<open>os\<close> of the system.
\<close>
record Socket =
  sk_valid :: bool
  sk_sent :: "u8 list"
  sk_incoming :: "u8 list"
  sk_calls :: nat

definition io_count :: "(nat \<Rightarrow> io) \<Rightarrow> Socket \<Rightarrow> nat \<Rightarrow> nat option" where
  "io_count os sk asked = (case os (sk_calls sk) of IO_error \<Rightarrow> None | IO_count k \<Rightarrow> Some (min k asked))"

function send_all :: "(nat \<Rightarrow> io) \<Rightarrow> u8 list \<Rightarrow> Socket \<Rightarrow> unit Result \<times> Socket" where
  "send_all os data sk =
     (if data = [] then (res_ok (), sk)
      else case io_count os sk (length data) of
             None \<Rightarrow> (res_err EC_io_failure ''socket send failed'', sk\<lparr>sk_calls := Suc (sk_calls sk)\<rparr>)
           | Some sent \<Rightarrow>
               if sent = 0 then (res_err EC_io_failure ''socket closed during send'', sk\<lparr>sk_calls := Suc (sk_calls sk)\<rparr>)
               else send_all os (drop sent data)
                      (sk\<lparr>sk_sent := sk_sent sk @ take sent data, sk_calls := Suc (sk_calls sk)\<rparr>))"
  by pat_completeness auto

termination send_all
  by (relation "measure (\<lambda>(os, data, sk). length data)") auto

text \<open>Receiving exactly \<open>n\<close> bytes; \<open>buf\<close> holds those received so far.\<close>
function recv_loop :: "(nat \<Rightarrow> io) \<Rightarrow> nat \<Rightarrow> u8 list \<Rightarrow> Socket \<Rightarrow> u8 list Result \<times> Socket" where
  "recv_loop os n buf sk =
     (if n = 0 then (res_ok buf, sk)
      else case io_count os sk n of
             None \<Rightarrow> (res_err EC_io_failure ''socket recv failed'', sk\<lparr>sk_calls := Suc (sk_calls sk)\<rparr>)
           | Some k \<Rightarrow>
               let got = take k (sk_incoming sk); sk' = sk\<lparr>sk_incoming := drop k (sk_incoming sk), sk_calls := Suc (sk_calls sk)\<rparr> in
               if got = [] then (res_err EC_io_failure ''peer closed the connection'', sk')
               else recv_loop os (n - length got) (buf @ got) sk')"
  by pat_completeness auto

termination recv_loop
  by (relation "measure (\<lambda>(os, n, buf, sk). n)") auto

definition recv_exact :: "(nat \<Rightarrow> io) \<Rightarrow> nat \<Rightarrow> Socket \<Rightarrow> u8 list Result \<times> Socket" where
  "recv_exact os n sk = recv_loop os n [] sk"

declare send_all.simps [simp del] recv_loop.simps [simp del]

definition frame_limit :: nat where "frame_limit = 64 * 1024 * 1024"

definition frame_prefix :: "u8 list \<Rightarrow> u8 list" where
  "frame_prefix body =
     (let len = (of_nat (length body) :: u32)
      in [ucast (len AND 0xFF), ucast (drop_bit 8 len AND 0xFF), ucast (drop_bit 16 len AND 0xFF), ucast (drop_bit 24 len AND 0xFF)])"

definition send_frame :: "(nat \<Rightarrow> io) \<Rightarrow> u8 list \<Rightarrow> Socket \<Rightarrow> unit Result \<times> Socket" where
  "send_frame os body sk =
     (if frame_limit < length body then (res_err EC_oversized_frame ''frame too large'', sk)
      else case send_all os (frame_prefix body) sk of
             (Inl e, sk) \<Rightarrow> (Inl e, sk)
           | (Inr _, sk) \<Rightarrow> send_all os body sk)"

definition prefix_length :: "u8 list \<Rightarrow> u32" where
  "prefix_length hdr = ucast (hdr ! 0) OR push_bit 8 (ucast (hdr ! 1)) OR push_bit 16 (ucast (hdr ! 2)) OR push_bit 24 (ucast (hdr ! 3))"

definition recv_frame :: "(nat \<Rightarrow> io) \<Rightarrow> Socket \<Rightarrow> u8 list Result \<times> Socket" where
  "recv_frame os sk =
     (case recv_exact os 4 sk of
        (Inl e, sk) \<Rightarrow> (Inl e, sk)
      | (Inr hdr, sk) \<Rightarrow>
          let len = unat (prefix_length hdr) in
          if frame_limit < len then (res_err EC_oversized_frame ''incoming frame too large'', sk)
          else if len < 2 then (res_err EC_malformed_frame ''frame too short (zero or one byte)'', sk)
          else recv_exact os len sk)"

definition close_socket :: "Socket \<Rightarrow> Socket" where
  "close_socket sk = sk\<lparr>sk_valid := False\<rparr>"

subsection \<open>Sending\<close>

text \<open>Whatever the system answers, what was sent is a prefix of the data, and success means all of it.\<close>
lemma send_all_sends:
  "send_all os data sk = (r, sk') \<Longrightarrow>
    \<exists>k \<le> length data. sk_sent sk' = sk_sent sk @ take k data \<and> (is_ok r \<longleftrightarrow> k = length data) \<and>
      sk_incoming sk' = sk_incoming sk \<and> sk_valid sk' = sk_valid sk"
proof (induction os data sk arbitrary: r sk' rule: send_all.induct)
  case (1 os data sk)
  show ?case
  proof (cases "data = [] \<or> io_count os sk (length data) = None \<or> io_count os sk (length data) = Some 0")
    case True
    then show ?thesis using "1.prems" by (subst (asm) send_all.simps) (auto simp: res_ok_def res_err_def split: if_splits)
  next
    case False
    then obtain n where n: "io_count os sk (length data) = Some n" "n \<noteq> 0" "data \<noteq> []" by auto
    have le: "n \<le> length data" using n(1) by (auto simp: io_count_def split: io.splits)
    have "send_all os (drop n data) (sk\<lparr>sk_sent := sk_sent sk @ take n data, sk_calls := Suc (sk_calls sk)\<rparr>) = (r, sk')"
      using "1.prems" n by (subst (asm) send_all.simps) simp
    from "1.IH" [OF n(3,1,2) this] obtain k where k: "k \<le> length data - n" "sk_sent sk' = (sk_sent sk @ take n data) @ take k (drop n data)"
      "is_ok r \<longleftrightarrow> k = length data - n" "sk_incoming sk' = sk_incoming sk" "sk_valid sk' = sk_valid sk" by auto
    then show ?thesis using le by (intro exI [of _ "n + k"]) (auto simp: take_add)
  qed
qed

lemma send_all_incoming [simp]: "sk_incoming (snd (send_all os data sk)) = sk_incoming sk"
  using send_all_sends [of os data sk "fst (send_all os data sk)" "snd (send_all os data sk)"] by auto

lemma send_frame_incoming [simp]: "sk_incoming (snd (send_frame os body sk)) = sk_incoming sk"
  using send_all_incoming [of os "frame_prefix body" sk]
  by (cases "send_all os (frame_prefix body) sk") (auto simp: send_frame_def split: sum.split)

text \<open>A system that fails no call and transfers at least one byte each time.\<close>
definition delivers_bytes :: "(nat \<Rightarrow> io) \<Rightarrow> bool" where
  "delivers_bytes os \<longleftrightarrow> (\<forall>i. \<exists>k. os i = IO_count (Suc k))"

lemma send_all_ok:
  "delivers_bytes os \<Longrightarrow> is_ok (fst (send_all os data sk))"
proof (induction os data sk rule: send_all.induct)
  case (1 os data sk)
  show ?case
  proof (cases "data = []")
    case False
    obtain k where "os (sk_calls sk) = IO_count (Suc k)" using "1.prems" unfolding delivers_bytes_def by blast
    then have n: "io_count os sk (length data) = Some (min (Suc k) (length data))" "min (Suc k) (length data) \<noteq> 0"
      using False by (simp_all add: io_count_def)
    show ?thesis using "1.IH" [OF False n "1.prems"] n False by (subst send_all.simps) simp
  qed (simp add: send_all.simps)
qed

subsection \<open>Receiving\<close>

text \<open>Whatever the system answers, bytes that are returned are the next ones of the stream, exactly as many as asked for.\<close>
lemma recv_loop_takes:
  "recv_loop os n buf sk = (Inr bs, sk') \<Longrightarrow>
    n \<le> length (sk_incoming sk) \<and> bs = buf @ take n (sk_incoming sk) \<and> sk_incoming sk' = drop n (sk_incoming sk) \<and>
      sk_sent sk' = sk_sent sk \<and> sk_valid sk' = sk_valid sk"
proof (induction os n buf sk arbitrary: bs sk' rule: recv_loop.induct)
  case (1 os n buf sk)
  show ?case
  proof (cases "n = 0")
    case True
    then show ?thesis using "1.prems" by (subst (asm) recv_loop.simps) (simp add: res_ok_def)
  next
    case False
    then obtain k where k: "io_count os sk n = Some k" "take k (sk_incoming sk) \<noteq> []"
      using "1.prems" by (subst (asm) recv_loop.simps) (auto simp: Let_def res_err_def split: option.splits if_splits)
    let ?got = "take k (sk_incoming sk)" and ?sk = "sk\<lparr>sk_incoming := drop k (sk_incoming sk), sk_calls := Suc (sk_calls sk)\<rparr>"
    have le: "k \<le> n" using k(1) by (auto simp: io_count_def split: io.splits)
    have "recv_loop os (n - length ?got) (buf @ ?got) ?sk = (Inr bs, sk')"
      using "1.prems" k False by (subst (asm) recv_loop.simps) (simp add: Let_def)
    from "1.IH" [OF False k(1) refl refl k(2) this]
    have h: "n - length ?got \<le> length (sk_incoming ?sk)" "bs = (buf @ ?got) @ take (n - length ?got) (sk_incoming ?sk)"
      "sk_incoming sk' = drop (n - length ?got) (sk_incoming ?sk)" "sk_sent sk' = sk_sent sk" "sk_valid sk' = sk_valid sk" by simp_all
    have kl: "k \<le> length (sk_incoming sk)" using h(1) le k(2) by (cases "k \<le> length (sk_incoming sk)") auto
    have "take k (sk_incoming sk) @ take (n - k) (drop k (sk_incoming sk)) = take n (sk_incoming sk)"
      using take_add [of k "n - k" "sk_incoming sk"] le by simp
    moreover have lg: "length ?got = k" using kl by simp
    ultimately show ?thesis using h(4,5) h(1-3) [unfolded lg] kl le by simp
  qed
qed

lemma recv_loop_ok:
  "delivers_bytes os \<Longrightarrow> n \<le> length (sk_incoming sk) \<Longrightarrow> \<exists>bs sk'. recv_loop os n buf sk = (Inr bs, sk')"
proof (induction os n buf sk rule: recv_loop.induct)
  case (1 os n buf sk)
  show ?case
  proof (cases "n = 0")
    case False
    obtain k where k: "os (sk_calls sk) = IO_count (Suc k)" using "1.prems" unfolding delivers_bytes_def by blast
    define m where "m = min (Suc k) n"
    have m: "0 < m" "m \<le> n" "m \<le> length (sk_incoming sk)" using False "1.prems"(2) by (auto simp: m_def)
    have c: "io_count os sk n = Some m" by (simp add: io_count_def k m_def)
    have got: "take m (sk_incoming sk) \<noteq> []" "length (take m (sk_incoming sk)) = m" using m by auto
    let ?sk = "sk\<lparr>sk_incoming := drop m (sk_incoming sk), sk_calls := Suc (sk_calls sk)\<rparr>"
    have "recv_loop os n buf sk = recv_loop os (n - m) (buf @ take m (sk_incoming sk)) ?sk"
      using c got False by (subst recv_loop.simps) (simp only: Let_def option.case if_False)
    moreover have "\<exists>bs sk'. recv_loop os (n - m) (buf @ take m (sk_incoming sk)) ?sk = (Inr bs, sk')"
      using "1.IH" [OF False c refl refl got(1) "1.prems"(1)] "1.prems"(2) m by (simp only: got(2)) simp
    ultimately show ?thesis by simp
  qed (simp add: recv_loop.simps res_ok_def)
qed

subsection \<open>Frames\<close>

definition frame_bytes :: "u8 list \<Rightarrow> u8 list" where
  "frame_bytes body = frame_prefix body @ body"

lemma frame_prefix_le: "frame_prefix body = le_bytes 4 (of_nat (length body) :: u32)"
  by (simp add: frame_prefix_def le_bytes_def Let_def numeral_eq_Suc upt_rec)

lemma prefix_length_le: "length hdr = 4 \<Longrightarrow> prefix_length hdr = of_le_bytes hdr"
proof -
  assume "length hdr = 4"
  then obtain a b c d where "hdr = [a, b, c, d]" by (auto simp: numeral_eq_Suc length_Suc_conv)
  then show ?thesis by (simp add: prefix_length_def of_le_bytes_def or.assoc)
qed

lemma byte_mask: "(ucast (w AND 0xFF) :: u8) = ucast (w :: u32)"
proof (rule bit_word_eqI)
  have m: "(0xFF :: u32) = mask 8" by (simp add: mask_eq_exp_minus_1)
  show "bit (ucast (w AND 0xFF) :: u8) n \<longleftrightarrow> bit (ucast w :: u8) n" if "n < LENGTH(8)" for n
    unfolding m using that by (auto simp: bit_simps)
qed

text \<open>A prefix is determined by the length it encodes.\<close>
lemma prefix_unique:
  assumes "length hdr = 4" "unat (prefix_length hdr) = length body"
  shows "frame_prefix body = hdr"
proof -
  obtain a b c d where h: "hdr = [a, b, c, d]" using assms(1) by (auto simp: numeral_eq_Suc length_Suc_conv)
  have len: "(of_nat (length body) :: u32) = prefix_length hdr" by (simp flip: assms(2))
  have "ucast (prefix_length hdr) = a" "ucast (drop_bit 8 (prefix_length hdr)) = b" "ucast (drop_bit 16 (prefix_length hdr)) = c"
      "ucast (drop_bit 24 (prefix_length hdr)) = d"
    unfolding prefix_length_def h by (rule bit_word_eqI; auto simp: bit_simps dest: bit_imp_le_length)+
  then show ?thesis unfolding frame_prefix_def len Let_def byte_mask by (simp add: h)
qed

lemma prefix_roundtrip: "length body \<le> frame_limit \<Longrightarrow> unat (prefix_length (frame_prefix body)) = length body"
proof -
  assume "length body \<le> frame_limit"
  then have "unat (of_nat (length body) :: u32) = length body" by (simp add: unat_of_nat frame_limit_def)
  then show ?thesis by (simp add: frame_prefix_le prefix_length_le of_le_bytes_le_bytes)
qed

lemma length_frame_prefix [simp]: "length (frame_prefix body) = 4"
  by (simp add: frame_prefix_le)

lemma recv_exact_ok:
  assumes "delivers_bytes os" "sk_incoming sk = bs @ rest"
  shows "\<exists>sk'. recv_exact os (length bs) sk = (Inr bs, sk') \<and> sk_incoming sk' = rest"
proof -
  obtain cs sk' where r: "recv_loop os (length bs) [] sk = (Inr cs, sk')"
    using recv_loop_ok [OF assms(1), of "length bs" sk "[]"] assms(2) by auto
  from recv_loop_takes [OF this] have "cs = bs" "sk_incoming sk' = rest" using assms(2) by simp_all
  then show ?thesis using r by (simp add: recv_exact_def)
qed

lemma recv_frame_ok:
  assumes os: "delivers_bytes os" and inc: "sk_incoming sk = frame_bytes body @ rest" and len: "2 \<le> length body" "length body \<le> frame_limit"
  shows "\<exists>sk'. recv_frame os sk = (Inr body, sk') \<and> sk_incoming sk' = rest"
proof -
  obtain sk1 where 1: "recv_exact os 4 sk = (Inr (frame_prefix body), sk1)" "sk_incoming sk1 = body @ rest"
    using recv_exact_ok [OF os, of sk "frame_prefix body" "body @ rest"] inc by (auto simp: frame_bytes_def)
  obtain sk2 where 2: "recv_exact os (length body) sk1 = (Inr body, sk2)" "sk_incoming sk2 = rest"
    using recv_exact_ok [OF os 1(2)] by blast
  show ?thesis using 1 2 len by (simp add: recv_frame_def prefix_roundtrip Let_def)
qed

text \<open>Receiving \<open>n\<close> frames one after the other.\<close>
primrec recv_frames :: "(nat \<Rightarrow> io) \<Rightarrow> nat \<Rightarrow> Socket \<Rightarrow> u8 list list Result \<times> Socket" where
  "recv_frames os 0 sk = (res_ok [], sk)"
| "recv_frames os (Suc n) sk =
     (case recv_frame os sk of
        (Inl e, sk) \<Rightarrow> (Inl e, sk)
      | (Inr body, sk) \<Rightarrow>
          (case recv_frames os n sk of (Inl e, sk) \<Rightarrow> (Inl e, sk) | (Inr bodies, sk) \<Rightarrow> (res_ok (body # bodies), sk)))"

primrec send_frames :: "(nat \<Rightarrow> io) \<Rightarrow> u8 list list \<Rightarrow> Socket \<Rightarrow> unit Result \<times> Socket" where
  "send_frames os [] sk = (res_ok (), sk)"
| "send_frames os (body # bodies) sk =
     (case send_frame os body sk of (Inl e, sk) \<Rightarrow> (Inl e, sk) | (Inr _, sk) \<Rightarrow> send_frames os bodies sk)"

lemma send_frame_sends:
  assumes "send_frame os body sk = (Inr u, sk')"
  shows "sk_sent sk' = sk_sent sk @ frame_bytes body" "length body \<le> frame_limit"
proof -
  obtain sk1 where a: "send_all os (frame_prefix body) sk = (Inr (), sk1)" "send_all os body sk1 = (Inr u, sk')" "length body \<le> frame_limit"
    using assms by (auto simp: send_frame_def res_err_def split: if_splits prod.splits sum.splits)
  from send_all_sends [OF a(1)] send_all_sends [OF a(2)]
  show "sk_sent sk' = sk_sent sk @ frame_bytes body" by (auto simp: frame_bytes_def)
  show "length body \<le> frame_limit" by (rule a(3))
qed

lemma send_frames_sends:
  "send_frames os bodies sk = (Inr u, sk') \<Longrightarrow>
    sk_sent sk' = sk_sent sk @ concat (map frame_bytes bodies) \<and> (\<forall>b \<in> set bodies. length b \<le> frame_limit)"
proof (induction bodies arbitrary: sk)
  case (Cons b bs)
  then obtain v sk1 where "send_frame os b sk = (Inr v, sk1)" "send_frames os bs sk1 = (Inr u, sk')"
    by (auto split: prod.splits sum.splits)
  with send_frame_sends Cons.IH show ?case by fastforce
qed (simp add: res_ok_def)

lemma recv_frames_ok:
  assumes "delivers_bytes os"
  shows "sk_incoming sk = concat (map frame_bytes bodies) @ rest \<Longrightarrow> \<forall>b \<in> set bodies. 2 \<le> length b \<and> length b \<le> frame_limit \<Longrightarrow>
    \<exists>sk'. recv_frames os (length bodies) sk = (Inr bodies, sk') \<and> sk_incoming sk' = rest"
proof (induction bodies arbitrary: sk)
  case (Cons b bs)
  obtain sk1 where 1: "recv_frame os sk = (Inr b, sk1)" "sk_incoming sk1 = concat (map frame_bytes bs) @ rest"
    using recv_frame_ok [OF assms, of sk b "concat (map frame_bytes bs) @ rest"] Cons.prems by auto
  from Cons.IH [OF 1(2)] Cons.prems(2) obtain sk2 where "recv_frames os (length bs) sk1 = (Inr bs, sk2)" "sk_incoming sk2 = rest" by auto
  with 1 show ?case by (simp add: res_ok_def)
qed (simp add: res_ok_def)

text \<open>
  (C16) Framing: when a sequence of bodies was sent successfully and its bytes arrive at a receiver, the receiver reads back
  exactly these bodies in this order, however the two systems split the stream into calls, and leaves the
  bytes that follow untouched.
\<close>
theorem frames_survive_segmentation:
  assumes "send_frames os bodies a = (res_ok (), a')" "\<forall>b \<in> set bodies. 2 \<le> length b"
    and "sk_incoming b = drop (length (sk_sent a)) (sk_sent a') @ rest" "delivers_bytes os'"
  shows "\<exists>b'. recv_frames os' (length bodies) b = (res_ok bodies, b') \<and> sk_incoming b' = rest"
proof -
  have "sk_sent a' = sk_sent a @ concat (map frame_bytes bodies) \<and> (\<forall>b \<in> set bodies. length b \<le> frame_limit)"
    by (rule send_frames_sends [where u = "()"]) (use assms(1) in \<open>simp add: res_ok_def\<close>)
  then show ?thesis using recv_frames_ok [OF assms(4), of b bodies rest] assms(2,3) by (auto simp: res_ok_def)
qed

definition demo_os :: "nat \<Rightarrow> io" where
  "demo_os i = IO_count (Suc i)"

definition demo_socket :: "u8 list \<Rightarrow> Socket" where
  "demo_socket bs = \<lparr>sk_valid = True, sk_sent = [], sk_incoming = bs, sk_calls = 0\<rparr>"

lemma demo_os_delivers: "delivers_bytes demo_os"
  by (simp add: delivers_bytes_def demo_os_def)

lemma send_frames_ok: "delivers_bytes os \<Longrightarrow> \<forall>b \<in> set bodies. length b \<le> frame_limit \<Longrightarrow> \<exists>sk'. send_frames os bodies sk = (res_ok (), sk')"
proof (induction bodies arbitrary: sk)
  case (Cons b bs)
  obtain u sk1 where 1: "send_all os (frame_prefix b) sk = (Inr u, sk1)"
    using send_all_ok [OF Cons.prems(1), of "frame_prefix b" sk] by (cases "send_all os (frame_prefix b) sk"; cases "fst (send_all os (frame_prefix b) sk)") auto
  obtain v sk2 where 2: "send_all os b sk1 = (Inr v, sk2)"
    using send_all_ok [OF Cons.prems(1), of b sk1] by (cases "send_all os b sk1"; cases "fst (send_all os b sk1)") auto
  show ?case using 1 2 Cons.IH [of sk2] Cons.prems by (simp add: send_frame_def)
qed simp

theorem frames_survive_segmentation_witness:
  "\<exists>a' b'. send_frames demo_os [[1, 18], [1, 19, 7]] (demo_socket []) = (res_ok (), a') \<and>
    recv_frames demo_os 2 (demo_socket (sk_sent a' @ [9])) = (res_ok [[1, 18], [1, 19, 7]], b') \<and> sk_incoming b' = [9]"
proof -
  let ?bs = "[[1, 18], [1, 19, 7]] :: u8 list list"
  obtain a' where a: "send_frames demo_os ?bs (demo_socket []) = (res_ok (), a')"
    using send_frames_ok [OF demo_os_delivers, of ?bs "demo_socket []"] by (auto simp: frame_limit_def)
  have "\<forall>b \<in> set ?bs. 2 \<le> length b" by simp
  from frames_survive_segmentation [OF a this _ demo_os_delivers, of "demo_socket (sk_sent a' @ [9])" "[9]"] a
  show ?thesis by (auto simp: demo_socket_def numeral_2_eq_2)
qed

text \<open>
  (C33) Received frames are well formed: a frame that is received has between 2 bytes and 64 MiB, its bytes are the next bytes of the
  stream after a 4-byte prefix that encodes exactly that length, and nothing else is consumed.
\<close>
theorem received_frame_well_formed:
  assumes "recv_frame os sk = (res_ok body, sk')"
  shows "2 \<le> length body \<and> length body \<le> frame_limit \<and> sk_incoming sk = frame_bytes body @ sk_incoming sk'"
proof -
  obtain hdr sk1 where h: "recv_loop os 4 [] sk = (Inr hdr, sk1)" "recv_loop os (unat (prefix_length hdr)) [] sk1 = (Inr body, sk')"
      "\<not> frame_limit < unat (prefix_length hdr)" "\<not> unat (prefix_length hdr) < 2"
    using assms by (auto simp: recv_frame_def recv_exact_def res_ok_def res_err_def Let_def split: prod.splits sum.splits if_splits)
  note a = recv_loop_takes [OF h(1)] and b = recv_loop_takes [OF h(2)]
  have len: "length hdr = 4" "length body = unat (prefix_length hdr)" using a b by auto
  have "hdr @ sk_incoming sk1 = sk_incoming sk" using a by simp
  moreover have "body @ sk_incoming sk' = sk_incoming sk1" using b by (metis append_Nil append_take_drop_id)
  moreover have "frame_prefix body = hdr" by (rule prefix_unique) (simp_all add: len)
  ultimately show ?thesis using h(3,4) len by (simp add: frame_bytes_def)
qed

theorem received_frame_well_formed_witness:
  "\<exists>sk'. recv_frame demo_os (demo_socket (frame_bytes [1, 18] @ [9])) = (res_ok [1, 18], sk') \<and>
    sk_incoming (demo_socket (frame_bytes [1, 18] @ [9])) = frame_bytes [1, 18] @ sk_incoming sk'"
proof -
  obtain sk' where r: "recv_frame demo_os (demo_socket (frame_bytes [1, 18] @ [9])) = (res_ok [1, 18], sk')"
    using recv_frame_ok [OF demo_os_delivers, of "demo_socket (frame_bytes [1, 18] @ [9])" "[1, 18]" "[9]"]
    by (auto simp: demo_socket_def frame_limit_def res_ok_def)
  with received_frame_well_formed [OF r] show ?thesis by blast
qed

subsection \<open>Connecting and listening\<close>

text \<open>
  What the system answers while a socket is made: a new descriptor or none, the address of a dotted or
  named host, and the success of \<^verbatim>\<open>connect\<close>, \<^verbatim>\<open>bind\<close>, \<^verbatim>\<open>listen\<close> and \<^verbatim>\<open>accept\<close>. The open descriptors are kept so that leaks show.
\<close>
record NetEnv =
  ne_socket :: "nat option"
  ne_inet_addr :: "string \<Rightarrow> u32 option"
  ne_gethostbyname :: "string \<Rightarrow> u32 option"
  ne_connect :: "u32 \<Rightarrow> u16 \<Rightarrow> bool"
  ne_bind :: "u16 \<Rightarrow> bool"
  ne_bound_port :: u16
  ne_listen :: bool
  ne_accept :: "nat option"

type_synonym descriptors = "nat set"

definition resolve_host :: "NetEnv \<Rightarrow> string \<Rightarrow> u32 option" where
  "resolve_host ne host = (case ne_inet_addr ne host of Some a \<Rightarrow> Some a | None \<Rightarrow> ne_gethostbyname ne host)"

text \<open>\<^verbatim>\<open>Socket::connect\<close>\<close>
definition connect_socket :: "NetEnv \<Rightarrow> string \<Rightarrow> u16 \<Rightarrow> descriptors \<Rightarrow> nat Result \<times> descriptors" where
  "connect_socket ne host port fds =
     (case ne_socket ne of
        None \<Rightarrow> (res_err EC_io_failure ''socket() failed'', fds)
      | Some s \<Rightarrow>
          let fds = insert s fds in
          case resolve_host ne host of
            None \<Rightarrow> (res_err EC_io_failure ''bad host'', fds - {s})
          | Some a \<Rightarrow>
              if \<not> ne_connect ne a port then (res_err EC_io_failure ''connect failed'', fds - {s})
              else (res_ok s, fds))"

record Listener =
  li_socket :: "nat option"
  li_port :: u16

definition mk_listener :: "u16 \<Rightarrow> Listener" where
  "mk_listener port = \<lparr>li_socket = None, li_port = port\<rparr>"

definition listener_start :: "NetEnv \<Rightarrow> Listener \<Rightarrow> descriptors \<Rightarrow> unit Result \<times> Listener \<times> descriptors" where
  "listener_start ne l fds =
     (case ne_socket ne of
        None \<Rightarrow> (res_err EC_io_failure ''socket() failed'', l, fds)
      | Some s \<Rightarrow>
          let fds = insert s fds in
          if \<not> ne_bind ne (li_port l) then (res_err EC_io_failure ''bind failed'', l, fds - {s})
          else
            let l = l\<lparr>li_port := ne_bound_port ne\<rparr> in
            if \<not> ne_listen ne then (res_err EC_io_failure ''listen failed'', l, fds - {s})
            else (res_ok (), l\<lparr>li_socket := Some s\<rparr>, fds))"

definition listener_accept :: "NetEnv \<Rightarrow> Listener \<Rightarrow> descriptors \<Rightarrow> nat Result \<times> descriptors" where
  "listener_accept ne l fds =
     (case li_socket l of
        None \<Rightarrow> (res_err EC_io_failure ''listener not started'', fds)
      | Some _ \<Rightarrow>
          (case ne_accept ne of
             None \<Rightarrow> (res_err EC_io_failure ''accept failed'', fds)
           | Some c \<Rightarrow> (res_ok c, insert c fds)))"

definition listener_close :: "Listener \<Rightarrow> descriptors \<Rightarrow> Listener \<times> descriptors" where
  "listener_close l fds =
     (case li_socket l of None \<Rightarrow> (l, fds) | Some s \<Rightarrow> (l\<lparr>li_socket := None\<rparr>, fds - {s}))"

text \<open>
  (C34) No descriptor leaks: if the system returns descriptors that are not open, a failed connect or start leaves
  the open descriptors as they were, a successful one adds exactly the new descriptor, and closing a
  listener that was started restores them.
\<close>
theorem sockets_do_not_leak:
  assumes "\<And>s. ne_socket ne = Some s \<Longrightarrow> s \<notin> fds"
  shows "(case connect_socket ne host port fds of (Inl _, fds') \<Rightarrow> fds' = fds | (Inr s, fds') \<Rightarrow> s \<notin> fds \<and> fds' = insert s fds) \<and>
    (case listener_start ne (mk_listener p) fds of
       (Inl _, l, fds') \<Rightarrow> li_socket l = None \<and> fds' = fds
     | (Inr _, l, fds') \<Rightarrow> snd (listener_close l fds') = fds)"
  using assms
  by (auto simp: connect_socket_def listener_start_def listener_close_def mk_listener_def Let_def res_ok_def res_err_def
      split: option.splits)

definition demo_net :: NetEnv where
  "demo_net = \<lparr>ne_socket = Some 3, ne_inet_addr = (\<lambda>_. Some 0), ne_gethostbyname = (\<lambda>_. None), ne_connect = (\<lambda>_ _. True),
     ne_bind = (\<lambda>_. True), ne_bound_port = 9, ne_listen = True, ne_accept = Some 4\<rparr>"

theorem sockets_do_not_leak_witness:
  "connect_socket demo_net ''h'' 80 {1} = (res_ok 3, {3, 1}) \<and>
    (case listener_start demo_net (mk_listener 0) {1} of
       (Inl _, l, fds') \<Rightarrow> li_socket l = None \<and> fds' = {1}
     | (Inr _, l, fds') \<Rightarrow> snd (listener_close l fds') = {1})"
proof -
  have "ne_socket demo_net = Some s \<Longrightarrow> s \<notin> {1}" for s by (auto simp: demo_net_def)
  note t = sockets_do_not_leak [OF this, of demo_net]
  show ?thesis using t [of "''h''" 80 0] by (auto simp: connect_socket_def demo_net_def resolve_host_def Let_def)
qed

end
