(* ===== verification/PF_Coordinator.thy ===== *)
theory PF_Coordinator
  imports PF_Protocol PF_Network PF_Batch
begin

text \<open>
  The coordinator of \<^verbatim>\<open>coordinator.cpp\<close>: one step per received frame and per turn of the scheduling loop. Connections are
  numbered; \<open>net c b\<close> says whether sending the body \<open>b\<close> on connection \<open>c\<close> succeeds. The lemmas show that everything the coordinator
  does to its scheduler is a sequence of scheduler operations, so that the invariants of the scheduler hold for
  every interleaving of connections and cycles.
\<close>

subsection \<open>Views of the scheduler\<close>

definition executor_of :: "Impl \<Rightarrow> Executor option" where
  "executor_of S = sc_attached_executor S"

definition workers_of :: "Impl \<Rightarrow> WorkerDescriptor list" where
  "workers_of S = map (\<lambda>kv. ws_desc (snd kv)) (sc_workers S)"

definition worker_of :: "WorkerId \<Rightarrow> Impl \<Rightarrow> WorkerDescriptor option" where
  "worker_of w S = map_option ws_desc (map_of (sc_workers S) w)"

definition memory_reserved :: "Impl \<Rightarrow> u64" where
  "memory_reserved S = mg_reserved (sc_mem S)"

definition memory_available :: "Impl \<Rightarrow> u64" where
  "memory_available S = available_bytes (sc_mem S)"

definition request_count :: "Impl \<Rightarrow> nat" where
  "request_count S = length (sc_requests S)"

definition running_count :: "Impl \<Rightarrow> nat" where
  "running_count S = fold (\<lambda>(_, s) n. if rs_in_flight s then Suc n else n) (sc_requests S) 0"

subsection \<open>State\<close>

record Coordinator =
  co_sched :: Impl
  co_socks :: "(WorkerId, nat) alist"
  co_workers :: "(WorkerId, WorkerDescriptor) alist"
  co_tokens :: "(RequestId, u32 list) alist"
  co_listener :: Listener
  co_stop :: bool
  co_sent :: "(nat \<times> u8 list) list"

definition mk_coordinator :: "platform \<Rightarrow> SchedulerConfig \<Rightarrow> (nat \<Rightarrow> Nanoseconds) \<Rightarrow> u16 \<Rightarrow> Coordinator" where
  "mk_coordinator pf c clock port = \<lparr>co_sched = mk_scheduler pf c clock, co_socks = [], co_workers = [], co_tokens = [],
     co_listener = mk_listener port, co_stop = False, co_sent = []\<rparr>"

definition worker_count :: "Coordinator \<Rightarrow> nat" where
  "worker_count C = length (co_socks C)"

definition on_sched :: "(Impl \<Rightarrow> 'a \<times> Impl) \<Rightarrow> Coordinator \<Rightarrow> 'a \<times> Coordinator" where
  "on_sched f C = (let (r, S) = f (co_sched C) in (r, C\<lparr>co_sched := S\<rparr>))"

definition coordinator_start :: "NetEnv \<Rightarrow> Coordinator \<Rightarrow> descriptors \<Rightarrow> unit Result \<times> Coordinator \<times> descriptors" where
  "coordinator_start ne C fds =
     (let C = snd (on_sched (unregister_worker (StrongId 0)) C) in
      case listener_start ne (co_listener C) fds of
        (Inl e, l, fds) \<Rightarrow> (Inl e, C\<lparr>co_listener := l\<rparr>, fds)
      | (Inr _, l, fds) \<Rightarrow> (res_ok (), C\<lparr>co_listener := l, co_stop := False\<rparr>, fds))"

definition coordinator_shutdown :: "Coordinator \<Rightarrow> descriptors \<Rightarrow> Coordinator \<times> descriptors" where
  "coordinator_shutdown C fds =
     (if co_stop C then (C, fds)
      else let (l, fds) = listener_close (co_listener C) fds in (C\<lparr>co_stop := True, co_listener := l\<rparr>, fds))"

text \<open>\<^verbatim>\<open>sock->send_frame(...)\<close>, and encoding and sending a reply whose fate is ignored.\<close>
definition send_to :: "(nat \<Rightarrow> u8 list \<Rightarrow> bool) \<Rightarrow> nat \<Rightarrow> u8 list \<Rightarrow> Coordinator \<Rightarrow> bool \<times> Coordinator" where
  "send_to net conn body C = (if net conn body then (True, C\<lparr>co_sent := co_sent C @ [(conn, body)]\<rparr>) else (False, C))"

definition reply :: "(nat \<Rightarrow> u8 list \<Rightarrow> bool) \<Rightarrow> nat \<Rightarrow> Message \<Rightarrow> Coordinator \<Rightarrow> Coordinator" where
  "reply net conn m C = (case encode_frame m of Inl _ \<Rightarrow> C | Inr body \<Rightarrow> snd (send_to net conn body C))"

subsection \<open>Connections\<close>

text \<open>What a connection is after its first frame.\<close>
datatype role = Closed | Worker_conn WorkerDescriptor | Client_conn

definition first_frame :: "(nat \<Rightarrow> u8 list \<Rightarrow> bool) \<Rightarrow> nat \<Rightarrow> u8 list Result \<Rightarrow> Coordinator \<Rightarrow> role \<times> Coordinator" where
  "first_frame net conn fb C =
     (case fb of
        Inl _ \<Rightarrow> (Closed, C)
      | Inr body \<Rightarrow>
          (case decode_frame body of
             Inl _ \<Rightarrow> (Closed, C)
           | Inr m \<Rightarrow>
               if ms_kind m \<noteq> MK_worker_register \<and> ms_kind m \<noteq> MK_hello
               then (Closed, reply net conn (default_message\<lparr>ms_kind := MK_error,
                       ms_error := mk_error EC_protocol_violation ''expected hello or worker_register''\<rparr>) C)
               else if ms_kind m = MK_worker_register
               then
                 let wd = ms_worker m in
                 if is_nil (wd_worker_id wd) then (Closed, C)
                 else
                   let C = C\<lparr>co_workers := AList.update (wd_worker_id wd) wd (co_workers C),
                             co_socks := AList.update (wd_worker_id wd) conn (co_socks C)\<rparr>;
                       C = snd (on_sched (register_worker wd) C);
                       C = reply net conn (default_message\<lparr>ms_kind := MK_worker_register_ack,
                             ms_epoch := sc_epoch (co_sched C), ms_worker := wd\<rparr>) C
                   in (Worker_conn wd, C)
               else (Client_conn, C)))"

text \<open>
  The results of a completion message are reported in order until one is rejected; the rejection is answered with an error.
\<close>
fun report_results :: "platform \<Rightarrow> (nat \<Rightarrow> u8 list \<Rightarrow> bool) \<Rightarrow> nat \<Rightarrow> MemberResult list \<Rightarrow> Coordinator \<Rightarrow> Coordinator" where
  "report_results pf net conn [] C = C"
| "report_results pf net conn (r # rs) C =
     (case on_sched (report_completion pf r) C of
        (Inl e, C) \<Rightarrow> reply net conn (default_message\<lparr>ms_kind := MK_error, ms_error := e, ms_request_id := mr_request_id r\<rparr>) C
      | (Inr _, C) \<Rightarrow> report_results pf net conn rs C)"

text \<open>One turn of a worker connection: whether the connection stays open, and the state.\<close>
definition worker_frame ::
  "platform \<Rightarrow> (nat \<Rightarrow> u8 list \<Rightarrow> bool) \<Rightarrow> WorkerDescriptor \<Rightarrow> nat \<Rightarrow> u8 list Result \<Rightarrow> Coordinator \<Rightarrow> bool \<times> Coordinator" where
  "worker_frame pf net wd conn rb C =
     (case rb of
        Inl _ \<Rightarrow>
          let C = (if map_of (co_socks C) (wd_worker_id wd) = Some conn
                   then C\<lparr>co_socks := AList.delete (wd_worker_id wd) (co_socks C)\<rparr> else C)
          in (False, snd (on_sched (worker_lost (wd_worker_id wd)) C))
      | Inr body \<Rightarrow>
          (case decode_frame body of
             Inl _ \<Rightarrow> (True, C)
           | Inr m \<Rightarrow>
               if ms_kind m = MK_completion then (True, report_results pf net conn (ms_member_results m) C)
               else if ms_kind m = MK_ping then (True, reply net conn (default_message\<lparr>ms_kind := MK_pong\<rparr>) C)
               else if ms_kind m = MK_shutdown then (False, reply net conn (default_message\<lparr>ms_kind := MK_shutdown_ack\<rparr>) C)
               else (True, C)))"

definition submit_reply :: "RequestId \<Rightarrow> unit Result \<Rightarrow> Message" where
  "submit_reply rid res =
     (let a = default_message\<lparr>ms_kind := MK_submit_ack, ms_request_id := rid\<rparr>
      in case res of Inl e \<Rightarrow> a\<lparr>ms_error := e\<rparr> | Inr _ \<Rightarrow> a\<lparr>ms_accepted := True\<rparr>)"

definition explain_reply :: "RequestId \<Rightarrow> Impl \<Rightarrow> Message" where
  "explain_reply rid S =
     (let a = default_message\<lparr>ms_kind := MK_explain_resp, ms_request_id := rid\<rparr>
      in case explain rid S of
           Inl e \<Rightarrow> a\<lparr>ms_error := e\<rparr>
         | Inr ex \<Rightarrow> a\<lparr>ms_explain := ex, ms_attempt_id := ex_attempt_id ex,
             ms_lifecycle := (case lifecycle_of rid S of None \<Rightarrow> LC_submitted | Some l \<Rightarrow> l),
             ms_generation := current_generation_of rid S\<rparr>)"

definition state_reply :: "Impl \<Rightarrow> Message" where
  "state_reply S = default_message\<lparr>ms_kind := MK_state, ms_epoch := sc_epoch S,
     ms_workers := filter (\<lambda>w. \<not> is_nil (wd_worker_id w)) (workers_of S)\<rparr>"

text \<open>One message of a client: whether the connection stays open, and the state.\<close>
fun client_message ::
  "platform \<Rightarrow> (nat \<Rightarrow> u8 list \<Rightarrow> bool) \<Rightarrow> nat \<Rightarrow> MsgKind \<Rightarrow> Message \<Rightarrow> Coordinator \<Rightarrow> bool \<times> Coordinator" where
  "client_message pf net conn MK_submit m C =
     (let C = C\<lparr>co_tokens := AList.update (request_id (ms_request m)) (ms_tokens m) (co_tokens C)\<rparr>;
          (res, C) = on_sched (submit pf (ms_request m)) C
      in (True, reply net conn (submit_reply (request_id (ms_request m)) res) C))"
| "client_message pf net conn MK_cancel m C =
     (let (cr, C) = on_sched (cancel (ms_request_id m)) C
      in (True, reply net conn (default_message\<lparr>ms_kind := MK_cancel_ack, ms_request_id := ms_request_id m,
            ms_applied := ca_applied cr, ms_cancel_result := cr, ms_error := mk_error (ca_code cr) (ca_message cr)\<rparr>) C))"
| "client_message pf net conn MK_query_state m C = (True, reply net conn (state_reply (co_sched C)) C)"
| "client_message pf net conn MK_query_explain m C = (True, reply net conn (explain_reply (ms_request_id m) (co_sched C)) C)"
| "client_message pf net conn MK_completion m C = (True, report_results pf net conn (ms_member_results m) C)"
| "client_message pf net conn MK_roll_epoch m C =
     (let (rr, C) = on_sched roll_epoch C
      in (True, case rr of Inl _ \<Rightarrow> C
            | Inr _ \<Rightarrow> reply net conn (default_message\<lparr>ms_kind := MK_state, ms_epoch := sc_epoch (co_sched C)\<rparr>) C))"
| "client_message pf net conn MK_query_stats m C =
     (True, reply net conn (default_message\<lparr>ms_kind := MK_stats_resp, ms_stats := sc_stats (co_sched C)\<rparr>) C)"
| "client_message pf net conn MK_shutdown m C = (False, reply net conn (default_message\<lparr>ms_kind := MK_shutdown_ack\<rparr>) C)"
| "client_message pf net conn _ m C = (True, C)"

definition client_frame :: "platform \<Rightarrow> (nat \<Rightarrow> u8 list \<Rightarrow> bool) \<Rightarrow> nat \<Rightarrow> u8 list Result \<Rightarrow> Coordinator \<Rightarrow> bool \<times> Coordinator" where
  "client_frame pf net conn rb C =
     (case rb of
        Inl _ \<Rightarrow> (False, C)
      | Inr body \<Rightarrow> (case decode_frame body of Inl _ \<Rightarrow> (True, C) | Inr m \<Rightarrow> client_message pf net conn (ms_kind m) m C))"

subsection \<open>Dispatch\<close>

definition worker_for :: "WorkerId \<Rightarrow> Coordinator \<Rightarrow> WorkerDescriptor" where
  "worker_for w C = (case map_of (co_workers C) w of None \<Rightarrow> default_worker | Some wd \<Rightarrow> wd)"

text \<open>The tokens of the members and the running total after each of them; none if a member's tokens are missing.\<close>
fun gather_tokens :: "(RequestId, u32 list) alist \<Rightarrow> ExecutableMember list \<Rightarrow> u64 \<Rightarrow> (u32 list \<times> u64 list) option" where
  "gather_tokens toks [] tot = Some ([], [])"
| "gather_tokens toks (m # ms) tot =
     (case map_of toks (em_request_id m) of
        None \<Rightarrow> None
      | Some tvec \<Rightarrow>
          if length tvec < unat (em_token_start m + em_token_count m) then None
          else
            let slice = take (unat (em_token_start m + em_token_count m) - unat (em_token_start m)) (drop (unat (em_token_start m)) tvec);
                tot = tot + em_token_count m
            in case gather_tokens toks ms tot of
                 None \<Rightarrow> None
               | Some (ts, offs) \<Rightarrow> Some (slice @ ts, tot # offs))"

definition dispatch_message :: "DispatchedGroup \<Rightarrow> Coordinator \<Rightarrow> Message option" where
  "dispatch_message dg C =
     map_option (\<lambda>(ts, offs). default_message\<lparr>ms_kind := MK_dispatch, ms_group := dg_group dg, ms_epoch := sc_epoch (co_sched C),
         ms_worker := default_worker\<lparr>wd_boot_id := wd_boot_id (worker_for (dg_assigned_worker dg) C)\<rparr>,
         ms_member_tokens := ts, ms_member_token_offsets := 0 # offs\<rparr>)
       (gather_tokens (co_tokens C) (eg_members (dg_group dg)) 0)"

definition dispatch_group :: "(nat \<Rightarrow> u8 list \<Rightarrow> bool) \<Rightarrow> DispatchedGroup \<Rightarrow> Coordinator \<Rightarrow> bool \<times> Coordinator" where
  "dispatch_group net dg C =
     (case map_of (co_socks C) (dg_assigned_worker dg) of
        None \<Rightarrow> (False, C)
      | Some conn \<Rightarrow>
          (case dispatch_message dg C of
             None \<Rightarrow> (False, C)
           | Some d \<Rightarrow> (case encode_frame d of Inl _ \<Rightarrow> (False, C) | Inr body \<Rightarrow> send_to net conn body C)))"

definition dispatch_or_lose :: "(nat \<Rightarrow> u8 list \<Rightarrow> bool) \<Rightarrow> DispatchedGroup \<Rightarrow> Coordinator \<Rightarrow> Coordinator" where
  "dispatch_or_lose net dg C =
     (let (sent, C) = dispatch_group net dg C
      in if sent then C else snd (on_sched (worker_lost (dg_assigned_worker dg)) C))"

text \<open>One turn of the scheduling loop.\<close>
definition schedule_turn :: "(nat \<Rightarrow> u8 list \<Rightarrow> bool) \<Rightarrow> Coordinator \<Rightarrow> Coordinator" where
  "schedule_turn net C =
     (case on_sched run_cycle C of
        (Inl _, C) \<Rightarrow> C
      | (Inr batch, C) \<Rightarrow> fold (dispatch_or_lose net) (db_groups batch) C)"

subsection \<open>Interleavings\<close>

text \<open>
  The atomic actions of the coordinator's threads: each changes the scheduler at most once, under its lock, and
  the threads interleave between them. A cycle finds unused identities, and a submitted plan fits the chunk index.
\<close>
inductive coord_step :: "platform \<Rightarrow> Coordinator \<Rightarrow> Coordinator \<Rightarrow> bool" for pf where
  started: "coord_step pf C (fst (snd (coordinator_start ne C fds)))"
| stopped: "coord_step pf C (fst (coordinator_shutdown C fds))"
| joined: "coord_step pf C (snd (first_frame net conn fb C))"
| left: "coord_step pf C (snd (worker_frame pf net wd conn (Inl e) C))"
| answered: "coord_step pf C (reply net conn m C)"
| reported: "coord_step pf C (snd (on_sched (report_completion pf r) C))"
| stored: "coord_step pf C (C\<lparr>co_tokens := AList.update rid toks (co_tokens C)\<rparr>)"
| submitted: "plan_fits pf (sc_cfg (co_sched C)) req \<Longrightarrow> coord_step pf C (snd (on_sched (submit pf req) C))"
| cancelled: "coord_step pf C (snd (on_sched (cancel rid) C))"
| rolled: "coord_step pf C (snd (on_sched roll_epoch C))"
| cycled: "room (length (sc_requests (co_sched C))) (co_sched C) \<Longrightarrow> coord_step pf C (snd (on_sched run_cycle C))"
| dispatched: "coord_step pf C (dispatch_or_lose net dg C)"

inductive coord_run :: "platform \<Rightarrow> Coordinator \<Rightarrow> Coordinator \<Rightarrow> bool" for pf where
  coord_refl: "coord_run pf C C"
| coord_next: "coord_run pf C D \<Longrightarrow> coord_step pf D E \<Longrightarrow> coord_run pf C E"

lemma coord_one: "coord_step pf C D \<Longrightarrow> coord_run pf C D"
  by (rule coord_next [OF coord_refl])

lemma coord_trans: "coord_run pf D E \<Longrightarrow> coord_run pf C D \<Longrightarrow> coord_run pf C E"
  by (induction rule: coord_run.induct) (auto intro: coord_next)

lemma on_sched_sel [simp]: "co_sched (snd (on_sched f C)) = snd (f (co_sched C))" "fst (on_sched f C) = fst (f (co_sched C))"
  by (simp_all add: on_sched_def case_prod_unfold Let_def)

lemma send_to_sched [simp]: "co_sched (snd (send_to net conn body C)) = co_sched C" "co_tokens (snd (send_to net conn body C)) = co_tokens C"
  by (simp_all add: send_to_def)

lemma reply_sel [simp]: "co_sched (reply net conn m C) = co_sched C" "co_tokens (reply net conn m C) = co_tokens C"
  by (simp_all add: reply_def split: sum.split)

lemma first_frame_sched:
  "co_sched (snd (first_frame net conn fb C)) = co_sched C \<or>
    (\<exists>wd. co_sched (snd (first_frame net conn fb C)) = snd (register_worker wd (co_sched C)))"
  by (auto simp: first_frame_def Let_def split: sum.split)

lemma dispatch_group_sched [simp]: "co_sched (snd (dispatch_group net dg C)) = co_sched C"
  by (simp add: dispatch_group_def split: option.split sum.split)

lemma dispatch_or_lose_sched:
  "co_sched (dispatch_or_lose net dg C) = co_sched C \<or> co_sched (dispatch_or_lose net dg C) = snd (worker_lost (dg_assigned_worker dg) (co_sched C))"
  by (auto simp: dispatch_or_lose_def case_prod_unfold Let_def)

lemma coord_step_run:
  assumes "coord_step pf C D"
  shows "run pf (co_sched C) (co_sched D)"
  using assms
proof (cases rule: coord_step.cases)
  case (started ne fds)
  have "co_sched D = snd (unregister_worker (StrongId 0) (co_sched C))"
    unfolding started by (simp add: coordinator_start_def Let_def split: prod.split sum.split)
  then show ?thesis using sched_step.unregistered step_run by metis
next
  case (stopped fds)
  then show ?thesis by (simp add: coordinator_shutdown_def case_prod_unfold Let_def run_refl)
next
  case (joined net conn fb)
  show ?thesis using first_frame_sched [of net conn fb C] step_run [OF sched_step.registered] run_refl unfolding joined by metis
next
  case (left net wd conn e)
  have "co_sched D = snd (worker_lost (wd_worker_id wd) (co_sched C))" unfolding left by (simp add: worker_frame_def Let_def)
  then show ?thesis using step_run [OF sched_step.lost] by metis
next
  case (submitted req)
  then show ?thesis by (simp add: submit_def step_run [OF sched_step.submitted])
next
  case (dispatched net dg)
  show ?thesis using dispatch_or_lose_sched [of net dg C] step_run [OF sched_step.lost] run_refl unfolding dispatched by metis
qed (simp_all add: run_refl step_run sched_step.reported sched_step.cancelled sched_step.rolled sched_step.cycled)

subsection \<open>Handlers\<close>

lemma report_results_run: "coord_run pf C (report_results pf net conn rs C)"
proof (induction rs arbitrary: C)
  case (Cons r rs)
  let ?D = "snd (on_sched (report_completion pf r) C)"
  have D: "coord_run pf C ?D" by (rule coord_one [OF coord_step.reported])
  show ?case
  proof (cases "fst (on_sched (report_completion pf r) C)")
    case (Inl e)
    then have "report_results pf net conn (r # rs) C =
        reply net conn (default_message\<lparr>ms_kind := MK_error, ms_error := e, ms_request_id := mr_request_id r\<rparr>) ?D"
      by (cases "on_sched (report_completion pf r) C") simp
    then show ?thesis using coord_next [OF D coord_step.answered] by simp
  next
    case (Inr u)
    then have "report_results pf net conn (r # rs) C = report_results pf net conn rs ?D"
      by (cases "on_sched (report_completion pf r) C") simp
    then show ?thesis using coord_trans [OF Cons.IH D] by simp
  qed
qed (simp add: coord_refl)

lemma fold_coord_run: "(\<And>x C. coord_run pf C (f x C)) \<Longrightarrow> coord_run pf C (fold f xs C)"
proof (induction xs arbitrary: C)
  case (Cons x xs)
  have "coord_run pf C (f x C)" by (rule Cons.prems)
  with Cons show ?case using coord_trans by simp blast
qed (simp add: coord_refl)

lemma worker_frame_run: "coord_run pf C (snd (worker_frame pf net wd conn rb C))"
proof (cases rb)
  case (Inl e)
  show ?thesis unfolding Inl by (rule coord_one [OF coord_step.left])
next
  case (Inr body)
  show ?thesis
    unfolding worker_frame_def Inr sum.case
    by (cases "decode_frame body") (simp_all add: coord_refl report_results_run coord_one coord_step.answered)
qed

lemma client_message_run:
  assumes "k = MK_submit \<longrightarrow> plan_fits pf (sc_cfg (co_sched C)) (ms_request m)"
  shows "coord_run pf C (snd (client_message pf net conn k m C))"
proof -
  have cancel: "coord_run pf C (reply net conn a (snd (on_sched (cancel rid) C)))" for a rid
    by (rule coord_next [OF coord_one [OF coord_step.cancelled] coord_step.answered])
  have roll: "coord_run pf C (reply net conn a (snd (on_sched roll_epoch C)))" "coord_run pf C (snd (on_sched roll_epoch C))" for a
    by (rule coord_next [OF coord_one [OF coord_step.rolled] coord_step.answered] coord_one [OF coord_step.rolled])+
  let ?C = "C\<lparr>co_tokens := AList.update (request_id (ms_request m)) (ms_tokens m) (co_tokens C)\<rparr>"
  have submit: "coord_run pf C (reply net conn a (snd (on_sched (submit pf (ms_request m)) ?C)))" if "k = MK_submit" for a
  proof -
    have "coord_run pf C ?C" by (rule coord_one [OF coord_step.stored])
    moreover have "coord_step pf ?C (snd (on_sched (submit pf (ms_request m)) ?C))"
      by (rule coord_step.submitted) (use assms that in simp)
    ultimately show ?thesis by (intro coord_next [OF _ coord_step.answered]) (rule coord_next)
  qed
  show ?thesis
    by (cases k) (simp_all add: submit cancel roll report_results_run coord_refl coord_one coord_step.answered Let_def case_prod_unfold
        split: sum.split)
qed

lemma schedule_turn_run:
  assumes "room (length (sc_requests (co_sched C))) (co_sched C)"
  shows "coord_run pf C (schedule_turn net C)"
proof -
  have c: "coord_run pf C (snd (on_sched run_cycle C))" by (rule coord_one [OF coord_step.cycled [OF assms]])
  have "coord_run pf D (fold (dispatch_or_lose net) gs D)" for gs D
    by (rule fold_coord_run) (rule coord_one [OF coord_step.dispatched])
  from coord_trans [OF this c] c show ?thesis
    unfolding schedule_turn_def by (cases "on_sched run_cycle C"; cases "fst (on_sched run_cycle C)") auto
qed

text \<open>
  (C6) The coordinator refines the scheduler: whatever order the atomic actions of connections, cycles and dispatches are taken in, and
  whatever frames arrive and whichever sends fail, the scheduler inside the coordinator has gone through a sequence
  of scheduler operations, so every property of the reachable scheduler states holds in it.
\<close>
theorem coordinator_refines_scheduler:
  assumes "coord_run pf C D" "C = mk_coordinator pf c clock port"
  shows "run pf (mk_scheduler pf c clock) (co_sched D) \<and> reachable pf (co_sched D)"
proof -
  have "run pf (co_sched C) (co_sched D)"
    using assms(1)
  proof (induction rule: coord_run.induct)
    case (coord_next C D E)
    then show ?case using coord_step_run run_trans by blast
  qed (rule run_refl)
  then show ?thesis unfolding assms(2) reachable_def by (auto simp: mk_coordinator_def)
qed

definition demo_coordinator :: Coordinator where
  "demo_coordinator = mk_coordinator sample_platform sample_config (\<lambda>_. 5) 0"

lemma demo_coordinator_fits: "plan_fits sample_platform (sc_cfg (co_sched demo_coordinator)) demo_request"
  by (simp add: plan_fits_def demo_coordinator_def mk_coordinator_def mk_scheduler_def demo_chunk)

theorem coordinator_refines_scheduler_witness:
  "reachable sample_platform (co_sched (snd (client_message sample_platform (\<lambda>conn body. True) 7 MK_submit
      (default_message\<lparr>ms_request := demo_request\<rparr>) demo_coordinator)))"
proof -
  let ?D = "snd (client_message sample_platform (\<lambda>conn body. True) 7 MK_submit (default_message\<lparr>ms_request := demo_request\<rparr>) demo_coordinator)"
  have "coord_run sample_platform demo_coordinator ?D" by (rule client_message_run) (simp add: demo_coordinator_fits)
  then show ?thesis using coordinator_refines_scheduler [OF _ demo_coordinator_def] by blast
qed

text \<open>
  (C29) Handlers decompose: what a worker connection does with a frame or with a broken connection, what a client connection does with a
  frame, and a turn of the scheduling loop are sequences of the atomic actions.
\<close>
theorem handlers_decompose:
  assumes "\<forall>body m. rb = res_ok body \<longrightarrow> decode_frame body = res_ok m \<longrightarrow> plan_fits pf (sc_cfg (co_sched C)) (ms_request m)"
    and "room (length (sc_requests (co_sched C))) (co_sched C)"
  shows "coord_run pf C (snd (worker_frame pf net wd conn rb C)) \<and> coord_run pf C (snd (client_frame pf net conn rb C)) \<and>
    coord_run pf C (schedule_turn net C)"
proof -
  have "coord_run pf C (snd (client_frame pf net conn rb C))"
    using assms(1) client_message_run
    by (auto simp: client_frame_def coord_refl res_ok_def split: sum.split)
  then show ?thesis using worker_frame_run schedule_turn_run [OF assms(2)] by blast
qed

theorem handlers_decompose_witness:
  "coord_run sample_platform demo_coordinator (snd (client_frame sample_platform (\<lambda>conn body. True) 7 (res_ok [1, 13]) demo_coordinator)) \<and>
   coord_run sample_platform demo_coordinator (schedule_turn (\<lambda>conn body. True) demo_coordinator)"
proof -
  have "\<forall>body m. (res_ok [1, 13] :: u8 list Result) = res_ok body \<longrightarrow> decode_frame body = res_ok m \<longrightarrow>
      plan_fits sample_platform (sc_cfg (co_sched demo_coordinator)) (ms_request m)"
    by (auto simp: res_ok_def empty_stats_accepted [unfolded res_ok_def] plan_fits_def remaining_prefill_tokens_def
      default_message_def default_request_def)
  moreover have "room (length (sc_requests (co_sched demo_coordinator))) (co_sched demo_coordinator)"
    by (simp add: room_def demo_coordinator_def mk_coordinator_def mk_scheduler_def)
  ultimately show ?thesis using handlers_decompose by blast
qed

text \<open>A connection that breaks loses its worker even when the worker has meanwhile registered on another connection.\<close>
lemma stale_connection_loses_worker:
  fixes pf net e
  assumes "map_of (co_socks C) (wd_worker_id wd) = Some conn'" "conn' \<noteq> conn"
  defines "D \<equiv> snd (worker_frame pf net wd conn (Inl e) C)"
  shows "map_of (co_socks D) (wd_worker_id wd) = Some conn'" "co_sched D = snd (worker_lost (wd_worker_id wd) (co_sched C))"
  using assms(1,2) by (simp_all add: D_def worker_frame_def Let_def on_sched_def case_prod_unfold)

text \<open>The results after a rejected one are dropped.\<close>
lemma rejected_result_drops_rest:
  "fst (report_completion pf r (co_sched C)) = Inl e \<Longrightarrow> report_results pf net conn (r # rs) C = report_results pf net conn [r] C"
  by (simp add: on_sched_def case_prod_unfold Let_def)

text \<open>A client that sent fewer tokens than its prompt has costs the worker its registration.\<close>
lemma short_tokens_lose_worker:
  assumes "m \<in> set (eg_members (dg_group dg))" "map_of (co_tokens C) (em_request_id m) = Some toks"
    "length toks < unat (em_token_start m + em_token_count m)"
  shows "co_sched (dispatch_or_lose net dg C) = snd (worker_lost (dg_assigned_worker dg) (co_sched C))"
proof -
  have "gather_tokens (co_tokens C) ms tot = None" if "m \<in> set ms" for ms tot
    using that assms(2,3) by (induction ms arbitrary: tot) (auto simp: Let_def split: option.split)
  then have "dispatch_message dg C = None" using assms(1) by (simp add: dispatch_message_def)
  then have "fst (dispatch_group net dg C) = False" by (simp add: dispatch_group_def split: option.split)
  then show ?thesis by (simp add: dispatch_or_lose_def case_prod_unfold Let_def)
qed

end
