(* ===== verification/PF_Worker.thy ===== *)
theory PF_Worker
  imports PF_Coordinator
begin

text \<open>
  The worker process of \<^verbatim>\<open>worker.hpp\<close> and \<^verbatim>\<open>worker.cpp\<close>: the resolver over the tokens of a dispatch frame, the execution of
  a dispatched group, and the life of the worker from its registration to its shutdown. The lemmas join worker and
  coordinator: the worker computes on exactly the tokens the client sent, and the coordinator accepts every result.
\<close>

subsection \<open>The resolver of a dispatch\<close>

record Slice =
  sl_base :: u64
  sl_data :: "u32 list"

definition dispatch_resolve :: "(RequestId, Slice) alist \<Rightarrow> token_resolver" where
  "dispatch_resolve slices r a g offset cnt =
     (case map_of slices r of
        None \<Rightarrow> res_err EC_unknown_request ''no dispatch slice''
      | Some s \<Rightarrow>
          if offset < sl_base s \<or> sl_base s + of_nat (length (sl_data s)) < offset + cnt
          then res_err EC_out_of_range ''dispatch slice range''
          else res_ok (drop (unat (offset - sl_base s)) (sl_data s)))"

text \<open>
  The slice of the \<open>i\<close>-th member: the tokens between its two offsets. A member without both offsets, or whose range
  ends after the tokens, gets none. (A range that ends before it begins is undefined behaviour in C++; it is empty here.)
\<close>
definition add_slice :: "Message \<Rightarrow> nat \<Rightarrow> (RequestId, Slice) alist \<Rightarrow> (RequestId, Slice) alist" where
  "add_slice m i slices =
     (let mem = eg_members (ms_group m) ! i; offs = ms_member_token_offsets m in
      if length offs \<le> i + 1 then slices
      else if length (ms_member_tokens m) < unat (offs ! (i + 1)) then slices
      else AList.update (em_request_id mem)
             \<lparr>sl_base = em_token_start mem,
              sl_data = take (unat (offs ! (i + 1)) - unat (offs ! i)) (drop (unat (offs ! i)) (ms_member_tokens m))\<rparr> slices)"

definition dispatch_slices :: "Message \<Rightarrow> (RequestId, Slice) alist" where
  "dispatch_slices m = fold (add_slice m) [0..<length (eg_members (ms_group m))] []"

subsection \<open>The worker\<close>

record Worker =
  wk_id :: WorkerId
  wk_host :: string
  wk_port :: u16
  wk_ex :: Executor
  wk_backend :: string
  wk_boot_id :: WorkerBootId
  wk_epoch :: Epoch
  wk_calls :: nat

text \<open>The boot identity mixes the reading \<open>now\<close> of the high-resolution clock.\<close>
definition mk_worker :: "WorkerId \<Rightarrow> string \<Rightarrow> u16 \<Rightarrow> Executor \<Rightarrow> string \<Rightarrow> u64 \<Rightarrow> Worker" where
  "mk_worker i host port ex backend now = \<lparr>wk_id = i, wk_host = host, wk_port = port, wk_ex = ex, wk_backend = backend,
     wk_boot_id = StrongId (xor 0x9E3779B97F4A7C15 now), wk_epoch = nil_id, wk_calls = 0\<rparr>"

definition register_message :: "Worker \<Rightarrow> Message" where
  "register_message w = default_message\<lparr>ms_kind := MK_worker_register,
     ms_worker := default_worker\<lparr>wd_worker_id := wk_id w, wd_boot_id := wk_boot_id w, wd_host := wk_host w,
       wd_backend := wk_backend w, wd_state := WS_ready, wd_capacity_units := 1\<rparr>\<rparr>"

text \<open>A result under the authority of the worker and of the epoch of the dispatch.\<close>
definition authorize :: "Worker \<Rightarrow> Message \<Rightarrow> MemberResult \<Rightarrow> MemberResult" where
  "authorize w m r = r\<lparr>mr_epoch := ms_epoch m, mr_worker := wk_id w, mr_boot := wk_boot_id w\<rparr>"

definition failed_result :: "ErrorInfo \<Rightarrow> ExecutableMember \<Rightarrow> MemberResult" where
  "failed_result e mem = default_member_result\<lparr>mr_request_id := em_request_id mem, mr_attempt_id := em_attempt_id mem,
     mr_generation := em_generation mem, mr_outcome := MO_retryable_failure, mr_failure_code := err_code e,
     mr_message := err_message e\<rparr>"

definition worker_dispatch :: "Worker \<Rightarrow> Message \<Rightarrow> Message \<times> Worker" where
  "worker_dispatch w m =
     (let results = (case x_execute (wk_ex w) (wk_calls w) (ms_group m) (dispatch_resolve (dispatch_slices m)) of
            Inr er \<Rightarrow> map (authorize w m) (er_members er)
          | Inl e \<Rightarrow> map (\<lambda>mem. authorize w m (failed_result e mem)) (eg_members (ms_group m)))
      in (default_message\<lparr>ms_kind := MK_completion, ms_member_results := results\<rparr>, w\<lparr>wk_calls := Suc (wk_calls w)\<rparr>))"

definition send_message :: "(nat \<Rightarrow> io) \<Rightarrow> Message \<Rightarrow> Socket \<Rightarrow> Socket" where
  "send_message os m sk = (case encode_frame m of Inl _ \<Rightarrow> sk | Inr body \<Rightarrow> snd (send_frame os body sk))"

lemma send_message_incoming [simp]: "sk_incoming (send_message os m sk) = sk_incoming sk"
  by (simp add: send_message_def split: sum.split)

lemma recv_frame_consumes:
  assumes "recv_frame os sk = (Inr body, sk')"
  shows "length (sk_incoming sk') < length (sk_incoming sk)"
proof -
  obtain hdr sk1 where h: "recv_loop os 4 [] sk = (Inr hdr, sk1)" "recv_loop os (unat (prefix_length hdr)) [] sk1 = (Inr body, sk')"
    using assms by (auto simp: recv_frame_def recv_exact_def res_err_def Let_def split: prod.splits sum.splits if_splits)
  show ?thesis using recv_loop_takes [OF h(1)] recv_loop_takes [OF h(2)] by auto
qed

text \<open>
  The loop over frames: \<open>stop n\<close> is the shutdown flag as the \<open>n\<close>-th turn reads it. Every turn consumes a frame of the finite stream, so
  the loop ends when the coordinator closes the connection at the latest.
\<close>
function worker_loop :: "(nat \<Rightarrow> io) \<Rightarrow> (nat \<Rightarrow> bool) \<Rightarrow> nat \<Rightarrow> Worker \<Rightarrow> Socket \<Rightarrow> unit Result \<times> Worker \<times> Socket" where
  "worker_loop os stop n w sk =
     (if stop n then (res_ok (), w, sk)
      else case recv_frame os sk of
        (Inl _, sk') \<Rightarrow> (res_err EC_io_failure ''coordinator closed connection'', w, sk')
      | (Inr body, sk') \<Rightarrow>
          (case decode_frame body of
             Inl _ \<Rightarrow> worker_loop os stop (Suc n) w sk'
           | Inr m \<Rightarrow>
               if ms_kind m = MK_dispatch
               then worker_loop os stop (Suc n) (snd (worker_dispatch w m)) (send_message os (fst (worker_dispatch w m)) sk')
               else if ms_kind m = MK_shutdown
               then (res_ok (), w, send_message os (default_message\<lparr>ms_kind := MK_shutdown_ack\<rparr>) sk')
               else worker_loop os stop (Suc n) w sk'))"
  by pat_completeness auto

termination worker_loop
  by (relation "measure (\<lambda>(os, stop, n, w, sk). length (sk_incoming sk))") (auto dest!: recv_frame_consumes [OF sym])

declare worker_loop.simps [simp del]

text \<open>
  \<^verbatim>\<open>Worker::run\<close> over a connection \<open>sk\<close>. The reply to the registration may have any kind; its epoch is
  taken. The socket is closed on every path.
\<close>
definition worker_session :: "(nat \<Rightarrow> io) \<Rightarrow> (nat \<Rightarrow> bool) \<Rightarrow> Worker \<Rightarrow> Socket \<Rightarrow> unit Result \<times> Worker \<times> Socket" where
  "worker_session os stop w sk =
     (case encode_frame (register_message w) of
        Inl e \<Rightarrow> (Inl e, w, sk)
      | Inr rb \<Rightarrow>
          (case send_frame os rb sk of
             (Inl e, sk) \<Rightarrow> (Inl e, w, sk)
           | (Inr _, sk) \<Rightarrow>
               (case recv_frame os sk of
                  (Inl e, sk) \<Rightarrow> (Inl e, w, sk)
                | (Inr af, sk) \<Rightarrow>
                    (case decode_frame af of
                       Inl e \<Rightarrow> (Inl e, w, sk)
                     | Inr ack \<Rightarrow> worker_loop os stop 0 (w\<lparr>wk_epoch := ms_epoch ack\<rparr>) sk))))"

definition worker_run ::
  "NetEnv \<Rightarrow> (nat \<Rightarrow> io) \<Rightarrow> (nat \<Rightarrow> bool) \<Rightarrow> Worker \<Rightarrow> Socket \<Rightarrow> descriptors \<Rightarrow> unit Result \<times> Worker \<times> Socket \<times> descriptors" where
  "worker_run ne os stop w sk fds =
     (case connect_socket ne (wk_host w) (wk_port w) fds of
        (Inl e, fds) \<Rightarrow> (Inl e, w, sk, fds)
      | (Inr s, fds) \<Rightarrow> (case worker_session os stop w sk of (r, w, sk) \<Rightarrow> (r, w, close_socket sk, fds - {s})))"

subsection \<open>The receive loop\<close>

text \<open>A dispatch frame on the stream is executed and answered, and the loop goes on with the frames after it.\<close>
lemma worker_answers_dispatch:
  assumes "delivers_bytes os" "\<not> stop n" "sk_incoming sk = frame_bytes body @ rest" "2 \<le> length body" "length body \<le> frame_limit"
    and "decode_frame body = res_ok m" "ms_kind m = MK_dispatch"
  shows "\<exists>sk'. sk_incoming sk' = rest \<and> worker_loop os stop n w sk =
    worker_loop os stop (Suc n) (snd (worker_dispatch w m)) (send_message os (fst (worker_dispatch w m)) sk')"
proof -
  obtain sk' where "recv_frame os sk = (Inr body, sk')" "sk_incoming sk' = rest" using recv_frame_ok [OF assms(1,3-5)] by blast
  then show ?thesis using assms(2,6,7) by (subst worker_loop.simps) (auto simp: res_ok_def)
qed

text \<open>A shutdown frame is acknowledged and ends the loop; so does the end of the stream, as an error.\<close>
lemma worker_stops:
  assumes "delivers_bytes os" "\<not> stop n" "sk_incoming sk = frame_bytes body @ rest" "2 \<le> length body" "length body \<le> frame_limit"
    and "decode_frame body = res_ok m" "ms_kind m = MK_shutdown"
  shows "fst (worker_loop os stop n w sk) = res_ok ()"
proof -
  obtain sk' where "recv_frame os sk = (Inr body, sk')" using recv_frame_ok [OF assms(1,3-5)] by blast
  then show ?thesis using assms(2,6,7) by (subst worker_loop.simps) (simp add: res_ok_def)
qed

lemma worker_stream_ends:
  assumes "\<not> stop n" "sk_incoming sk = []"
  shows "fst (worker_loop os stop n w sk) = res_err EC_io_failure ''coordinator closed connection''"
proof -
  have "\<not> is_ok (fst (recv_frame os sk))"
    using recv_frame_consumes [of os sk] assms(2) by (cases "recv_frame os sk"; cases "fst (recv_frame os sk)") auto
  then show ?thesis
    using assms(1) by (subst worker_loop.simps) (auto split: prod.split sum.split)
qed

subsection \<open>Tokens\<close>

text \<open>The tokens between two offsets, relative to \<open>tot\<close>, are those of the member.\<close>
definition carved :: "(RequestId, u32 list) alist \<Rightarrow> u32 list \<Rightarrow> u64 \<Rightarrow> ExecutableMember \<Rightarrow> u64 \<Rightarrow> u64 \<Rightarrow> bool" where
  "carved toks ts tot m b e \<longleftrightarrow> unat tot \<le> unat b \<and> unat e = unat b + unat (em_token_count m) \<and> unat e \<le> unat tot + length ts \<and>
     (\<exists>tv. map_of toks (em_request_id m) = Some tv \<and> unat (em_token_start m) + unat (em_token_count m) \<le> length tv \<and>
       take (unat e - unat b) (drop (unat b - unat tot) ts) = take (unat (em_token_count m)) (drop (unat (em_token_start m)) tv))"

lemma gather_carves:
  assumes "gather_tokens toks ms tot = Some (ts, offs)" "\<forall>m \<in> set ms. unat (em_token_start m) + unat (em_token_count m) < 2 ^ 64"
    "unat tot + length ts < 2 ^ 64"
  shows "length offs = length ms \<and> (\<forall>i < length ms. carved toks ts tot (ms ! i) ((tot # offs) ! i) (offs ! i))"
  using assms
proof (induction ms arbitrary: tot ts offs)
  case (Cons m ms)
  let ?n = "em_token_count m" and ?s = "em_token_start m"
  have sum: "unat (?s + ?n) = unat ?s + unat ?n" using Cons.prems(2) by (simp add: unat_plus_fits)
  obtain tv ts' offs' where g: "map_of toks (em_request_id m) = Some tv" "unat ?s + unat ?n \<le> length tv"
      "gather_tokens toks ms (tot + ?n) = Some (ts', offs')" "ts = take (unat ?n) (drop (unat ?s) tv) @ ts'" "offs = (tot + ?n) # offs'"
    using Cons.prems(1) by (auto simp: sum Let_def split: option.splits if_splits prod.splits)
  have len: "length ts = unat ?n + length ts'" using g(2,4) by simp
  have tot: "unat (tot + ?n) = unat tot + unat ?n" using Cons.prems(3) len by (simp add: unat_plus_fits)
  have "\<forall>m \<in> set ms. unat (em_token_start m) + unat (em_token_count m) < 2 ^ 64" "unat (tot + ?n) + length ts' < 2 ^ 64"
    using Cons.prems(2,3) len by (simp_all add: tot)
  note ih = Cons.IH [OF g(3) this]
  have "carved toks ts tot ((m # ms) ! i) ((tot # offs) ! i) (offs ! i)" if "i < length (m # ms)" for i
  proof (cases i)
    case 0
    have "carved toks ts tot m tot (tot + ?n)"
      unfolding carved_def using g(1,2) len by (intro conjI exI [of _ tv]) (simp_all add: tot g(4))
    then show ?thesis by (simp add: 0 g(5))
  next
    case (Suc k)
    then have c: "carved toks ts' (tot + ?n) (ms ! k) (((tot + ?n) # offs') ! k) (offs' ! k)" using ih that by simp
    have d: "drop (unat b - unat tot) ts = drop (unat b - unat (tot + ?n)) ts'" if "unat (tot + ?n) \<le> unat b" for b :: u64
      using that g(2) unfolding g(4) by (simp add: tot)
    have "carved toks ts tot (ms ! k) (((tot + ?n) # offs') ! k) (offs' ! k)"
      using c d [of "((tot + ?n) # offs') ! k"] len unfolding carved_def tot by auto
    then show ?thesis by (simp add: Suc g(5))
  qed
  then show ?case using ih by (simp add: g(5))
qed simp

text \<open>The slice a member gets.\<close>
lemma dispatch_slice:
  assumes "distinct (map em_request_id (eg_members (ms_group d)))" "i < length (eg_members (ms_group d))"
    "length (ms_member_token_offsets d) = Suc (length (eg_members (ms_group d)))"
    "unat (ms_member_token_offsets d ! Suc i) \<le> length (ms_member_tokens d)"
  shows "map_of (dispatch_slices d) (em_request_id (eg_members (ms_group d) ! i)) =
    Some \<lparr>sl_base = em_token_start (eg_members (ms_group d) ! i),
      sl_data = take (unat (ms_member_token_offsets d ! Suc i) - unat (ms_member_token_offsets d ! i))
        (drop (unat (ms_member_token_offsets d ! i)) (ms_member_tokens d))\<rparr>" (is "_ = Some ?sl")
proof -
  let ?r = "\<lambda>i. em_request_id (eg_members (ms_group d) ! i)"
  have other: "map_of (add_slice d k sl) (?r i) = map_of sl (?r i)" if "k < length (eg_members (ms_group d))" "k \<noteq> i" for k sl
  proof -
    have "?r k \<noteq> ?r i" using assms(1,2) that nth_eq_iff_index_eq [OF assms(1), of k i] by simp
    then show ?thesis by (simp add: add_slice_def Let_def AList.update_conv')
  qed
  have "i < n \<longrightarrow> map_of (fold (add_slice d) [0..<n] []) (?r i) = Some ?sl" if "n \<le> length (eg_members (ms_group d))" for n
    using that
  proof (induction n)
    case (Suc n)
    show ?case
    proof (cases "n = i")
      case True
      then show ?thesis using assms(2-4) by (simp add: add_slice_def Let_def AList.update_conv')
    next
      case False
      then show ?thesis using Suc other [of n] by simp
    qed
  qed simp
  then show ?thesis using assms(2) unfolding dispatch_slices_def by blast
qed

lemma dispatch_sends:
  assumes "dispatch_message dg C = Some d"
  obtains ts offs where "gather_tokens (co_tokens C) (eg_members (dg_group dg)) 0 = Some (ts, offs)"
    "ms_member_tokens (received d) = ts" "ms_member_token_offsets (received d) = 0 # offs" "ms_epoch (received d) = sc_epoch (co_sched C)"
    "ms_group (received d) = wire_group (dg_group dg)" "ms_member_tokens d = ts"
  using assms by (auto simp: dispatch_message_def received_def)

lemma delivered_tokens:
  assumes "dispatch_message dg C = Some d" "distinct (map em_request_id (eg_members (dg_group dg)))"
    "\<forall>m \<in> set (eg_members (dg_group dg)). unat (em_token_start m) + unat (em_token_count m) < 2 ^ 64"
    "length (ms_member_tokens d) < 2 ^ 64" "m \<in> set (eg_members (dg_group dg))"
  shows "\<exists>toks. map_of (co_tokens C) (em_request_id m) = Some toks \<and>
    dispatch_resolve (dispatch_slices (received d)) (em_request_id m) a g (em_token_start m) (em_token_count m) =
      res_ok (take (unat (em_token_count m)) (drop (unat (em_token_start m)) toks))"
proof -
  obtain ts offs where d: "gather_tokens (co_tokens C) (eg_members (dg_group dg)) 0 = Some (ts, offs)"
      "ms_member_tokens (received d) = ts" "ms_member_token_offsets (received d) = 0 # offs"
      "ms_group (received d) = wire_group (dg_group dg)" "ms_member_tokens d = ts"
    by (rule dispatch_sends [OF assms(1)]) (rule that; assumption)
  have grp: "eg_members (ms_group (received d)) = eg_members (dg_group dg)" by (simp add: d(4) wire_group_def)
  have "unat (0 :: u64) + length ts < 2 ^ 64" using assms(4) d(5) by simp
  note c = gather_carves [OF d(1) assms(3) this]
  obtain i where i: "i < length (eg_members (dg_group dg))" "m = eg_members (dg_group dg) ! i" using assms(5) by (auto simp: in_set_conv_nth)
  have "carved (co_tokens C) ts 0 m ((0 # offs) ! i) (offs ! i)" using c i by blast
  then obtain tv where tv: "map_of (co_tokens C) (em_request_id m) = Some tv" "unat (em_token_start m) + unat (em_token_count m) \<le> length tv"
      "take (unat (offs ! i) - unat ((0 # offs) ! i)) (drop (unat ((0 # offs) ! i)) ts) = take (unat (em_token_count m)) (drop (unat (em_token_start m)) tv)"
      "unat (offs ! i) \<le> length ts"
    unfolding carved_def by auto
  have "map_of (dispatch_slices (received d)) (em_request_id m) = Some \<lparr>sl_base = em_token_start m,
      sl_data = take (unat (em_token_count m)) (drop (unat (em_token_start m)) tv)\<rparr>"
    using dispatch_slice [of "received d" i] assms(2) i c tv(3,4) by (simp add: grp d(2,3))
  moreover have "length (take (unat (em_token_count m)) (drop (unat (em_token_start m)) tv)) = unat (em_token_count m)"
    using tv(2) by simp
  ultimately show ?thesis using tv(1) by (intro exI [of _ tv]) (simp add: dispatch_resolve_def del: length_take length_drop)
qed

text \<open>
  (C18) Tokens reach the worker: for every member of a dispatched group, the resolver that the worker builds from the dispatch frame gives
  exactly the tokens of the member's range, out of those that the client submitted for its request. The requests of
  the group differ, their ranges do not wrap, and the frame holds less than \<open>2 ^ 64\<close> tokens.
\<close>
theorem dispatch_delivers_tokens:
  assumes "dispatch_message dg C = Some d" "distinct (map em_request_id (eg_members (dg_group dg)))"
    "\<forall>m \<in> set (eg_members (dg_group dg)). unat (em_token_start m) + unat (em_token_count m) < 2 ^ 64"
    "length (ms_member_tokens d) < 2 ^ 64" "m \<in> set (eg_members (dg_group dg))"
  shows "\<exists>toks. map_of (co_tokens C) (em_request_id m) = Some toks \<and>
    dispatch_resolve (dispatch_slices (received d)) (em_request_id m) a g (em_token_start m) (em_token_count m) =
      res_ok (take (unat (em_token_count m)) (drop (unat (em_token_start m)) toks))"
  by (rule delivered_tokens [OF assms])

definition demo_member_of :: "u64 \<Rightarrow> u64 \<Rightarrow> u64 \<Rightarrow> ExecutableMember" where
  "demo_member_of r start cnt = sample_member\<lparr>em_request_id := StrongId r, em_token_start := start, em_token_count := cnt\<rparr>"

definition demo_group :: DispatchedGroup where
  "demo_group = \<lparr>dg_group_id = StrongId 1, dg_group = default_group\<lparr>eg_members := [demo_member_of 7 1 2, demo_member_of 8 0 1]\<rparr>,
     dg_assigned_worker = StrongId 5, dg_reservation_id = nil_id, dg_reserved_bytes = 0\<rparr>"

theorem dispatch_delivers_tokens_witness:
  "\<exists>d. dispatch_message demo_group (demo_coordinator\<lparr>co_tokens := [(StrongId 7, [10, 11, 12]), (StrongId 8, [20])]\<rparr>) = Some d \<and>
    dispatch_resolve (dispatch_slices (received d)) (StrongId 7) (StrongId 1) (StrongId 3) 1 2 = res_ok [11, 12]"
proof -
  let ?C = "demo_coordinator\<lparr>co_tokens := [(StrongId 7, [10, 11, 12]), (StrongId 8, [20])]\<rparr>"
  let ?m = "demo_member_of 7 1 2"
  have sel: "em_request_id (demo_member_of r n c) = StrongId r" "em_token_start (demo_member_of r n c) = n"
      "em_token_count (demo_member_of r n c) = c" for r n c
    by (simp_all add: demo_member_of_def)
  have ms: "eg_members (dg_group demo_group) = [?m, demo_member_of 8 0 1]" by (simp add: demo_group_def)
  obtain d where d: "dispatch_message demo_group ?C = Some d" "length (ms_member_tokens d) < 2 ^ 64"
    by (simp add: dispatch_message_def ms sel)
  have "\<exists>toks. map_of (co_tokens ?C) (em_request_id ?m) = Some toks \<and>
      dispatch_resolve (dispatch_slices (received d)) (em_request_id ?m) (StrongId 1) (StrongId 3) (em_token_start ?m) (em_token_count ?m) =
        res_ok (take (unat (em_token_count ?m)) (drop (unat (em_token_start ?m)) toks))"
    by (rule dispatch_delivers_tokens [OF d(1) _ _ d(2)]) (simp_all add: ms sel)
  then show ?thesis using d(1) by (simp add: sel)
qed

subsection \<open>Boot identities\<close>

text \<open>The boot identity a worker is registered under; completions and cycles keep it.\<close>
definition boots :: "Impl \<Rightarrow> WorkerId \<Rightarrow> WorkerBootId option" where
  "boots S w = map_option (\<lambda>x. wd_boot_id (ws_desc x)) (map_of (sc_workers S) w)"

lemma boots_workers: "sc_workers T = sc_workers S \<Longrightarrow> boots T = boots S"
  by (simp add: boots_def fun_eq_iff)

lemma boots_updates [simp]:
  "boots (upd_rs rid f S) = boots S" "boots (upd_stats h S) = boots S" "boots (upd_tenant t k S) = boots S" "boots (upd_mem u S) = boots S"
  "boots (tick S) = boots S" "boots (log_at now ty q a msg S) = boots S" "boots (log_now ty q a msg S) = boots S"
  "boots (S\<lparr>sc_next_attempt := n\<rparr>) = boots S" "boots (S\<lparr>sc_next_reservation := n\<rparr>) = boots S" "boots (S\<lparr>sc_next_generation := n\<rparr>) = boots S"
  "boots (S\<lparr>sc_next_group := n\<rparr>) = boots S" "boots (S\<lparr>sc_mem := v\<rparr>) = boots S" "boots (S\<lparr>sc_requests := rq\<rparr>) = boots S"
  by (rule boots_workers; simp)+

lemma boots_modify: "(\<And>x. wd_boot_id (ws_desc (f x)) = wd_boot_id (ws_desc x)) \<Longrightarrow> sc_workers T = modify w f (sc_workers S) \<Longrightarrow> boots T = boots S"
  by (auto simp: boots_def fun_eq_iff alist_simps option.map_comp comp_def)

lemma boots_leave_group [simp]: "boots (leave_group g q S) = boots S"
proof (cases "\<exists>x. map_of (sc_groups S) g = Some x \<and> removeAll q (gs_outstanding x) = []")
  case True
  then show ?thesis
    by (auto simp: leave_group_def Let_def intro!: boots_modify [where f = "\<lambda>w. if ws_busy_units w > 0 then w\<lparr>ws_busy_units := ws_busy_units w - 1\<rparr> else w"])
next
  case False
  then show ?thesis by (auto simp: leave_group_def Let_def boots_def fun_eq_iff split: option.split)
qed

lemma fold_boots: "(\<And>x S. boots (f x S) = boots S) \<Longrightarrow> boots (fold f xs S) = boots S"
  by (induction xs arbitrary: S) auto

lemma fold_boots_snd: "(\<And>x p. boots (snd (f x p)) = boots (snd p)) \<Longrightarrow> boots (snd (fold f xs p)) = boots (snd p)"
  by (induction xs arbitrary: p) auto

lemma boots_sweep [simp]: "boots (sweep now S) = boots S"
  unfolding sweep_def by (rule fold_boots) (simp add: sweep_one_def expire_request_def release_reservation_def Let_def)

lemma boots_touch_tenants [simp]: "boots (touch_tenants cs S) = boots S"
  unfolding touch_tenants_def by (simp add: fold_boots)

lemma boots_form_groups [simp]: "boots (snd (form_groups cs S)) = boots S"
proof -
  have "boots (snd (form_one rid p)) = boots (snd p)" for rid p
    by (cases p) (simp add: form_one_def alloc_group_def Let_def split: option.split)
  then show ?thesis unfolding form_groups_def by (subst fold_boots_snd) simp_all
qed

lemma boots_reserve_all [simp]: "boots (snd (snd (reserve_all rids acc S))) = boots S"
  by (induction rids acc S rule: reserve_all.induct) (auto simp: alloc_reservation_def Let_def split: prod.splits sum.splits)

lemma boots_commit_members [simp]: "boots (snd (commit_members now gid w i rids acc S)) = boots S"
  by (induction now gid w i rids acc S rule: commit_members.induct) (auto simp: alloc_generation_def Let_def)

lemma boots_dispatch_one [simp]: "boots (snd (dispatch_one now g p)) = boots (snd p)"
proof -
  have commit: "boots (snd (commit_group now w g (b, S))) = boots S" for w b S
    unfolding commit_group_def prod.case Let_def case_prod_unfold
    using boots_commit_members [of now "eg_group_id (og_group g)" w 0 "og_rids g" "(\<lparr>gs_group = og_group g, gs_worker = w, gs_outstanding = []\<rparr>, 0)" S]
    by (auto intro: trans [OF boots_modify [where f = "\<lambda>x. x\<lparr>ws_busy_units := ws_busy_units x + 1\<rparr>"]])
  have undo: "boots (roll_back acc S) = boots S" "boots (trace_all msg rids S) = boots S" for acc S msg rids
    by (simp_all add: roll_back_def trace_all_def Let_def fold_boots case_prod_unfold)
  obtain b S where p: "p = (b, S)" by (cases p)
  have r: "boots T = boots S" if "reserve_all rids acc S = (ok, ac, T)" for rids acc ok ac T
    using boots_reserve_all [of rids acc S] that by simp
  show ?thesis unfolding p by (auto simp: dispatch_one_def undo commit r split: option.split prod.split bool.split)
qed

lemma boots_run_cycle: "boots (snd (run_cycle S)) = boots S"
proof -
  have d: "boots (snd (dispatch_groups now opn T)) = boots T" for now opn T
    unfolding dispatch_groups_def by (subst fold_boots_snd) simp_all
  show ?thesis by (simp add: run_cycle_def Let_def case_prod_unfold d refresh_gauges_def age_waiting_def)
qed

subsection \<open>Results\<close>

text \<open>Reporting results one after the other, all of which are accepted.\<close>
primrec accepts :: "platform \<Rightarrow> MemberResult list \<Rightarrow> Impl \<Rightarrow> bool" where
  "accepts pf [] S = True"
| "accepts pf (r # rs) S = (is_ok (fst (report_completion pf r S)) \<and> accepts pf rs (snd (report_completion pf r S)))"

text \<open>A step that leaves the other requests, the epoch and the boot identities of the workers alone.\<close>
definition apart :: "RequestId \<Rightarrow> Impl \<Rightarrow> Impl \<Rightarrow> bool" where
  "apart rid S T \<longleftrightarrow> (\<forall>q. q \<noteq> rid \<longrightarrow> reqs T q = reqs S q) \<and> sc_epoch T = sc_epoch S \<and> boots T = boots S"

lemma apart_refl [simp]: "apart rid S S"
  by (simp add: apart_def)

lemma apart_trans: "apart rid S T \<Longrightarrow> apart rid T U \<Longrightarrow> apart rid S U"
  by (simp add: apart_def)

lemma apart_updates [simp]:
  "apart rid S (upd_rs rid f T) = apart rid S T" "apart rid S (upd_stats h T) = apart rid S T"
  "apart rid S (upd_tenant t k T) = apart rid S T" "apart rid S (upd_mem u T) = apart rid S T"
  "apart rid S (tick T) = apart rid S T" "apart rid S (log_now ty q a msg T) = apart rid S T"
  by (simp_all add: apart_def upd_rs_def alist_simps)

lemma apart_attempt [simp]: "apart rid S (T\<lparr>sc_next_attempt := n\<rparr>) = apart rid S T"
  by (simp add: apart_def)

lemma apart_leave_group [simp]: "apart rid S (leave_group g q T) = apart rid S T"
  by (simp add: apart_def)

lemma apart_completion: "apart (mr_request_id r) S (apply_completion pf r S)"
proof -
  let ?rid = "mr_request_id r"
  have acc: "apart ?rid S T \<Longrightarrow> apart ?rid S (account_chunk ?rid T)" for T by (simp add: account_chunk_def Let_def)
  have fin: "apart ?rid S T \<Longrightarrow> apart ?rid S (finish_request ?rid l msg T)" for T l msg by (simp add: finish_request_def Let_def)
  have ret: "apart ?rid S T \<Longrightarrow> apart ?rid S (retry_request pf ?rid T)" for T by (simp add: retry_request_def alloc_attempt_def Let_def)
  have suc: "apart ?rid S T \<Longrightarrow> apart ?rid S (apply_success ?rid T)" for T by (simp add: apply_success_def Let_def fin)
  have out: "apart ?rid S T \<Longrightarrow> apart ?rid S (apply_outcome pf r T)" for T by (simp add: apply_outcome_def Let_def fin ret suc)
  have rel: "apart ?rid S T \<Longrightarrow> apart ?rid S (release_reservation ?rid T)" for T by (simp add: release_reservation_def Let_def)
  have det: "apart ?rid S T \<Longrightarrow> apart ?rid S (detach ?rid T)" for T by (simp add: detach_def Let_def)
  show ?thesis unfolding apply_completion_def Let_def by (simp add: det rel out acc)
qed

lemma completion_error_apart:
  assumes "apart rid S T" "mr_request_id r \<noteq> rid"
  shows "completion_error r T = None \<longleftrightarrow> completion_error r S = None"
proof -
  have 1: "reqs T (mr_request_id r) = reqs S (mr_request_id r)" "sc_epoch T = sc_epoch S" using assms by (simp_all add: apart_def)
  have 2: "(case map_of (sc_workers T) w of None \<Rightarrow> True | Some x \<Rightarrow> wd_boot_id (ws_desc x) \<noteq> b) =
      (case map_of (sc_workers S) w of None \<Rightarrow> True | Some x \<Rightarrow> wd_boot_id (ws_desc x) \<noteq> b)" for w b
  proof -
    have "boots T w = boots S w" using assms(1) by (simp add: apart_def)
    then show ?thesis unfolding boots_def by (cases "map_of (sc_workers T) w"; cases "map_of (sc_workers S) w") auto
  qed
  show ?thesis unfolding completion_error_def 1 2 by (auto split: option.split)
qed

lemma accepts_all:
  "distinct (map mr_request_id rs) \<Longrightarrow> \<forall>r \<in> set rs. completion_error r S = None \<Longrightarrow> accepts pf rs S"
proof (induction rs arbitrary: S)
  case (Cons r rs)
  have T: "report_completion pf r S = (res_ok (), apply_completion pf r S)" using Cons.prems(2) by (simp add: report_completion_def)
  have "accepts pf rs (apply_completion pf r S)"
  proof (rule Cons.IH)
    show "distinct (map mr_request_id rs)" using Cons.prems(1) by simp
    show "\<forall>q \<in> set rs. completion_error q (apply_completion pf r S) = None"
      using Cons.prems completion_error_apart [OF apart_completion] by (metis (no_types, lifting) distinct.simps(2) image_eqI list.set_intros(2) list.set_map list.simps(9))
  qed
  then show ?case by (simp add: T)
qed simp

subsection \<open>From dispatch to completion\<close>

text \<open>The results that reach the coordinator when the worker gets the dispatch.\<close>
definition worker_reply :: "Worker \<Rightarrow> Message \<Rightarrow> MemberResult list" where
  "worker_reply w d = ms_member_results (received (fst (worker_dispatch w (received d))))"

text \<open>The result of a member is a success with the digest of the tokens of the member's range.\<close>
definition computed :: "(RequestId, u32 list) alist \<Rightarrow> ExecutableMember \<Rightarrow> MemberResult \<Rightarrow> bool" where
  "computed tokens m r \<longleftrightarrow> answers m r \<and> mr_outcome r = MO_success \<and> (\<exists>toks. map_of tokens (em_request_id m) = Some toks \<and>
     mr_digest r = ff_member_digest (em_request_id m) (em_attempt_id m) (em_generation m)
       (take (unat (em_token_count m)) (drop (unat (em_token_start m)) toks)) (em_token_start m) (em_token_count m))"

lemma answers_wire [simp]: "answers m (wire_mres (authorize w d r)) = answers m r"
  by (simp add: answers_def wire_mres_def authorize_def)

lemma computed_wire [simp]: "computed tokens m (wire_mres (authorize w d r)) = computed tokens m r"
  by (simp add: computed_def) (simp add: wire_mres_def authorize_def)

lemma cpu_member_computed:
  assumes "em_token_count m \<noteq> 0" "map_of tokens (em_request_id m) = Some toks"
    "res (em_request_id m) (em_attempt_id m) (em_generation m) (em_token_start m) (em_token_count m) =
       res_ok (take (unat (em_token_count m)) (drop (unat (em_token_start m)) toks))"
  shows "computed tokens m (snd (cpu_member res m))"
  using assms by (simp add: computed_def cpu_member_def Let_def res_ok_def) (simp add: member_result_of_def)

lemma cpu_worker_reply:
  assumes "wk_ex w = CpuExecutor dev"
  shows "worker_reply w d = map (\<lambda>m. wire_mres (authorize w (received d) (snd (cpu_member (dispatch_resolve (dispatch_slices (received d))) m))))
    (eg_members (ms_group (received d)))"
proof -
  obtain out where out: "cpu_execute (ms_group (received d)) (dispatch_resolve (dispatch_slices (received d))) = Inr out"
    by (simp add: cpu_execute_def res_ok_def)
  then show ?thesis
    using cpu_execute_members [OF out] assms
    by (simp add: worker_reply_def worker_dispatch_def Let_def CpuExecutor_def) (simp add: received_def)
qed

lemma recorded_accepted:
  assumes "recorded_member c T dg m" "answers m r" "mr_epoch r = sc_epoch T" "sc_epoch T \<noteq> nil_id"
    "mr_worker r = dg_assigned_worker dg" "boots T (dg_assigned_worker dg) = Some (mr_boot r)"
  shows "completion_error r T = None"
proof -
  obtain s where s: "reqs T (em_request_id m) = Some s" "is_active_work s" "rs_current_generation s = em_generation m"
      "rs_attempt s = em_attempt_id m" "rs_dispatched_worker s = dg_assigned_worker dg"
    using assms(1) unfolding recorded_member_def by blast
  show ?thesis
    using s assms(2-6)
    by (auto simp: completion_error_def is_active_work_def is_terminal_lifecycle_def answers_def boots_def split: option.split)
qed

text \<open>
  (C5) From dispatch to completion: when a cycle of the coordinator dispatches a group to a worker that is registered under its boot
  identity and runs the CPU executor, the worker's completion message holds one result per member, in order, each
  a success whose digest is that of exactly the member's tokens, and the coordinator's scheduler accepts all of them.
  The group's tokens are at the coordinator, and the epoch is not nil.
\<close>
theorem dispatched_group_completes:
  assumes "reachable pf (co_sched C)" "room (length (sc_requests (co_sched C))) (co_sched C)"
    and "on_sched run_cycle C = (res_ok b, D)" "dg \<in> set (db_groups b)"
    and "dispatch_message dg D = Some d" "length (ms_member_tokens d) < 2 ^ 64" "sc_epoch (co_sched D) \<noteq> nil_id"
    and "wk_ex w = CpuExecutor dev" "wk_id w = dg_assigned_worker dg" "boots (co_sched C) (wk_id w) = Some (wk_boot_id w)"
  shows "list_all2 (computed (co_tokens D)) (eg_members (dg_group dg)) (worker_reply w d) \<and> accepts pf (worker_reply w d) (co_sched D)"
proof -
  let ?ms = "eg_members (dg_group dg)" and ?T = "co_sched D"
  let ?f = "\<lambda>m. wire_mres (authorize w (received d) (snd (cpu_member (dispatch_resolve (dispatch_slices (received d))) m)))"
  have cyc: "run_cycle (co_sched C) = (res_ok b, ?T)" using assms(3) by (auto simp: on_sched_def case_prod_unfold Let_def intro: prod_eqI)
  have inv: "sched_inv pf {} ?T"
    using reachable_inv [OF reachable_step [OF assms(1) sched_step.cycled [OF assms(2)]]] by (simp add: cyc)
  note rec = run_cycle_recorded [OF assms(1,2) cyc assms(4)]
  note dist = run_cycle_distinct [OF reachable_inv [OF assms(1)] assms(2) cyc assms(4)]
  note range = recorded_range [OF inv rec]
  have grp: "ms_group (received d) = wire_group (dg_group dg)" "ms_epoch (received d) = sc_epoch ?T"
    using dispatch_sends [OF assms(5)] by metis+
  have reply: "worker_reply w d = map ?f ?ms" unfolding cpu_worker_reply [OF assms(8)] grp(1) by (simp add: wire_group_def)
  have comp: "computed (co_tokens D) m (?f m)" if m: "m \<in> set ?ms" for m
  proof -
    obtain toks where t: "map_of (co_tokens D) (em_request_id m) = Some toks"
        "dispatch_resolve (dispatch_slices (received d)) (em_request_id m) (em_attempt_id m) (em_generation m) (em_token_start m) (em_token_count m) =
          res_ok (take (unat (em_token_count m)) (drop (unat (em_token_start m)) toks))"
      using delivered_tokens [OF assms(5) dist _ assms(6) m] range(2) by blast
    have "em_token_count m \<noteq> 0" using range(1) [OF m] by auto
    from cpu_member_computed [where res = "dispatch_resolve (dispatch_slices (received d))", OF this t] show ?thesis by simp
  qed
  have "boots ?T = boots (co_sched C)" using boots_run_cycle [of "co_sched C"] by (simp add: cyc)
  then have acc: "completion_error (?f m) ?T = None" if m: "m \<in> set ?ms" for m
    using comp [OF m] assms(7,9,10)
    by (intro recorded_accepted [OF rec [OF m]]) (simp_all add: computed_def, simp_all add: wire_mres_def authorize_def grp(2))
  have ids: "map mr_request_id (map ?f ?ms) = map em_request_id ?ms" using comp by (simp add: computed_def answers_def)
  have "accepts pf (map ?f ?ms) ?T" by (rule accepts_all) (use dist acc in \<open>simp_all only: ids set_map ball_simps, simp_all\<close>)
  moreover have "list_all2 (computed (co_tokens D)) ?ms (map ?f ?ms)" using comp by (simp add: list_all2_map2 list_all2_same)
  ultimately show ?thesis by (simp add: reply)
qed

text \<open>A coordinator whose scheduler has the sample request queued, with the request's tokens.\<close>
definition demo_service :: Coordinator where
  "demo_service = demo_coordinator\<lparr>co_sched := demo_queued, co_tokens := [(StrongId 7, [1, 2, 3, 4])]\<rparr>"

lemma demo_member:
  assumes "recorded_member c demo_running dg m"
  shows "em_request_id m = StrongId 7 \<and> em_token_start m = 0 \<and> em_token_count m = 4 \<and> dg_assigned_worker dg = StrongId 0"
proof -
  obtain g w where r: "sc_requests demo_running = [(StrongId 7, dispatched_rs 5 g w (StrongId 1)
      (demo_rs\<lparr>rs_reservation := StrongId 1, rs_reserved_bytes := 0\<rparr>))]" using demo_running_state(1) by blast
  let ?s = "dispatched_rs 5 g w (StrongId 1) (demo_rs\<lparr>rs_reservation := StrongId 1, rs_reserved_bytes := 0\<rparr>)"
  have s: "em_request_id m = StrongId 7" "em_token_start m = ch_token_start (next_chunk ?s)" "em_token_count m = ch_token_count (next_chunk ?s)"
      "dg_assigned_worker dg = rs_dispatched_worker ?s"
    using assms unfolding recorded_member_def by (auto simp: r split: if_splits)
  have "rs_dispatched_worker ?s = StrongId 0" using demo_running_state(4) by (simp add: r the_rs_def lookup_default_def)
  moreover have "next_chunk ?s = chunk_at sample_platform sample_config demo_request (StrongId 1) (StrongId 0) 0"
    using plan_closed [of demo_request sample_platform sample_config "StrongId 1" "StrongId 0"]
    by (simp add: next_chunk_def dispatched_rs_def demo_rs_def admitted_rs_def default_rs_def demo_remaining demo_chunk)
  ultimately show ?thesis using s by (simp add: chunk_at_def demo_chunk demo_remaining)
qed

theorem dispatched_group_completes_witness:
  "\<exists>b dg d. on_sched run_cycle demo_service = (res_ok b, demo_service\<lparr>co_sched := demo_running\<rparr>) \<and> dg \<in> set (db_groups b) \<and>
    dispatch_message dg (demo_service\<lparr>co_sched := demo_running\<rparr>) = Some d \<and>
    accepts sample_platform (worker_reply (mk_worker (StrongId 0) ''host'' 9 (CpuExecutor cpu0) ''cpu'' 7\<lparr>wk_boot_id := StrongId 1\<rparr>) d) demo_running"
proof -
  let ?D = "demo_service\<lparr>co_sched := demo_running\<rparr>" and ?w = "mk_worker (StrongId 0) ''host'' 9 (CpuExecutor cpu0) ''cpu'' 7\<lparr>wk_boot_id := StrongId 1\<rparr>"
  obtain b dg where b: "run_cycle demo_queued = (res_ok b, demo_running)" "dg \<in> set (db_groups b)"
    using demo_running_state(3) by blast
  have cs: "co_sched demo_service = demo_queued" by (simp add: demo_service_def)
  have rm: "room (length (sc_requests demo_queued)) demo_queued" by (simp add: room_def demo_queued_state)
  have on: "on_sched run_cycle demo_service = (res_ok b, ?D)" using b(1) by (simp add: on_sched_def cs)
  note rec = run_cycle_recorded [OF demo_reachable(2) rm b]
  note dist = run_cycle_distinct [OF reachable_inv [OF demo_reachable(2)] rm b]
  have ne: "eg_members (dg_group dg) \<noteq> []" by (rule run_cycle_nonempty [OF reachable_inv [OF demo_reachable(2)] rm b])
  obtain m ms where c: "eg_members (dg_group dg) = m # ms" using ne by (cases "eg_members (dg_group dg)") auto
  have id: "em_request_id q = StrongId 7" if "q \<in> set (eg_members (dg_group dg))" for q
    using demo_member [OF rec [OF that]] by blast
  have "ms = []" using dist id [of m] id [of "hd ms"] unfolding c by (cases ms) simp_all
  then have m: "eg_members (dg_group dg) = [m]" by (simp add: c)
  have dm: "em_request_id m = StrongId 7 \<and> em_token_start m = 0 \<and> em_token_count m = 4 \<and> dg_assigned_worker dg = StrongId 0"
    by (rule demo_member [OF rec]) (simp add: m)
  obtain d where d: "dispatch_message dg ?D = Some d" "length (ms_member_tokens d) < 2 ^ 64"
    using dm by (simp add: m dispatch_message_def demo_service_def)
  have "accepts sample_platform (worker_reply ?w d) (co_sched ?D)"
    using dispatched_group_completes [where C = demo_service and pf = sample_platform and w = ?w and dev = cpu0, OF _ _ on b(2) d]
      demo_reachable(2) rm dm demo_running_state(2)
    by (simp add: cs m mk_worker_def nil_id_def boots_def demo_queued_state local_worker_def)
  then show ?thesis using on b(2) d(1) by auto
qed

end
