(* ===== verification/PF_Client.thy ===== *)
theory PF_Client
  imports PF_Coordinator
begin

text \<open>
  The client of \<^verbatim>\<open>client.hpp\<close> and \<^verbatim>\<open>client.cpp\<close>: connecting, the request-reply exchange, and the calls over it. The lemmas join
  client and coordinator: what a submission returns is what the scheduler answered, and what is lost of a cancellation.
\<close>

record Client =
  cl_host :: string
  cl_port :: u16
  cl_sock :: Socket

text \<open>A socket that is not connected.\<close>
definition no_socket :: Socket where
  "no_socket = \<lparr>sk_valid = False, sk_sent = [], sk_incoming = [], sk_calls = 0\<rparr>"

definition mk_client :: "string \<Rightarrow> u16 \<Rightarrow> Client" where
  "mk_client host port = \<lparr>cl_host = host, cl_port = port, cl_sock = no_socket\<rparr>"

definition client_close :: "Client \<Rightarrow> Client" where
  "client_close c = c\<lparr>cl_sock := close_socket (cl_sock c)\<rparr>"

text \<open>Connecting opens the socket \<open>sk\<close> and announces the role; the hello is not answered.\<close>
definition client_connect :: "NetEnv \<Rightarrow> (nat \<Rightarrow> io) \<Rightarrow> Socket \<Rightarrow> Client \<Rightarrow> descriptors \<Rightarrow> unit Result \<times> Client \<times> descriptors" where
  "client_connect ne os sk c fds =
     (case connect_socket ne (cl_host c) (cl_port c) fds of
        (Inl e, fds) \<Rightarrow> (Inl e, c, fds)
      | (Inr _, fds) \<Rightarrow>
          let c = c\<lparr>cl_sock := sk\<lparr>sk_valid := True\<rparr>\<rparr> in
          (case encode_frame (default_message\<lparr>ms_kind := MK_hello\<rparr>) of
             Inl e \<Rightarrow> (Inl e, c, fds)
           | Inr hb \<Rightarrow> (case send_frame os hb (cl_sock c) of (r, sk) \<Rightarrow> (r, c\<lparr>cl_sock := sk\<rparr>, fds))))"

definition roundtrip :: "(nat \<Rightarrow> io) \<Rightarrow> Message \<Rightarrow> MsgKind \<Rightarrow> Client \<Rightarrow> Message Result \<times> Client" where
  "roundtrip os msg expect c =
     (if \<not> sk_valid (cl_sock c) then (res_err EC_io_failure ''client not connected'', c)
      else case encode_frame msg of
        Inl e \<Rightarrow> (Inl e, c)
      | Inr eb \<Rightarrow>
          (case send_frame os eb (cl_sock c) of
             (Inl e, sk) \<Rightarrow> (Inl e, c\<lparr>cl_sock := sk\<rparr>)
           | (Inr _, sk) \<Rightarrow>
               (case recv_frame os sk of
                  (Inl e, sk) \<Rightarrow> (Inl e, c\<lparr>cl_sock := sk\<rparr>)
                | (Inr fb, sk) \<Rightarrow>
                    let c = c\<lparr>cl_sock := sk\<rparr> in
                    (case decode_frame fb of
                       Inl e \<Rightarrow> (Inl e, c)
                     | Inr dm \<Rightarrow>
                         if ms_kind dm = MK_error then (Inl (ms_error dm), c)
                         else if ms_kind dm \<noteq> expect then (res_err EC_protocol_violation ''unexpected reply kind'', c)
                         else (res_ok dm, c)))))"

text \<open>The part of a reply that a call returns.\<close>
definition of_reply :: "(Message \<Rightarrow> 'a Result) \<Rightarrow> Message Result \<times> Client \<Rightarrow> 'a Result \<times> Client" where
  "of_reply f rc = (case rc of (Inl e, c) \<Rightarrow> (Inl e, c) | (Inr m, c) \<Rightarrow> (f m, c))"

definition submit_message :: "PrefillRequest \<Rightarrow> u32 list \<Rightarrow> Message" where
  "submit_message req tokens = default_message\<lparr>ms_kind := MK_submit, ms_request := req, ms_tokens := tokens\<rparr>"

definition client_submit :: "(nat \<Rightarrow> io) \<Rightarrow> PrefillRequest \<Rightarrow> u32 list \<Rightarrow> Client \<Rightarrow> RequestId Result \<times> Client" where
  "client_submit os req tokens c =
     of_reply (\<lambda>m. if ms_accepted m then res_ok (ms_request_id m) else Inl (ms_error m))
       (roundtrip os (submit_message req tokens) MK_submit_ack c)"

definition client_cancel :: "(nat \<Rightarrow> io) \<Rightarrow> RequestId \<Rightarrow> Client \<Rightarrow> CancelResult Result \<times> Client" where
  "client_cancel os rid c =
     of_reply (\<lambda>m. res_ok (ms_cancel_result m)) (roundtrip os (default_message\<lparr>ms_kind := MK_cancel, ms_request_id := rid\<rparr>) MK_cancel_ack c)"

definition query_state :: "(nat \<Rightarrow> io) \<Rightarrow> Client \<Rightarrow> Message Result \<times> Client" where
  "query_state os c = roundtrip os (default_message\<lparr>ms_kind := MK_query_state\<rparr>) MK_state c"

definition query_explain :: "(nat \<Rightarrow> io) \<Rightarrow> RequestId \<Rightarrow> Client \<Rightarrow> Message Result \<times> Client" where
  "query_explain os rid c = roundtrip os (default_message\<lparr>ms_kind := MK_query_explain, ms_request_id := rid\<rparr>) MK_explain_resp c"

definition query_stats :: "(nat \<Rightarrow> io) \<Rightarrow> Client \<Rightarrow> Stats Result \<times> Client" where
  "query_stats os c =
     of_reply (\<lambda>m. res_ok (ms_stats m)) (roundtrip os (default_message\<lparr>ms_kind := MK_query_stats\<rparr>) MK_stats_resp c)"

definition client_roll_epoch :: "(nat \<Rightarrow> io) \<Rightarrow> Client \<Rightarrow> Epoch Result \<times> Client" where
  "client_roll_epoch os c =
     of_reply (\<lambda>m. res_ok (ms_epoch m)) (roundtrip os (default_message\<lparr>ms_kind := MK_roll_epoch\<rparr>) MK_state c)"

definition client_shutdown :: "(nat \<Rightarrow> io) \<Rightarrow> Client \<Rightarrow> unit Result \<times> Client" where
  "client_shutdown os c =
     of_reply (\<lambda>m. res_ok ()) (roundtrip os (default_message\<lparr>ms_kind := MK_shutdown\<rparr>) MK_shutdown_ack c)"

subsection \<open>Exchanges with the coordinator\<close>

lemma encoded_length: "encode_frame m = res_ok body \<Longrightarrow> 2 \<le> length body"
  by (auto simp: encode_frame_def encode_body_def res_ok_def res_err_def put_u8_def put_enum_def split: option.splits)

lemma send_frame_ok:
  assumes "delivers_bytes os" "length body \<le> frame_limit"
  shows "\<exists>sk'. send_frame os body sk = (Inr (), sk') \<and> sk_incoming sk' = sk_incoming sk"
proof -
  have "is_ok (fst (send_frame os body sk))"
    using assms send_all_ok [OF assms(1), of "frame_prefix body" sk] send_all_ok [OF assms(1), of body]
    by (cases "send_all os (frame_prefix body) sk") (auto simp: send_frame_def split: sum.split)
  then show ?thesis using send_frame_incoming [of os body sk] by (cases "send_frame os body sk"; cases "fst (send_frame os body sk)") auto
qed

text \<open>A delivered request and reply: the client gets the reply as the wire carries it.\<close>
lemma roundtrip_reply:
  assumes os: "delivers_bytes os" and c: "sk_valid (cl_sock c)" "sk_incoming (cl_sock c) = frame_bytes ans @ rest"
    and msg: "encode_frame msg = res_ok body" "length body \<le> frame_limit"
    and rep: "encode_frame rep = res_ok ans" "length ans \<le> frame_limit" "message_fits (ms_kind rep) rep"
      "ms_kind rep = expect" "expect \<noteq> MK_error"
  shows "fst (roundtrip os msg expect c) = res_ok (received rep)"
proof -
  obtain sk where sk: "send_frame os body (cl_sock c) = (Inr (), sk)" "sk_incoming sk = frame_bytes ans @ rest"
    using send_frame_ok [OF os msg(2), of "cl_sock c"] c(2) by auto
  obtain sk' where sk': "recv_frame os sk = (Inr ans, sk')" using recv_frame_ok [OF os sk(2) encoded_length [OF rep(1)] rep(2)] by blast
  have dec: "decode_frame ans = Inr (received rep)" using message_rt [OF rep(3)] rep(1) by (auto simp: res_ok_def)
  have kind: "ms_kind (received rep) = expect" using rep(4) by (cases expect) (simp_all add: received_def)
  show ?thesis using c(1) msg(1) rep(5) by (simp add: roundtrip_def sk sk' dec kind res_ok_def Let_def)
qed

lemma client_frame_submit:
  assumes fit: "message_fits MK_submit (submit_message req toks)" and body: "encode_frame (submit_message req toks) = res_ok body"
  shows "client_frame pf net conn (res_ok body) C =
    client_message pf net conn MK_submit (submit_message req toks) C"
proof -
  have "received (submit_message req toks) = submit_message req toks"
    by (simp add: received_def submit_message_def default_message_def)
  moreover have "message_fits (ms_kind (submit_message req toks)) (submit_message req toks)" using fit by (simp add: submit_message_def)
  ultimately have "decode_frame body = Inr (submit_message req toks)" using message_rt [of "submit_message req toks"] body by (auto simp: res_ok_def)
  then show ?thesis by (simp add: client_frame_def res_ok_def) (simp add: submit_message_def)
qed

text \<open>
  (C17) Submission through the service: when the frame of a client's submission reaches the coordinator and the frame the coordinator sends
  back reaches the client, the call returns exactly what the scheduler answered (the identity of the request or the scheduler's error), the
  coordinator's scheduler has taken the submission once, and the coordinator holds the client's tokens. The request and the
  answer have lengths the formats can carry, and no call of the system fails.
\<close>
theorem submission_through_service:
  assumes "delivers_bytes os" "message_fits MK_submit (submit_message req toks)"
    and "encode_frame (submit_message req toks) = res_ok body" "length body \<le> frame_limit"
    and "message_fits MK_submit_ack (submit_reply (request_id req) (fst (submit pf req (co_sched C))))"
    and "D = snd (client_frame pf (\<lambda>conn body. True) conn (res_ok body) C)"
    and "co_sent D = co_sent C @ [(conn, ans)]" "length ans \<le> frame_limit"
    and "sk_valid (cl_sock c)" "sk_incoming (cl_sock c) = frame_bytes ans"
  shows "fst (client_submit os req toks c) = (case fst (submit pf req (co_sched C)) of Inl e \<Rightarrow> Inl e | Inr _ \<Rightarrow> res_ok (request_id req)) \<and>
    co_sched D = snd (submit pf req (co_sched C)) \<and> map_of (co_tokens D) (request_id req) = Some toks"
proof -
  let ?res = "fst (submit pf req (co_sched C))" and ?m = "submit_message req toks"
  let ?C = "C\<lparr>co_tokens := AList.update (request_id req) toks (co_tokens C)\<rparr>"
  let ?S = "?C\<lparr>co_sched := snd (submit pf req (co_sched C))\<rparr>" and ?rep = "submit_reply (request_id req) (fst (submit pf req (co_sched C)))"
  have k: "ms_kind ?rep = MK_submit_ack" by (simp add: submit_reply_def Let_def split: sum.split)
  obtain ab where ab: "encode_frame ?rep = res_ok ab" using message_rt [of ?rep] assms(5) unfolding k by blast
  have D: "D = ?S\<lparr>co_sent := co_sent C @ [(conn, ab)]\<rparr>"
    unfolding assms(6) client_frame_submit [OF assms(2,3)] using ab
    by (simp add: on_sched_def case_prod_unfold Let_def reply_def send_to_def res_ok_def submit_message_def)
  then have ans: "ab = ans" using assms(7) by simp
  have "fst (roundtrip os ?m MK_submit_ack c) = res_ok (received ?rep)"
    by (rule roundtrip_reply [OF assms(1,9) _ assms(3,4) ab [unfolded ans] assms(8), where rest = "[]"]) (use assms(5,10) k in simp_all)
  then have "fst (client_submit os req toks c) = (if ms_accepted (received ?rep) then res_ok (ms_request_id (received ?rep)) else Inl (ms_error (received ?rep)))"
    unfolding client_submit_def of_reply_def by (cases "roundtrip os ?m MK_submit_ack c") (simp add: res_ok_def)
  also have "\<dots> = (case ?res of Inl e \<Rightarrow> Inl e | Inr _ \<Rightarrow> res_ok (request_id req))"
    unfolding received_def k by (cases ?res) (simp_all add: submit_reply_def default_message_def)
  finally show ?thesis unfolding D by (simp add: AList.update_conv')
qed

lemma length_synthetic_tokens [simp]: "length (synthetic_tokens n seed) = n"
  by (induction n seed rule: synthetic_tokens.induct) (simp_all add: Let_def)

lemma demo_submission: "fst (submit sample_platform demo_request (co_sched demo_coordinator)) = res_ok ()"
proof -
  have "register_request demo_request (synthetic_tokens (unat (prompt_token_count demo_request)) x) [] =
      (res_ok (), [(StrongId 7, synthetic_tokens (unat (prompt_token_count demo_request)) x)])" for x
    by (simp add: register_request_def) (simp add: demo_request_def default_request_def)
  then show ?thesis
    using demo_valid demo_remaining
    by (simp add: submit_def submit_with_tokens_def Let_def demo_coordinator_def mk_coordinator_def mk_scheduler_def sample_config_def
          default_config_def res_ok_def)
      (simp add: demo_request_def the_tenant_def upd_tenant_def modify_default_def lookup_default_def default_tenant_def
        f64_one_not_zero)
qed

theorem submission_through_service_witness:
  "\<exists>ans. fst (client_submit demo_os demo_request [1, 2, 3, 4] (mk_client ''host'' 9\<lparr>cl_sock := demo_socket (frame_bytes ans)\<rparr>)) = res_ok (StrongId 7)"
proof -
  let ?m = "submit_message demo_request [1, 2, 3, 4]" and ?rep = "submit_reply (request_id demo_request) (res_ok ())"
  have fit: "message_fits MK_submit ?m"
    by (simp add: submit_message_def demo_request_def prefill_fits_def default_request_def str_fits_def int_range_def
      enum_byte_def AdapterRelation_of_code_def InputLayout_of_code_def NumericMode_of_code_def LatencyClass_of_code_def kBackendAny_def)
  obtain body where body: "encode_frame ?m = res_ok body" "length body \<le> frame_limit"
    by (simp add: encode_frame_def encode_body_def submit_message_def enc_req_def demo_request_def default_request_def put_counted_def frame_limit_def kBackendAny_def)
  obtain ans where ans: "encode_frame ?rep = res_ok ans" "length ans \<le> frame_limit"
    by (simp add: encode_frame_def encode_body_def submit_reply_def default_message_def put_code_def res_ok_def frame_limit_def mk_error_def)
  have rid: "request_id demo_request = StrongId 7" by (simp add: demo_request_def)
  have rfit: "message_fits MK_submit_ack ?rep"
    by (simp add: submit_reply_def res_ok_def default_message_def mk_error_def str_fits_def)
  let ?D = "snd (client_frame sample_platform (\<lambda>conn body. True) 3 (res_ok body) demo_coordinator)"
    and ?c = "mk_client ''host'' 9\<lparr>cl_sock := demo_socket (frame_bytes ans)\<rparr>"
  have D: "co_sent ?D = co_sent demo_coordinator @ [(3, ans)]"
    unfolding client_frame_submit [OF fit body(1)] using ans(1) demo_submission
    by (simp add: on_sched_def case_prod_unfold Let_def reply_def send_to_def res_ok_def submit_message_def)
  have c: "sk_valid (cl_sock ?c)" "sk_incoming (cl_sock ?c) = frame_bytes ans" by (simp_all add: demo_socket_def)
  have "fst (client_submit demo_os demo_request [1, 2, 3, 4] ?c) = res_ok (StrongId 7)"
    using submission_through_service [OF demo_os_delivers fit body _ refl D ans(2) c] rfit demo_submission rid by (simp add: res_ok_def)
  then show ?thesis by blast
qed

text \<open>
  Of the answer to a cancellation only \<^verbatim>\<open>was_terminal\<close> reaches the caller: whether it was applied, its code and its message are not
  copied into the result that \<^verbatim>\<open>Client::cancel\<close> returns.
\<close>
lemma cancel_answer_lost:
  assumes "delivers_bytes os" "sk_valid (cl_sock c)" "sk_incoming (cl_sock c) = frame_bytes ans" "length ans \<le> frame_limit"
    and "encode_frame (default_message\<lparr>ms_kind := MK_cancel_ack, ms_request_id := rid, ms_applied := ca_applied cr, ms_cancel_result := cr,
      ms_error := mk_error (ca_code cr) (ca_message cr)\<rparr>) = res_ok ans" "str_fits (ca_message cr)" "ErrorCode_named (ca_code cr)"
  shows "fst (client_cancel os rid c) = res_ok ((ms_cancel_result default_message)\<lparr>ca_was_terminal := ca_was_terminal cr\<rparr>)"
proof -
  let ?q = "default_message\<lparr>ms_kind := MK_cancel, ms_request_id := rid\<rparr>"
  let ?a = "default_message\<lparr>ms_kind := MK_cancel_ack, ms_request_id := rid, ms_applied := ca_applied cr, ms_cancel_result := cr,
      ms_error := mk_error (ca_code cr) (ca_message cr)\<rparr>"
  obtain body where b: "encode_frame ?q = res_ok body" "length body \<le> frame_limit"
    by (simp add: encode_frame_def encode_body_def res_ok_def put_u8_def put_enum_def put_strong_def put_u64_def frame_limit_def)
  have "fst (roundtrip os ?q MK_cancel_ack c) = res_ok (received ?a)"
    by (rule roundtrip_reply [OF assms(1,2) _ b assms(5,4), where rest = "[]"]) (use assms(3,6,7) in \<open>simp_all add: mk_error_def\<close>)
  then show ?thesis
    unfolding client_cancel_def of_reply_def
    by (cases "roundtrip os ?q MK_cancel_ack c") (simp add: res_ok_def received_def)
qed

end
