(* ===== verification/PF_Cli.thy ===== *)
theory PF_Cli
  imports PF_Worker PF_Client PF_Recover
begin

text \<open>
  The command line of \<^verbatim>\<open>main.cpp\<close>: its arguments, the host and port they name, the request they describe, and the exit status
  of every command. What the commands print is not modelled. The C conversions \<^verbatim>\<open>atoi\<close> and \<^verbatim>\<open>strtoull\<close> are.
\<close>

unbundle bit_operations_syntax

subsection \<open>Arguments\<close>

fun arg :: "string list \<Rightarrow> string \<Rightarrow> string \<Rightarrow> string" where
  "arg (a # b # rest) key def = (if a = key then b else arg (b # rest) key def)"
| "arg _ key def = def"

definition is_digit :: "char \<Rightarrow> bool" where
  "is_digit c \<longleftrightarrow> 48 \<le> (of_char c :: nat) \<and> (of_char c :: nat) < 58"

definition is_space :: "char \<Rightarrow> bool" where
  "is_space c \<longleftrightarrow> (of_char c :: nat) = 32 \<or> 9 \<le> (of_char c :: nat) \<and> (of_char c :: nat) \<le> 13"

text \<open>An optional sign and the digits after it; no digits are zero.\<close>
definition signed_digits :: "string \<Rightarrow> bool \<times> nat" where
  "signed_digits s =
     (let s = dropWhile is_space s in
      if s \<noteq> [] \<and> hd s = CHR ''-'' then (True, of_digits (takeWhile is_digit (tl s)))
      else if s \<noteq> [] \<and> hd s = CHR ''+'' then (False, of_digits (takeWhile is_digit (tl s)))
      else (False, of_digits (takeWhile is_digit s)))"

text \<open>\<^verbatim>\<open>atoi\<close>; the result is undefined in C when the value does not fit.\<close>
definition atoi :: "string \<Rightarrow> int" where
  "atoi s = (case signed_digits s of (neg, n) \<Rightarrow> if neg then - int n else int n)"

text \<open>\<^verbatim>\<open>strtoull\<close> saturates, and negates modulo \<open>2 ^ 64\<close>.\<close>
definition strtoull :: "string \<Rightarrow> u64" where
  "strtoull s = (case signed_digits s of (neg, n) \<Rightarrow>
     if 2 ^ 64 \<le> n then - 1 else if neg then - of_nat n else of_nat n)"

text \<open>The text before and after the last colon.\<close>
definition parse_hostport :: "string \<Rightarrow> string \<times> u16" where
  "parse_hostport s =
     (if CHR '':'' \<notin> set s then (s, 0)
      else (rev (tl (dropWhile (\<lambda>c. c \<noteq> CHR '':'') (rev s))), word_of_int (atoi (rev (takeWhile (\<lambda>c. c \<noteq> CHR '':'') (rev s))))))"

definition coord_of :: "string list \<Rightarrow> string \<times> u16" where
  "coord_of args = parse_hostport (arg args ''--coord'' ''127.0.0.1:0'')"

text \<open>The request of \<^verbatim>\<open>submit\<close>; \<open>now\<close> is the reading of the high-resolution clock.\<close>
definition make_request :: "string list \<Rightarrow> u64 \<Rightarrow> PrefillRequest" where
  "make_request args now =
     (let prompt = strtoull (arg args ''--prompt'' ''1024''); cached = strtoull (arg args ''--cached'' ''0'') in
      default_request\<lparr>request_id := StrongId (now AND 0xFFFFFFFFFFFF),
        tenant_id := StrongId (strtoull (arg args ''--tenant'' ''1'')),
        req_model := \<lparr>model_name = arg args ''--model'' ''model'', model_revision = arg args ''--revision'' ''1''\<rparr>,
        prompt_token_count := prompt,
        reusable_prefix := (reusable_prefix default_request)\<lparr>prefix_token_count := cached, prefix_validated := 0 < cached\<rparr>,
        priority := atoi (arg args ''--priority'' ''0''), req_backend := arg args ''--backend'' kBackendAny,
        max_retries := atoi (arg args ''--max-retries'' ''2''), tenant_weight := f64_one,
        compute_estimate := prompt * 4, memory_estimate_bytes := prompt * 16,
        input_shape := (input_shape default_request)\<lparr>seq_len := prompt, hidden_dim := 512, num_heads := 8, head_dim := 64\<rparr>\<rparr>)"

definition gen_tokens :: "u64 \<Rightarrow> u64 \<Rightarrow> u32 list" where
  "gen_tokens n seed = synthetic_tokens (unat n) (0x9E3779B97F4A7C15 XOR seed)"

subsection \<open>Commands\<close>

text \<open>Connect, make one call, and turn its result into the exit status. The socket \<open>sk\<close> is the connection that is made.\<close>
definition with_client ::
  "NetEnv \<Rightarrow> (nat \<Rightarrow> io) \<Rightarrow> Socket \<Rightarrow> string list \<Rightarrow> (Client \<Rightarrow> 'a Result \<times> Client) \<Rightarrow> int \<times> Client" where
  "with_client ne os sk args call =
     (case client_connect ne os sk (mk_client (fst (coord_of args)) (snd (coord_of args))) {} of
        (Inl _, c, _) \<Rightarrow> (1, client_close c)
      | (Inr _, c, _) \<Rightarrow> (case call c of (Inl _, c) \<Rightarrow> (1, client_close c) | (Inr _, c) \<Rightarrow> (0, client_close c)))"

definition cmd_submit :: "NetEnv \<Rightarrow> (nat \<Rightarrow> io) \<Rightarrow> Socket \<Rightarrow> u64 \<Rightarrow> string list \<Rightarrow> int \<times> Client" where
  "cmd_submit ne os sk now args =
     (let req = make_request args now
      in with_client ne os sk args (client_submit os req (gen_tokens (prompt_token_count req) (id_value (request_id req)))))"

definition cmd_cancel :: "NetEnv \<Rightarrow> (nat \<Rightarrow> io) \<Rightarrow> Socket \<Rightarrow> string list \<Rightarrow> int \<times> Client" where
  "cmd_cancel ne os sk args = with_client ne os sk args (client_cancel os (StrongId (strtoull (arg args ''--request'' ''0''))))"

definition cmd_state :: "NetEnv \<Rightarrow> (nat \<Rightarrow> io) \<Rightarrow> Socket \<Rightarrow> string list \<Rightarrow> string \<Rightarrow> int \<times> Client" where
  "cmd_state ne os sk args verb =
     (if verb = ''stats'' then with_client ne os sk args (query_stats os) else with_client ne os sk args (query_state os))"

definition cmd_explain :: "NetEnv \<Rightarrow> (nat \<Rightarrow> io) \<Rightarrow> Socket \<Rightarrow> string list \<Rightarrow> int \<times> Client" where
  "cmd_explain ne os sk args = with_client ne os sk args (query_explain os (StrongId (strtoull (arg args ''--request'' ''0''))))"

definition cmd_roll :: "NetEnv \<Rightarrow> (nat \<Rightarrow> io) \<Rightarrow> Socket \<Rightarrow> string list \<Rightarrow> int \<times> Client" where
  "cmd_roll ne os sk args = with_client ne os sk args (client_roll_epoch os)"

text \<open>\<open>cuda\<close> is what \<^verbatim>\<open>create_cuda_executor\<close> returns, \<open>now\<close> the clock that makes the boot identity.\<close>
definition cmd_worker :: "NetEnv \<Rightarrow> (nat \<Rightarrow> io) \<Rightarrow> Socket \<Rightarrow> Executor option \<Rightarrow> u64 \<Rightarrow> string list \<Rightarrow> int" where
  "cmd_worker ne os sk cuda now args =
     (let (host, port) = coord_of args; backend = arg args ''--backend'' ''cpu'';
          ex = (if backend = ''cuda'' then (case cuda of Some x \<Rightarrow> if x_available x then Some x else None | None \<Rightarrow> None)
                else Some (CpuExecutor cpu0))
      in case ex of
           None \<Rightarrow> 1
         | Some x \<Rightarrow>
             if is_ok (fst (worker_run ne os (\<lambda>_. False) (mk_worker (StrongId (strtoull (arg args ''--id'' ''1''))) host port x backend now) sk {}))
             then 0 else 1)"

definition cli_config :: SchedulerConfig where
  "cli_config = default_config\<lparr>cf_device_memory_bytes := push_bit 30 8\<rparr>"

definition cmd_recover :: "platform \<Rightarrow> FileSystem \<Rightarrow> files \<Rightarrow> (nat \<Rightarrow> Nanoseconds) \<Rightarrow> string list \<Rightarrow> int \<times> Impl" where
  "cmd_recover pf fs files clock args =
     (case recover pf fs (arg args ''--file'' []) files (mk_scheduler pf cli_config clock) of
        (Inl _, S) \<Rightarrow> (1, S) | (Inr _, S) \<Rightarrow> (0, S))"

subsection \<open>Hosts and ports\<close>

lemma takeWhile_digits: "takeWhile is_digit (to_string_nat n) = to_string_nat n"
  by (rule takeWhile_eq_all_conv [THEN iffD2]) (auto simp: is_digit_def dest: to_string_nat_digits)

lemma to_string_nat_nonempty: "to_string_nat n \<noteq> []"
  by (subst to_string_nat.simps) simp

lemma to_string_nat_head:
  assumes "to_string_nat n = c # t"
  shows "\<not> is_space c" "c \<noteq> CHR ''-''" "c \<noteq> CHR ''+''"
proof -
  have c: "48 \<le> (of_char c :: nat)" using to_string_nat_digits [of c n] assms by simp
  show "\<not> is_space c" using c by (simp add: is_space_def)
  show "c \<noteq> CHR ''-''" "c \<noteq> CHR ''+''" using c by auto
qed

lemma atoi_to_string: "atoi (to_string_nat n) = int n"
proof -
  obtain c t where s: "to_string_nat n = c # t"
    using to_string_nat_nonempty [of n] by (cases "to_string_nat n") simp_all
  note h = to_string_nat_head [OF s]
  have d: "dropWhile is_space (to_string_nat n) = to_string_nat n" using h(1) s by simp
  have "signed_digits (to_string_nat n) = (False, of_digits (takeWhile is_digit (to_string_nat n)))"
    unfolding signed_digits_def d Let_def using h(2,3) unfolding s by simp
  then show ?thesis by (simp add: atoi_def takeWhile_digits)
qed

lemma no_colon: "CHR '':'' \<notin> set (to_string_nat n)"
  using to_string_nat_digits [of "CHR '':''" n] by auto

text \<open>
  (C40) Hosts and ports: the address that names a host, a colon and a port in decimal is parsed into that host and that port, for every
  port of 16 bits and every host, even one that itself has colons.
\<close>
theorem hostport_roundtrip:
  "parse_hostport (host @ '':'' @ to_string_nat (unat (port :: u16))) = (host, port)"
proof -
  let ?d = "to_string_nat (unat port)"
  have n: "c \<noteq> CHR '':''" if "c \<in> set (rev ?d)" for c using no_colon [of "unat port"] that by (metis set_rev)
  have "rev (host @ '':'' @ ?d) = rev ?d @ CHR '':'' # rev host" by simp
  moreover have "takeWhile (\<lambda>c. c \<noteq> CHR '':'') (rev ?d @ CHR '':'' # rev host) = rev ?d"
    "dropWhile (\<lambda>c. c \<noteq> CHR '':'') (rev ?d @ CHR '':'' # rev host) = CHR '':'' # rev host"
    by (subst takeWhile_append2 dropWhile_append2, erule n, simp)+
  ultimately show ?thesis by (simp add: parse_hostport_def atoi_to_string)
qed

end
