(* ===== verification/Spec2Isabelle.thy ===== *)
theory Spec2Isabelle
  imports PF_Order PF_Drive PF_Recover PF_Cli
begin

text \<open>
  \<^bold>\<open>Prefill Fabric\<close>: a verification library for the prefill scheduler, its executors, its persistence
  format and its distributed service.

  \<^bold>\<open>The program.\<close> A client submits a prefill request and its prompt tokens. The scheduler admits it, plans its
  remaining tokens as chunks, and in every cycle expires late requests, orders the candidates, packs compatible chunks into
  groups, reserves their memory, and dispatches each group to a worker under a fresh generation. A worker executes the group
  and reports one result per member; the scheduler accepts a result only from the holder of the current
  authority (epoch, attempt, generation, worker boot), releases the memory, and advances, retries or
  finishes the request. In one process \<^verbatim>\<open>drive_until_quiescent\<close> plays the worker; in the service a coordinator owns the scheduler
  and talks to workers and clients in framed messages. The state can be saved to a file and recovered.

  \<^bold>\<open>Conventions.\<close> Unsigned integers are words of their width and wrap; \<^verbatim>\<open>int\<close> and nanoseconds are
  integers. A \<^verbatim>\<open>double\<close> is its 64-bit pattern. Maps are association lists; hash tables too, and where the iteration order
  matters (candidates) the result is shown not to depend on it. \<open>'a Result\<close> is \<open>ErrorInfo + 'a\<close>. An operation of the scheduler takes and
  returns the record \<open>Impl\<close>. What is not under \<^verbatim>\<open>src/\<close> is a parameter: the readings of the clock, \<^verbatim>\<open>long double\<close> (\<open>platform\<close>),
  the results of system calls (\<open>io\<close>, \<open>NetEnv\<close>, \<open>FileSystem\<close>), the CUDA runtime, the executor behind the virtual interface.

  \<^bold>\<open>Theories.\<close>
  \<^item> \<open>PF_Prelude\<close>: decimal printing, association lists, sums over tables, lemma collections. \<open>PF_Float\<close>: IEEE doubles and the wider type.
  \<^item> \<open>PF_Types\<close>, \<open>PF_Request\<close>: \<^verbatim>\<open>types.hpp\<close>, \<^verbatim>\<open>result.hpp\<close>, \<^verbatim>\<open>request.hpp\<close>, \<^verbatim>\<open>policy.hpp\<close>. The locale \<open>enum_code\<close> is the contract of an
    enumeration and its code, interpreted for each of them.
  \<^item> \<open>PF_Chunking\<close>: \<^verbatim>\<open>chunking.cpp\<close>. The planning loop equals a closed form, tiles the remaining tokens and respects the limits.
  \<^item> \<open>PF_Memory\<close>: \<^verbatim>\<open>memory.hpp\<close>. The governor is exact for every sequence of operations and refines an abstract ledger.
  \<^item> \<open>PF_Compat\<close>, \<open>PF_Observe\<close>: \<^verbatim>\<open>compatibility.hpp\<close>, \<^verbatim>\<open>observability.hpp\<close>, \<^verbatim>\<open>explain.hpp\<close>.
  \<^item> \<open>PF_Executor\<close>: \<^verbatim>\<open>executor.hpp\<close>, \<^verbatim>\<open>frontend_math.hpp\<close>, \<^verbatim>\<open>cpu_executor.cpp\<close>, \<^verbatim>\<open>cuda_executor.cu\<close>. The locale \<open>executor_contract\<close> is what the
    scheduler relies on, interpreted for both executors; the reduction kernel gives the host's digest in every order of its threads.
  \<^item> \<open>PF_State\<close> (the state \<open>Impl\<close>, \<^verbatim>\<open>submit\<close>), \<open>PF_Cycle\<close> (\<^verbatim>\<open>run_cycle\<close>), \<open>PF_Report\<close> (\<^verbatim>\<open>report_completion\<close>), \<open>PF_Control\<close> (\<^verbatim>\<open>cancel\<close>, \<^verbatim>\<open>force_retry\<close>,
    workers, epochs, \<^verbatim>\<open>drive_until_quiescent\<close>, \<^verbatim>\<open>explain\<close>, \<^verbatim>\<open>snapshot\<close>): \<^verbatim>\<open>scheduler.cpp\<close>, one definition per member function.
  \<^item> \<open>PF_Effects\<close>, \<open>PF_Invariant\<close>, \<open>PF_Preserve\<close>: what the elementary updates change, the invariant \<open>sched_inv\<close> (well-formed records, exact memory,
    tenants, counters, generations) and the relation \<open>evolves\<close> (progress that is never undone), and their preservation by elementary steps.
  \<^item> \<open>PF_Lifecycle\<close>, \<open>PF_Admission\<close>, \<open>PF_Completion\<close>, \<open>PF_Withdraw\<close>, \<open>PF_Formation\<close>, \<open>PF_Dispatch\<close>: every operation keeps the invariant.
  \<^item> \<open>PF_Reach\<close>: the step relation \<open>sched_step\<close> over all operations in any order, \<open>reachable\<close>, and the invariant by rule induction.
  \<^item> \<open>PF_Safety\<close>, \<open>PF_Account\<close>, \<open>PF_Batch\<close>, \<open>PF_Order\<close>, \<open>PF_Drive\<close>: the properties of the scheduler; \<open>PF_Demo\<close>: the run the witnesses use.
  \<^item> \<open>PF_Bytes\<close>, \<open>PF_Persist\<close>, \<open>PF_Recover\<close>: \<^verbatim>\<open>persistence.hpp\<close>, \<^verbatim>\<open>persistence.cpp\<close> and the export, import and recovery of \<^verbatim>\<open>scheduler.cpp\<close>.
  \<^item> \<open>PF_Protocol\<close>, \<open>PF_Network\<close>: \<^verbatim>\<open>protocol.cpp\<close>, \<^verbatim>\<open>network.cpp\<close>. \<open>PF_Coordinator\<close>, \<open>PF_Worker\<close>, \<open>PF_Client\<close>, \<open>PF_Cli\<close>: \<^verbatim>\<open>coordinator.cpp\<close>,
    \<^verbatim>\<open>worker.cpp\<close>, \<^verbatim>\<open>client.cpp\<close>, \<^verbatim>\<open>main.cpp\<close>.

  \<^bold>\<open>What is shown.\<close>
  \<^item> In every reachable state of the scheduler the reserved memory is the sum over the executing requests and within the budget,
    the counters of tenants and statistics are exact, and every record is well formed (C1, C9, C20, C21).
  \<^item> A completion is accepted only with the current authority and at most once; a rejected one changes nothing; a terminal request never changes
    again (C2, C3, C7, C8). Dispatched groups are compatible, within limits, and describe what was recorded, so that their completions are accepted (C10, C19).
  \<^item> The candidate order does not depend on the hash table or the sorting algorithm; its fairness criterion never decides (C22, C23).
  \<^item> The in-process driver ends in quiescence (C4), with a bound computed from the work that is left.
  \<^item> Persistence: round trip, detection of truncation and of every single-byte corruption, soundness of reading, and recovery, after which old
    completions are refused (C11--C14, C30, C31, C39).
  \<^item> Service: messages and frames survive the wire in any segmentation (C15, C16, C32, C33), the coordinator refines the scheduler
    under every interleaving of its threads (C6, C29), a submission returns what the scheduler answered (C17), a worker computes on exactly the
    client's tokens (C18), and a dispatched group runs through worker and wire to accepted results (C5).
  \<^item> Components: planner (C24--C26), governor (C27, C28), executors (C35, C36), event log, JSON, sockets, addresses (C34, C37, C38, C40).

  \<^bold>\<open>Bounds.\<close> Identities are 64-bit counters: a cycle step requires \<open>room\<close>, that the counters of generations and reservations do not wrap while it
  allocates. An admitted plan has less than \<open>2 ^ 32\<close> chunks (\<open>plan_fits\<close>), the width of the chunk index. \<^verbatim>\<open>drive_until_quiescent\<close> has
  the code's bound on cycles as fuel; \<open>total_work\<close>, the chunks and retries left, is enough, and every larger bound gives the same result.
  Receive loops recurse on the bytes of the stream. Strings, counts and enumerations of a message fit the format (\<open>message_fits\<close>, \<open>state_valid\<close>).

  \<^bold>\<open>Not modelled.\<close> Threads and locks as such: an operation is atomic, as the scheduler's lock makes it, and the coordinator interleaves at its
  scheduler calls. \<^verbatim>\<open>clock.hpp\<close>, Winsock and \<^verbatim>\<open>net_init\<close>, \<^verbatim>\<open>query_device\<close> of the CUDA executor (they only pass on what
  the system reports). The references that \<^verbatim>\<open>memory()\<close> and \<^verbatim>\<open>events()\<close> hand out. Of the command line, what is printed, the endless \<^verbatim>\<open>serve\<close>, and
  \<^verbatim>\<open>benchmark\<close>. Benchmark, examples and the consumer only call the library. Undefined behaviour in C++ (a conversion
  out of range, a reversed range) has the value the definition states, and its text says so.
\<close>

end
